theory Spec2Isabelle
  imports Main
begin

section \<open>The relational store\<close>

text \<open>
  The controllers of the school administration backend work on a PostgreSQL database
  through Prisma. The tables they touch are modelled as lists of rows (in insertion
  order), a row is a record of the columns the modelled controllers read or write.
  Identifiers (UUIDs) are opaque tokens, represented by natural numbers.

  Several tables have a column of the same name; the record fields carry a prefix for
  the table: \<open>c_\<close> classes, \<open>a_\<close> admissions, \<open>co_\<close> course_offerings, \<open>e_\<close>
  student_course_enrollments, \<open>sub_\<close> subjects, \<open>ay_\<close> academic_years, \<open>st_\<close> students,
  \<open>sa_\<close> student_attendance, \<open>ea_\<close> employee_attendance, \<open>el_\<close> employee_leaves, \<open>h_\<close>
  leave_status_history.
\<close>

type_synonym id = nat

datatype enrollment_status_enum = enrolled | withdrawn | completed
datatype attendance_status_enum = present | absent | late | half_day | on_leave
datatype attendance_source_enum = biometric | manual | manual_bulk
datatype leave_status_enum = pending | approved | rejected

record class_row =
  c_class_id :: id
  c_academic_year_id :: id
  c_standard :: string
  c_section :: string
  c_capacity :: int

text \<open>Column \<open>admission_date\<close> is a DATE: the number of the calendar day (days since
  1970-01-01).\<close>

record admission_row =
  a_student_id :: id
  a_class_id :: id
  a_admission_date :: int
  a_admission_number :: string
  a_gr_number :: string

record course_offering_row =
  co_course_offering_id :: id
  co_class_id :: id
  co_subject_id :: id
  co_teacher_id :: "id option"
  co_is_mandatory :: bool

record enrollment_row =
  e_enrollment_id :: id
  e_student_id :: id
  e_course_offering_id :: id
  e_status :: enrollment_status_enum

record subject_row =
  sub_subject_id :: id
  sub_subject_name :: string

record academic_year_row =
  ay_academic_year_id :: id
  ay_is_active :: bool

record student_row =
  st_student_id :: id
  st_user_id :: "id option"

record student_attendance_row =
  sa_attendance_id :: id
  sa_student_id :: id
  sa_class_id :: id
  sa_date :: int
  sa_status :: attendance_status_enum
  sa_remarks :: "string option"

record employee_attendance_row =
  ea_attendance_id :: id
  ea_employee_id :: id
  ea_date :: int
  ea_status :: attendance_status_enum
  ea_check_in_time :: "int option"
  ea_check_out_time :: "int option"
  ea_source :: attendance_source_enum
  ea_remarks :: "string option"

record employee_leave_row =
  el_leave_id :: id
  el_employee_id :: id
  el_leave_type :: string
  el_start_date :: int
  el_end_date :: int
  el_reason :: string
  el_status :: leave_status_enum

record leave_status_history_row =
  h_history_id :: id
  h_leave_id :: id
  h_status :: leave_status_enum
  h_comment :: "string option"

text \<open>
  \<open>employees\<close> holds the primary keys of the employees table. \<open>next_uuid\<close> stands for
  the database's \<open>uuid_generate_v4()\<close>: the token the next inserted row gets as its
  generated primary key.
\<close>

record store =
  classes :: "class_row list"
  admissions :: "admission_row list"
  courseOfferings :: "course_offering_row list"
  studentCourseEnrollments :: "enrollment_row list"
  subjects :: "subject_row list"
  academicYears :: "academic_year_row list"
  students :: "student_row list"
  employees :: "id list"
  studentAttendance :: "student_attendance_row list"
  employeeAttendance :: "employee_attendance_row list"
  employeeLeaves :: "employee_leave_row list"
  leaveStatusHistory :: "leave_status_history_row list"
  next_uuid :: id

subsection \<open>Errors\<close>

text \<open>
  Every \<open>throw\<close> of a controller and every constraint violation of the database is a
  value of \<open>error\<close>: the HTTP status the controller set with \<open>res.status\<close> before
  throwing (Express answers 500 where it set none) and the message. A message is the
  text of the source, with the values it interpolates; the list of already admitted
  students keeps its identifiers, and an error raised by the database keeps its kind.
\<close>

datatype db_error =
  UniqueConstraintViolation | ForeignKeyViolation | ValidationFailed | RecordNotFound

datatype message =
    Msg string
  | AlreadyEnrolledThisYear "id list"
  | Prisma db_error

datatype error = Error nat message

subsection \<open>Transactions\<close>

text \<open>
  \<open>prisma.$transaction(async (tx) => ...)\<close>: the body runs on the store; when it
  throws, the database rolls back and the store is the one before the transaction.
\<close>

definition transaction ::
  "store \<Rightarrow> (store \<Rightarrow> error + ('a \<times> store)) \<Rightarrow> (error + 'a) \<times> store" where
  "transaction s body =
     (case body s of
        Inl e \<Rightarrow> (Inl e, s)
      | Inr (r, s') \<Rightarrow> (Inr r, s'))"

text \<open>A transaction whose body may not return (\<open>None\<close>).\<close>

definition transaction_partial ::
  "store \<Rightarrow> (store \<Rightarrow> (error + ('a \<times> store)) option) \<Rightarrow> ((error + 'a) \<times> store) option" where
  "transaction_partial s body =
     (case body s of
        None \<Rightarrow> None
      | Some (Inl e) \<Rightarrow> Some (Inl e, s)
      | Some (Inr (r, s')) \<Rightarrow> Some (Inr r, s'))"

subsection \<open>JavaScript helpers\<close>

text \<open>\<open>String(n)\<close> for an integer: its decimal digits, after a minus sign when it is
  negative.\<close>

fun digits :: "nat \<Rightarrow> string" where
  "digits n =
     (if n < 10 then [''0123456789'' ! n]
      else digits (n div 10) @ [''0123456789'' ! (n mod 10)])"

declare digits.simps [simp del]

definition show_int :: "int \<Rightarrow> string" where
  "show_int i = (if i < 0 then ''-'' @ digits (nat (- i)) else digits (nat i))"

text \<open>\<open>[...new Set(xs)]\<close>: the elements of \<open>xs\<close> without repetition, each at its first
  position.\<close>

definition new_Set :: "'a list \<Rightarrow> 'a list" where
  "new_Set xs = rev (remdups (rev xs))"

text \<open>\<open>xs.map((x, index) => ...)\<close> passes the index with each element.\<close>

definition with_index :: "'a list \<Rightarrow> (nat \<times> 'a) list" where
  "with_index xs = zip [0..<length xs] xs"

text \<open>A unique constraint refuses an INSERT whose values repeat one another or a value
  of the table.\<close>

definition unique_violation :: "'a list \<Rightarrow> 'a list \<Rightarrow> bool" where
  "unique_violation existing new \<longleftrightarrow> list_ex (\<lambda>v. v \<in> set existing) new \<or> \<not> distinct new"

section \<open>Admission: addStudentsToClass\<close>

text \<open>
  \<open>tx.admission.createMany\<close>: one INSERT of all rows. The table has unique constraints
  on admission_number and on gr_number and a foreign key from student_id to students;
  a violation fails the statement.
\<close>

definition admission_createMany ::
  "store \<Rightarrow> admission_row list \<Rightarrow> error + (nat \<times> store)" where
  "admission_createMany tx rows =
     (if unique_violation (map a_admission_number (admissions tx)) (map a_admission_number rows)
         \<or> unique_violation (map a_gr_number (admissions tx)) (map a_gr_number rows)
      then Inl (Error 500 (Prisma UniqueConstraintViolation))
      else if \<not> list_all (\<lambda>r. a_student_id r \<in> st_student_id ` set (students tx)) rows
      then Inl (Error 500 (Prisma ForeignKeyViolation))
      else Inr (length rows, tx\<lparr>admissions := admissions tx @ rows\<rparr>))"

text \<open>\<open>_count: {select: {admissions: true}}\<close>: the number of admissions of a class.\<close>

definition admissionCount :: "store \<Rightarrow> id \<Rightarrow> int" where
  "admissionCount s classId = int (length (filter (\<lambda>a. a_class_id a = classId) (admissions s)))"

text \<open>Step C of the transaction: the admissions of the given students in a class of the
  given academic year.\<close>

definition existingAdmissions :: "store \<Rightarrow> id list \<Rightarrow> id \<Rightarrow> admission_row list" where
  "existingAdmissions tx studentIds yearId =
     filter (\<lambda>a. a_student_id a \<in> set studentIds
               \<and> list_ex (\<lambda>c. c_class_id c = a_class_id a \<and> c_academic_year_id c = yearId)
                    (classes tx))
       (admissions tx)"

text \<open>Step D: the rows to insert. \<open>admissionDate\<close> is the value of \<open>new Date()\<close> in
  milliseconds (the DATE column keeps its UTC day), \<open>dateNow index\<close> what \<open>Date.now()\<close>
  returns in the callback for position \<open>index\<close>.\<close>

definition admissionsToCreate ::
  "int \<Rightarrow> (nat \<Rightarrow> nat) \<Rightarrow> id \<Rightarrow> id list \<Rightarrow> admission_row list" where
  "admissionsToCreate admissionDate dateNow classId studentIds =
     map (\<lambda>(index, studentId).
            let timestamp = dateNow index + index
            in \<lparr>a_student_id = studentId,
                a_class_id = classId,
                a_admission_date = admissionDate div 86400000,
                a_admission_number = ''ADM-'' @ digits timestamp,
                a_gr_number = ''GR-'' @ digits timestamp\<rparr>)
       (with_index studentIds)"

definition addStudentsToClass_tx ::
  "int \<Rightarrow> (nat \<Rightarrow> nat) \<Rightarrow> id \<Rightarrow> id list \<Rightarrow> store \<Rightarrow> error + (nat \<times> store)" where
  "addStudentsToClass_tx admissionDate dateNow classId studentIds tx =
     (case find (\<lambda>c. c_class_id c = classId) (classes tx) of
        None \<Rightarrow> Inl (Error 500 (Msg ''Class not found.''))
      | Some classData \<Rightarrow>
          (let currentStudentCount = admissionCount tx classId;
               newStudentsCount = int (length studentIds)
           in if currentStudentCount + newStudentsCount > c_capacity classData
              then Inl (Error 500 (Msg (''Cannot add students. Class capacity of ''
                          @ show_int (c_capacity classData) @ '' would be exceeded.'')))
              else if existingAdmissions tx studentIds (c_academic_year_id classData) \<noteq> []
              then Inl (Error 500 (AlreadyEnrolledThisYear
                          (map a_student_id
                             (existingAdmissions tx studentIds (c_academic_year_id classData)))))
              else admission_createMany tx
                     (admissionsToCreate admissionDate dateNow classId studentIds)))"

text \<open>
  The request carries \<open>classId\<close> (a route parameter) and \<open>studentIds\<close> (\<open>None\<close>: absent
  or not an array). An error of the transaction is caught and thrown again with status
  400. The result is the response (\<open>count\<close>) or the error, and the store after the
  request.
\<close>

definition addStudentsToClass ::
  "store \<Rightarrow> int \<Rightarrow> (nat \<Rightarrow> nat) \<Rightarrow> id \<Rightarrow> id list option \<Rightarrow> (error + nat) \<times> store" where
  "addStudentsToClass s admissionDate dateNow classId studentIdsOpt =
     (case studentIdsOpt of
        None \<Rightarrow> (Inl (Error 400 (Msg ''studentIds must be a non-empty array.'')), s)
      | Some studentIds \<Rightarrow>
          (if studentIds = []
           then (Inl (Error 400 (Msg ''studentIds must be a non-empty array.'')), s)
           else (case transaction s
                        (addStudentsToClass_tx admissionDate dateNow classId studentIds) of
                   (Inl (Error st m), s') \<Rightarrow> (Inl (Error 400 m), s')
                 | (Inr result, s') \<Rightarrow> (Inr result, s'))))"

section \<open>Promotion: promoteStudents\<close>

text \<open>
  \<open>tx.studentCourseEnrollment.createMany({data, skipDuplicates: true})\<close>: the rows get
  generated primary keys. student_course_enrollments has no unique constraint besides
  that primary key, so \<open>skipDuplicates\<close> (ON CONFLICT DO NOTHING) skips nothing. The
  foreign key from student_id to students fails the statement for an unknown student.
\<close>

fun enrollment_rows :: "id \<Rightarrow> (id \<times> id) list \<Rightarrow> enrollment_row list" where
  "enrollment_rows n [] = []"
| "enrollment_rows n ((sid, oid) # ds) =
     \<lparr>e_enrollment_id = n, e_student_id = sid, e_course_offering_id = oid,
      e_status = enrolled\<rparr> # enrollment_rows (Suc n) ds"

definition enrollment_createMany :: "store \<Rightarrow> (id \<times> id) list \<Rightarrow> error + store" where
  "enrollment_createMany tx enrollmentData =
     (if \<not> list_all (\<lambda>(sid, oid). sid \<in> st_student_id ` set (students tx)) enrollmentData
      then Inl (Error 500 (Prisma ForeignKeyViolation))
      else Inr (tx\<lparr>studentCourseEnrollments :=
                     studentCourseEnrollments tx
                       @ enrollment_rows (next_uuid tx) enrollmentData,
                   next_uuid := next_uuid tx + length enrollmentData\<rparr>))"

text \<open>\<open>tx.admission.updateMany\<close>: every admission of a given student gets the target
  class.\<close>

definition admission_updateMany :: "store \<Rightarrow> id list \<Rightarrow> id \<Rightarrow> nat \<times> store" where
  "admission_updateMany tx studentIds targetClassId =
     (length (filter (\<lambda>a. a_student_id a \<in> set studentIds) (admissions tx)),
      tx\<lparr>admissions :=
           map (\<lambda>a. if a_student_id a \<in> set studentIds
                     then a\<lparr>a_class_id := targetClassId\<rparr> else a)
             (admissions tx)\<rparr>)"

text \<open>\<open>tx.studentCourseEnrollment.deleteMany\<close>: the enrollments of the given students
  whose course offering belongs to one of the given classes.\<close>

definition enrollment_deleteMany :: "store \<Rightarrow> id list \<Rightarrow> id list \<Rightarrow> store" where
  "enrollment_deleteMany tx studentIds classIds =
     tx\<lparr>studentCourseEnrollments :=
          filter (\<lambda>e. \<not> (e_student_id e \<in> set studentIds
                          \<and> list_ex (\<lambda>co. co_course_offering_id co = e_course_offering_id e
                                         \<and> co_class_id co \<in> set classIds)
                               (courseOfferings tx)))
            (studentCourseEnrollments tx)\<rparr>"

text \<open>The data of the response: \<open>promotedCount\<close> (the count of \<open>updateMany\<close>),
  \<open>enrolledSubjects\<close> and \<open>totalEnrollments\<close>.\<close>

record promotion_result =
  promotedCount :: nat
  enrolledSubjects :: nat
  totalEnrollments :: nat

definition enrollmentData :: "id list \<Rightarrow> course_offering_row list \<Rightarrow> (id \<times> id) list" where
  "enrollmentData studentIds targetCourseOfferings =
     concat (map (\<lambda>studentId.
                    map (\<lambda>courseOffering. (studentId, co_course_offering_id courseOffering))
                      targetCourseOfferings)
               studentIds)"

definition promoteStudents_tx ::
  "id list \<Rightarrow> id \<Rightarrow> admission_row list \<Rightarrow> course_offering_row list \<Rightarrow> store
     \<Rightarrow> error + (promotion_result \<times> store)" where
  "promoteStudents_tx studentIds targetClassId currentAdmissions targetCourseOfferings tx =
     (let (updatedAdmissions, tx1) = admission_updateMany tx studentIds targetClassId;
          currentClassIds = new_Set (map a_class_id currentAdmissions);
          tx2 = (if currentClassIds \<noteq> []
                 then enrollment_deleteMany tx1 studentIds currentClassIds else tx1);
          result = \<lparr>promotedCount = updatedAdmissions,
                    enrolledSubjects = length targetCourseOfferings,
                    totalEnrollments = length targetCourseOfferings * length studentIds\<rparr>
      in if targetCourseOfferings \<noteq> []
            \<and> enrollmentData studentIds targetCourseOfferings \<noteq> []
         then (case enrollment_createMany tx2
                      (enrollmentData studentIds targetCourseOfferings) of
                 Inl e \<Rightarrow> Inl e
               | Inr tx3 \<Rightarrow> Inr (result, tx3))
         else Inr (result, tx2))"

text \<open>The request body carries \<open>studentIds\<close> (\<open>None\<close>: absent or not an array) and
  \<open>targetClassId\<close> (\<open>None\<close>: absent or not a string).\<close>

definition promoteStudents ::
  "store \<Rightarrow> id list option \<Rightarrow> id option \<Rightarrow> (error + promotion_result) \<times> store" where
  \<open>promoteStudents s studentIdsOpt targetClassIdOpt =
     (case studentIdsOpt of
        None \<Rightarrow> (Inl (Error 400 (Msg ''The "studentIds" field must be a non-empty array.'')), s)
      | Some studentIds \<Rightarrow>
          (if studentIds = []
           then (Inl (Error 400 (Msg ''The "studentIds" field must be a non-empty array.'')), s)
           else (case targetClassIdOpt of
              None \<Rightarrow>
                (Inl (Error 400
                   (Msg ''The "targetClassId" field is required and must be a string.'')), s)
            | Some targetClassId \<Rightarrow>
               (case find (\<lambda>c. c_class_id c = targetClassId) (classes s) of
                  None \<Rightarrow> (Inl (Error 404 (Msg ''Target class not found.'')), s)
                | Some targetClass \<Rightarrow>
                   (let currentStudentCount = admissionCount s targetClassId;
                        incomingStudentCount = int (length studentIds);
                        newTotalStudents = currentStudentCount + incomingStudentCount
                    in if newTotalStudents > c_capacity targetClass
                       then (Inl (Error 400 (Msg (''Class capacity exceeded. Capacity is ''
                                    @ show_int (c_capacity targetClass)
                                    @ '', but this action would result in ''
                                    @ show_int newTotalStudents @ '' students.''))), s)
                       else transaction s
                              (promoteStudents_tx studentIds targetClassId
                                 (filter (\<lambda>a. a_student_id a \<in> set studentIds) (admissions s))
                                 (filter (\<lambda>co. co_class_id co = targetClassId)
                                    (courseOfferings s))))))))\<close>

section \<open>Dates\<close>

text \<open>
  A JavaScript \<open>Date\<close> is its time value: milliseconds since 1970-01-01T00:00:00Z. The
  runtime's parser \<open>new Date(string)\<close> is a parameter \<open>new_Date\<close> of the controllers
  that call it; \<open>None\<close> is the invalid date (\<open>isNaN(d.getTime())\<close>).

  The \<open>date\<close> columns are of type DATE. Prisma writes the UTC calendar day of a \<open>Date\<close>
  into such a column and reads it back as that day's midnight UTC.
\<close>

definition to_DATE :: "int \<Rightarrow> int" where
  "to_DATE ms = ms div 86400000"

definition from_DATE :: "int \<Rightarrow> int" where
  "from_DATE d = d * 86400000"

text \<open>
  The methods \<open>getDate\<close> and \<open>setDate\<close> work on the calendar of the server's time zone.
  The zone is a parameter of the controllers that call them: \<open>LocalTZA t isUTC\<close> is the
  offset of local time from UTC in milliseconds, as ECMAScript defines it, for the UTC
  time value \<open>t\<close> when \<open>isUTC\<close> holds and for the local time value \<open>t\<close> otherwise (for a
  local time that a transition of the zone skips or repeats, the offset before the
  transition).
\<close>

type_synonym timezone = "int \<Rightarrow> bool \<Rightarrow> int"

definition LocalTime :: "timezone \<Rightarrow> int \<Rightarrow> int" where
  "LocalTime LocalTZA t = t + LocalTZA t True"

definition UTC :: "timezone \<Rightarrow> int \<Rightarrow> int" where
  "UTC LocalTZA t = t - LocalTZA t False"

text \<open>
  \<open>dt.setDate(dt.getDate() + 1)\<close>: the local time of \<open>dt\<close> moves to the next day of the
  local calendar at the same time of day (\<open>MakeDate(MakeDay(year, month, date + 1),
  TimeWithinDay)\<close>, the local time value plus the milliseconds of a day), and the result
  is read as a local time.
\<close>

definition setDate_next :: "timezone \<Rightarrow> int \<Rightarrow> int" where
  "setDate_next LocalTZA dt = UTC LocalTZA (LocalTime LocalTZA dt + 86400000)"

text \<open>
  \<open>for (let dt = new Date(start); dt <= end; dt.setDate(dt.getDate() + 1))\<close> collects
  \<open>dt\<close>. Nothing in the loop bounds the number of its steps: \<open>None\<close> is the loop that
  does not end.
\<close>

partial_function (option) dateRange :: "timezone \<Rightarrow> int \<Rightarrow> int \<Rightarrow> int list option" where
  "dateRange LocalTZA dt endDate =
     (if dt \<le> endDate
      then Option.bind (dateRange LocalTZA (setDate_next LocalTZA dt) endDate)
             (\<lambda>dates. Some (dt # dates))
      else Some [])"

text \<open>A value is falsy (\<open>!x\<close>) when it is absent or the empty string.\<close>

definition falsy :: "string option \<Rightarrow> bool" where
  "falsy x \<longleftrightarrow> x = None \<or> x = Some []"

text \<open>The array form \<open>prisma.$transaction([op1, op2, ...])\<close> runs the operations in
  order; the first that fails ends the transaction.\<close>

fun run_all :: "(store \<Rightarrow> error + store) list \<Rightarrow> store \<Rightarrow> error + store" where
  "run_all [] tx = Inr tx"
| "run_all (operation # operations) tx =
     (case operation tx of
        Inl e \<Rightarrow> Inl e
      | Inr tx' \<Rightarrow> run_all operations tx')"

definition transaction_all ::
  "store \<Rightarrow> (store \<Rightarrow> error + store) list \<Rightarrow> (error + nat) \<times> store" where
  "transaction_all s operations =
     transaction s (\<lambda>tx. case run_all operations tx of
                            Inl e \<Rightarrow> Inl e
                          | Inr tx' \<Rightarrow> Inr (length operations, tx'))"

section \<open>Student attendance: upsertStudentAttendance\<close>

text \<open>The values of the enum \<open>attendance_status_enum\<close>, in the order of its declaration.\<close>

definition validStatuses :: "(string \<times> attendance_status_enum) list" where
  "validStatuses =
     [(''present'', present), (''absent'', absent), (''late'', late),
      (''half_day'', half_day), (''on_leave'', on_leave)]"

text \<open>\<open>xs.join(', ')\<close>\<close>

fun join :: "string list \<Rightarrow> string" where
  "join [] = []"
| "join [x] = x"
| "join (x # y # ys) = x @ '', '' @ join (y # ys)"

text \<open>
  \<open>prisma.studentAttendance.upsert\<close> on the unique key (student_id, date): the row of
  the key is updated, or a row is created with a generated attendance_id. The foreign
  keys of a created row (student_id to students, class_id to classes) must resolve.
\<close>

definition studentAttendance_upsert ::
  "id \<Rightarrow> int \<Rightarrow> (student_attendance_row \<Rightarrow> student_attendance_row)
     \<Rightarrow> (id \<Rightarrow> student_attendance_row) \<Rightarrow> store \<Rightarrow> error + store" where
  "studentAttendance_upsert studentId d update create tx =
     (if list_ex (\<lambda>r. sa_student_id r = studentId \<and> sa_date r = d) (studentAttendance tx)
      then Inr (tx\<lparr>studentAttendance :=
                     map (\<lambda>r. if sa_student_id r = studentId \<and> sa_date r = d
                               then update r else r)
                       (studentAttendance tx)\<rparr>)
      else if \<not> (sa_student_id (create (next_uuid tx)) \<in> st_student_id ` set (students tx)
                \<and> sa_class_id (create (next_uuid tx)) \<in> c_class_id ` set (classes tx))
      then Inl (Error 500 (Prisma ForeignKeyViolation))
      else Inr (tx\<lparr>studentAttendance := studentAttendance tx @ [create (next_uuid tx)],
                   next_uuid := Suc (next_uuid tx)\<rparr>))"

text \<open>An element of \<open>attendanceData\<close>; a field is \<open>None\<close> when it is absent.\<close>

record attendance_record =
  r_studentId :: "id option"
  r_status :: "string option"
  r_remarks :: "string option"

text \<open>\<open>record.remarks || null\<close>\<close>

definition remarks_or_null :: "string option \<Rightarrow> string option" where
  "remarks_or_null r = (if falsy r then None else r)"

text \<open>The callback of \<open>attendanceData.map\<close>: it validates the record and builds the
  upsert, which runs only in the transaction.\<close>

definition upsert_of_record ::
  "id \<Rightarrow> int \<Rightarrow> attendance_record \<Rightarrow> error + (store \<Rightarrow> error + store)" where
  \<open>upsert_of_record classId attendanceDate record =
     (case (r_studentId record, r_status record) of
        (Some sid, Some st) \<Rightarrow>
          (if st = [] then
             Inl (Error 500
               (Msg ''Each object in attendanceData must contain "studentId" and "status".''))
           else (case map_of validStatuses st of
              None \<Rightarrow>
                Inl (Error 500 (Msg (''Invalid attendance status: '' @ [CHR 0x27] @ st
                       @ [CHR 0x27] @ ''. Valid statuses are: ''
                       @ join (map fst validStatuses) @ ''.'')))
            | Some stat \<Rightarrow>
                Inr (studentAttendance_upsert sid (to_DATE attendanceDate)
                       (\<lambda>r. r\<lparr>sa_status := stat, sa_remarks := remarks_or_null (r_remarks record)\<rparr>)
                       (\<lambda>n. \<lparr>sa_attendance_id = n, sa_student_id = sid,
                             sa_class_id = classId, sa_date = to_DATE attendanceDate,
                             sa_status = stat,
                             sa_remarks = remarks_or_null (r_remarks record)\<rparr>))))
      | _ \<Rightarrow>
          Inl (Error 500
            (Msg ''Each object in attendanceData must contain "studentId" and "status".'')))\<close>

text \<open>\<open>xs.map(f)\<close> where \<open>f\<close> may throw: the first error ends the map.\<close>

fun map_throwing :: "('a \<Rightarrow> error + 'b) \<Rightarrow> 'a list \<Rightarrow> error + 'b list" where
  "map_throwing f [] = Inr []"
| "map_throwing f (x # xs) =
     (case f x of
        Inl e \<Rightarrow> Inl e
      | Inr y \<Rightarrow> (case map_throwing f xs of
                    Inl e \<Rightarrow> Inl e
                  | Inr ys \<Rightarrow> Inr (y # ys)))"

text \<open>\<open>prisma.class.findFirst\<close> for a standard and a section in the active academic
  year.\<close>

definition activeClass :: "store \<Rightarrow> string \<Rightarrow> string \<Rightarrow> class_row option" where
  "activeClass s standard sectionName =
     find (\<lambda>c. c_standard c = standard \<and> c_section c = sectionName
              \<and> list_ex (\<lambda>y. ay_academic_year_id y = c_academic_year_id c \<and> ay_is_active y)
                   (academicYears s))
       (classes s)"

text \<open>The request body carries \<open>standard\<close>, \<open>section\<close>, \<open>date\<close> and \<open>attendanceData\<close>
  (\<open>None\<close>: absent). The response carries the number of upserts.\<close>

definition upsertStudentAttendance ::
  "(string \<Rightarrow> int option) \<Rightarrow> store \<Rightarrow> string option \<Rightarrow> string option \<Rightarrow> string option
     \<Rightarrow> attendance_record list option \<Rightarrow> (error + nat) \<times> store" where
  \<open>upsertStudentAttendance new_Date s standard sectionName date attendanceData =
     (if falsy standard \<or> falsy sectionName \<or> falsy date \<or> attendanceData = None
      then (Inl (Error 400 (Msg
              ''Standard, section, date, and attendanceData are required in the request body.'')), s)
      else if the attendanceData = []
      then (Inl (Error 400 (Msg ''attendanceData must be a non-empty array.'')), s)
      else (case activeClass s (the standard) (the sectionName) of
         None \<Rightarrow>
           (Inl (Error 404 (Msg (''Class with standard '' @ the standard @ '' and section ''
                   @ the sectionName @ '' not found in the active academic year.''))), s)
       | Some cls \<Rightarrow>
           (case new_Date (the date @ ''T00:00:00.000Z'') of
              None \<Rightarrow>
                (Inl (Error 400 (Msg ''Invalid date format. Please use YYYY-MM-DD.'')), s)
            | Some attendanceDate \<Rightarrow>
                (case map_throwing (upsert_of_record (c_class_id cls) attendanceDate)
                        (the attendanceData) of
                   Inl e \<Rightarrow> (Inl e, s)
                 | Inr upsertPromises \<Rightarrow> transaction_all s upsertPromises))))\<close>

section \<open>Employee attendance: markSingleAttendance and markBulkAttendance\<close>

text \<open>
  \<open>prisma.employeeAttendance.upsert\<close> on the unique key (employee_id, date); the
  foreign key of a created row (employee_id to employees) must resolve.
\<close>

definition employeeAttendance_upsert ::
  "id \<Rightarrow> int \<Rightarrow> (employee_attendance_row \<Rightarrow> employee_attendance_row)
     \<Rightarrow> (id \<Rightarrow> employee_attendance_row) \<Rightarrow> store \<Rightarrow> error + store" where
  "employeeAttendance_upsert employeeId d update create tx =
     (if list_ex (\<lambda>r. ea_employee_id r = employeeId \<and> ea_date r = d) (employeeAttendance tx)
      then Inr (tx\<lparr>employeeAttendance :=
                     map (\<lambda>r. if ea_employee_id r = employeeId \<and> ea_date r = d
                               then update r else r)
                       (employeeAttendance tx)\<rparr>)
      else if ea_employee_id (create (next_uuid tx)) \<notin> set (employees tx)
      then Inl (Error 500 (Prisma ForeignKeyViolation))
      else Inr (tx\<lparr>employeeAttendance := employeeAttendance tx @ [create (next_uuid tx)],
                   next_uuid := Suc (next_uuid tx)\<rparr>))"

text \<open>
  The object \<open>attendanceData\<close> of both controllers, as the \<open>update\<close> and as the \<open>create\<close>
  argument of the upsert. \<open>remarks: reason\<close> with \<open>reason\<close> absent (\<open>None\<close>) leaves the
  column as it is in an update and NULL in a created row.
\<close>

definition attendanceData_update ::
  "id \<Rightarrow> int \<Rightarrow> attendance_status_enum \<Rightarrow> int option \<Rightarrow> int option \<Rightarrow> string option
     \<Rightarrow> attendance_source_enum \<Rightarrow> employee_attendance_row \<Rightarrow> employee_attendance_row" where
  "attendanceData_update employeeId date stat checkIn checkOut reason src r =
     r\<lparr>ea_employee_id := employeeId, ea_date := to_DATE date, ea_status := stat,
       ea_check_in_time := checkIn, ea_check_out_time := checkOut,
       ea_remarks := (case reason of None \<Rightarrow> ea_remarks r | Some x \<Rightarrow> Some x),
       ea_source := src\<rparr>"

definition attendanceData_create ::
  "id \<Rightarrow> int \<Rightarrow> attendance_status_enum \<Rightarrow> int option \<Rightarrow> int option \<Rightarrow> string option
     \<Rightarrow> attendance_source_enum \<Rightarrow> id \<Rightarrow> employee_attendance_row" where
  "attendanceData_create employeeId date stat checkIn checkOut reason src n =
     \<lparr>ea_attendance_id = n, ea_employee_id = employeeId, ea_date = to_DATE date,
      ea_status = stat, ea_check_in_time = checkIn, ea_check_out_time = checkOut,
      ea_source = src, ea_remarks = reason\<rparr>"

text \<open>\<open>x ? new Date(x) : null\<close> for a time of the request: \<open>None\<close> when the parser
  rejects the string, else the value of the column.\<close>

definition time_or_null :: "(string \<Rightarrow> int option) \<Rightarrow> string option \<Rightarrow> int option option" where
  "time_or_null new_Date x =
     (if falsy x then Some None
      else (case new_Date (the x) of None \<Rightarrow> None | Some t \<Rightarrow> Some (Some t)))"

text \<open>The body carries \<open>employeeId\<close> (\<open>None\<close>: absent or not a UUID), \<open>date\<close>,
  \<open>status\<close>, \<open>checkIn\<close>, \<open>checkOut\<close> and \<open>reason\<close>. The response carries the row's
  key.\<close>

definition markSingleAttendance ::
  "(string \<Rightarrow> int option) \<Rightarrow> store \<Rightarrow> id option \<Rightarrow> string option \<Rightarrow> string option
     \<Rightarrow> string option \<Rightarrow> string option \<Rightarrow> string option \<Rightarrow> (error + (id \<times> int)) \<times> store" where
  "markSingleAttendance new_Date s employeeId date stat checkIn checkOut reason =
     (if employeeId = None
      then (Inl (Error 400 (Msg ''Valid employee ID is required.'')), s)
      else if falsy date \<or> new_Date (the date) = None
      then (Inl (Error 400 (Msg ''Valid date is required.'')), s)
      else if falsy stat \<or> map_of validStatuses (the stat) = None
      then (Inl (Error 400 (Msg ''Invalid status.'')), s)
      else if time_or_null new_Date checkIn = None
      then (Inl (Error 400 (Msg ''Invalid check-in time format.'')), s)
      else if time_or_null new_Date checkOut = None
      then (Inl (Error 400 (Msg ''Invalid check-out time format.'')), s)
      else
        (let d = the (new_Date (the date));
             st = the (map_of validStatuses (the stat));
             ci = the (time_or_null new_Date checkIn);
             co = the (time_or_null new_Date checkOut)
         in case employeeAttendance_upsert (the employeeId) (to_DATE d)
                   (attendanceData_update (the employeeId) d st ci co reason manual)
                   (attendanceData_create (the employeeId) d st ci co reason manual) s of
              Inl e \<Rightarrow> (Inl e, s)
            | Inr s' \<Rightarrow> (Inr (the employeeId, to_DATE d), s')))"

text \<open>One upsert of the bulk request. A check-in or check-out time the parser rejects
  fails the operation when it runs.\<close>

definition bulk_upsert ::
  "(string \<Rightarrow> int option) \<Rightarrow> attendance_status_enum \<Rightarrow> string option \<Rightarrow> string option
     \<Rightarrow> string option \<Rightarrow> int \<Rightarrow> id \<Rightarrow> store \<Rightarrow> error + store" where
  "bulk_upsert new_Date stat checkIn checkOut reason date employeeId tx =
     (case (time_or_null new_Date checkIn, time_or_null new_Date checkOut) of
        (Some ci, Some co) \<Rightarrow>
          employeeAttendance_upsert employeeId (to_DATE date)
            (attendanceData_update employeeId date stat ci co reason manual_bulk)
            (attendanceData_create employeeId date stat ci co reason manual_bulk) tx
      | _ \<Rightarrow> Inl (Error 500 (Prisma ValidationFailed)))"

text \<open>\<open>upsertOperations\<close>: for every date of the range, for every employee.\<close>

definition upsertOperations ::
  "(string \<Rightarrow> int option) \<Rightarrow> attendance_status_enum \<Rightarrow> string option \<Rightarrow> string option
     \<Rightarrow> string option \<Rightarrow> int list \<Rightarrow> id list \<Rightarrow> (store \<Rightarrow> error + store) list" where
  "upsertOperations new_Date stat checkIn checkOut reason dates employeeIds =
     concat (map (\<lambda>date. map (\<lambda>employeeId.
                                 bulk_upsert new_Date stat checkIn checkOut reason date employeeId)
                           employeeIds)
               dates)"

text \<open>The body carries \<open>employeeIds\<close> (\<open>None\<close>: absent, not an array, or with an
  element that is not a UUID), \<open>startDate\<close>, \<open>endDate\<close>, \<open>status\<close>, \<open>checkIn\<close>,
  \<open>checkOut\<close> and \<open>reason\<close>. The response carries the number of upserts. The request
  has no response (\<open>None\<close>) when the loop over the dates does not end.\<close>

definition markBulkAttendance ::
  "timezone \<Rightarrow> (string \<Rightarrow> int option) \<Rightarrow> store \<Rightarrow> id list option \<Rightarrow> string option
     \<Rightarrow> string option \<Rightarrow> string option \<Rightarrow> string option \<Rightarrow> string option \<Rightarrow> string option
     \<Rightarrow> ((error + nat) \<times> store) option" where
  "markBulkAttendance LocalTZA new_Date s employeeIds startDate endDate stat checkIn checkOut
       reason =
     (if employeeIds = None \<or> employeeIds = Some []
      then Some (Inl (Error 400 (Msg ''A valid array of employee IDs is required.'')), s)
      else if falsy startDate \<or> new_Date (the startDate) = None
      then Some (Inl (Error 400 (Msg ''Valid start date is required.'')), s)
      else if falsy endDate \<or> new_Date (the endDate) = None
      then Some (Inl (Error 400 (Msg ''Valid end date is required.'')), s)
      else if falsy stat \<or> map_of validStatuses (the stat) = None
      then Some (Inl (Error 400 (Msg ''Invalid status value.'')), s)
      else
        (case dateRange LocalTZA (the (new_Date (the startDate)))
                (the (new_Date (the endDate))) of
           None \<Rightarrow> None
         | Some dates \<Rightarrow>
             Some (if dates = [] \<or> the employeeIds = []
                   then (Inl (Error 400 (Msg ''Date range or employee selection is invalid.'')),
                         s)
                   else (case transaction_all s
                                (upsertOperations new_Date
                                   (the (map_of validStatuses (the stat)))
                                   checkIn checkOut reason dates (the employeeIds)) of
                           (Inl e, s') \<Rightarrow>
                             (Inl (Error 500
                                (Msg ''Failed to mark bulk attendance. Please try again.'')), s')
                         | (Inr n, s') \<Rightarrow> (Inr n, s')))))"

section \<open>Employee leave: createLeaveRequest and updateLeaveStatus\<close>

text \<open>The values of the enum \<open>leave_type_enum\<close>.\<close>

definition leave_types :: "string list" where
  "leave_types = [''sick'', ''casual'', ''annual'', ''other'']"

text \<open>
  The transaction of \<open>createLeaveRequest\<close>: the leave row, then its first history row.
  Prisma refuses an invalid date and a leave type outside the enum; the foreign key
  from employee_id to employees must resolve.
\<close>

definition createLeaveRequest_tx ::
  "(string \<Rightarrow> int option) \<Rightarrow> id \<Rightarrow> string \<Rightarrow> string \<Rightarrow> string \<Rightarrow> string \<Rightarrow> store
     \<Rightarrow> error + (employee_leave_row \<times> store)" where
  "createLeaveRequest_tx new_Date employeeId leaveType startDate endDate reason tx =
     (case (new_Date startDate, new_Date endDate) of
        (Some sd, Some ed) \<Rightarrow>
          (if leaveType \<notin> set leave_types then Inl (Error 500 (Prisma ValidationFailed))
           else if employeeId \<notin> set (employees tx)
           then Inl (Error 500 (Prisma ForeignKeyViolation))
           else
             (let leave = \<lparr>el_leave_id = next_uuid tx, el_employee_id = employeeId,
                           el_leave_type = leaveType, el_start_date = to_DATE sd,
                           el_end_date = to_DATE ed, el_reason = reason,
                           el_status = pending\<rparr>;
                  tx1 = tx\<lparr>employeeLeaves := employeeLeaves tx @ [leave],
                           next_uuid := Suc (next_uuid tx)\<rparr>;
                  tx2 = tx1\<lparr>leaveStatusHistory :=
                              leaveStatusHistory tx1
                                @ [\<lparr>h_history_id = next_uuid tx1,
                                    h_leave_id = el_leave_id leave, h_status = pending,
                                    h_comment = Some ''Leave request created.''\<rparr>],
                            next_uuid := Suc (next_uuid tx1)\<rparr>
              in Inr (leave, tx2)))
      | _ \<Rightarrow> Inl (Error 500 (Prisma ValidationFailed)))"

definition createLeaveRequest ::
  "(string \<Rightarrow> int option) \<Rightarrow> store \<Rightarrow> id option \<Rightarrow> string option \<Rightarrow> string option
     \<Rightarrow> string option \<Rightarrow> string option \<Rightarrow> (error + employee_leave_row) \<times> store" where
  "createLeaveRequest new_Date s employeeId leaveType startDate endDate reason =
     (if employeeId = None \<or> falsy leaveType \<or> falsy startDate \<or> falsy endDate \<or> falsy reason
      then (Inl (Error 400 (Msg (''Please provide all required fields: employeeId, ''
                   @ ''leaveType, startDate, endDate, reason''))), s)
      else transaction s
             (createLeaveRequest_tx new_Date (the employeeId) (the leaveType) (the startDate)
                (the endDate) (the reason)))"


text \<open>The statuses \<open>updateLeaveStatus\<close> accepts.\<close>

definition leave_statuses :: "(string \<times> leave_status_enum) list" where
  "leave_statuses = [(''approved'', approved), (''rejected'', rejected), (''pending'', pending)]"

text \<open>The upsert of one day of an approved leave.\<close>

definition leave_day_upsert :: "employee_leave_row \<Rightarrow> int \<Rightarrow> store \<Rightarrow> error + store" where
  "leave_day_upsert leave date =
     employeeAttendance_upsert (el_employee_id leave) (to_DATE date)
       (\<lambda>r. r\<lparr>ea_status := on_leave, ea_source := manual,
               ea_remarks := Some (''Approved Leave: '' @ el_reason leave)\<rparr>)
       (\<lambda>n. \<lparr>ea_attendance_id = n, ea_employee_id = el_employee_id leave,
              ea_date = to_DATE date, ea_status = on_leave, ea_check_in_time = None,
              ea_check_out_time = None, ea_source = manual,
              ea_remarks = Some (''Approved Leave: '' @ el_reason leave)\<rparr>)"

text \<open>
  The transaction of \<open>updateLeaveStatus\<close>: the status of the leave, a history row, and
  for an approval the attendance of every date that the loop from the start date to the
  end date of the leave collects. The body does not return (\<open>None\<close>) when that loop
  does not end.
\<close>

definition updateLeaveStatus_tx ::
  "timezone \<Rightarrow> id \<Rightarrow> leave_status_enum \<Rightarrow> string option \<Rightarrow> store
     \<Rightarrow> (error + (employee_leave_row \<times> store)) option" where
  "updateLeaveStatus_tx LocalTZA leaveId stat reason tx =
     (case find (\<lambda>l. el_leave_id l = leaveId) (employeeLeaves tx) of
        None \<Rightarrow> Some (Inl (Error 500 (Prisma RecordNotFound)))
      | Some old \<Rightarrow>
          (let leave = old\<lparr>el_status := stat\<rparr>;
               tx1 = tx\<lparr>employeeLeaves :=
                        map (\<lambda>l. if el_leave_id l = leaveId then l\<lparr>el_status := stat\<rparr> else l)
                          (employeeLeaves tx)\<rparr>;
               tx2 = tx1\<lparr>leaveStatusHistory :=
                           leaveStatusHistory tx1
                             @ [\<lparr>h_history_id = next_uuid tx1, h_leave_id = leaveId,
                                 h_status = stat, h_comment = reason\<rparr>],
                         next_uuid := Suc (next_uuid tx1)\<rparr>
           in if stat = approved
              then (case dateRange LocalTZA (from_DATE (el_start_date leave))
                           (from_DATE (el_end_date leave)) of
                      None \<Rightarrow> None
                    | Some dates \<Rightarrow>
                        Some (case run_all (map (leave_day_upsert leave) dates) tx2 of
                                Inl e \<Rightarrow> Inl e
                              | Inr tx3 \<Rightarrow> Inr (leave, tx3)))
              else Some (Inr (leave, tx2))))"

text \<open>The request carries \<open>leaveId\<close> (a route parameter), \<open>status\<close> and \<open>reason\<close>.\<close>

definition updateLeaveStatus ::
  "timezone \<Rightarrow> store \<Rightarrow> id \<Rightarrow> string option \<Rightarrow> string option
     \<Rightarrow> ((error + employee_leave_row) \<times> store) option" where
  "updateLeaveStatus LocalTZA s leaveId stat reason =
     (if falsy stat \<or> map_of leave_statuses (the stat) = None
      then Some (Inl (Error 400 (Msg
              ''Invalid status provided. Must be one of: pending, approved, rejected.'')), s)
      else (case find (\<lambda>l. el_leave_id l = leaveId) (employeeLeaves s) of
              None \<Rightarrow> Some (Inl (Error 404 (Msg ''Leave request not found.'')), s)
            | Some leaveToUpdate \<Rightarrow>
                transaction_partial s
                  (updateLeaveStatus_tx LocalTZA leaveId
                     (the (map_of leave_statuses (the stat))) reason)))"

section \<open>Student leave: createLeave and cancelLeave\<close>

text \<open>\<open>prisma.student.findUnique({where: {user_id}})\<close>\<close>

definition student_of_user :: "store \<Rightarrow> id \<Rightarrow> student_row option" where
  "student_of_user s userId = find (\<lambda>st. st_user_id st = Some userId) (students s)"

text \<open>\<open>prisma.admission.findFirst\<close> of a student, ordered by admission_date descending:
  the first row of the latest date.\<close>

definition latest_admission :: "store \<Rightarrow> id \<Rightarrow> admission_row option" where
  "latest_admission s sid =
     (case filter (\<lambda>a. a_student_id a = sid) (admissions s) of
        [] \<Rightarrow> None
      | a # as \<Rightarrow>
          Some (fold (\<lambda>b best. if a_admission_date b > a_admission_date best then b else best)
                  as a))"

text \<open>The upsert of one day of a student's leave.\<close>

definition student_leave_upsert :: "id \<Rightarrow> id \<Rightarrow> string \<Rightarrow> int \<Rightarrow> store \<Rightarrow> error + store" where
  "student_leave_upsert sid classId reason currentDate =
     studentAttendance_upsert sid (to_DATE currentDate)
       (\<lambda>r. r\<lparr>sa_status := on_leave, sa_remarks := Some reason\<rparr>)
       (\<lambda>n. \<lparr>sa_attendance_id = n, sa_student_id = sid, sa_class_id = classId,
              sa_date = to_DATE currentDate, sa_status = on_leave,
              sa_remarks = Some reason\<rparr>)"

text \<open>\<open>userId\<close> is the user of the session (\<open>req.user.userId\<close>); the body carries
  \<open>fromDate\<close>, \<open>toDate\<close> and \<open>reason\<close>. The request has no response (\<open>None\<close>) when the
  loop over the days does not end.\<close>

definition createLeave ::
  "timezone \<Rightarrow> (string \<Rightarrow> int option) \<Rightarrow> store \<Rightarrow> id \<Rightarrow> string option \<Rightarrow> string option
     \<Rightarrow> string option \<Rightarrow> ((error + unit) \<times> store) option" where
  "createLeave LocalTZA new_Date s userId fromDate toDate reason =
     (if falsy fromDate \<or> falsy toDate \<or> falsy reason
      then Some (Inl (Error 400 (Msg ''Please provide fromDate, toDate, and a reason.'')), s)
      else (case (new_Date (the fromDate), new_Date (the toDate)) of
         (Some startDate, Some endDate) \<Rightarrow>
           (if startDate > endDate
            then Some (Inl (Error 400 (Msg ''The start date cannot be after the end date.'')), s)
            else (case student_of_user s userId of
               None \<Rightarrow> Some (Inl (Error 404 (Msg ''Student profile not found.'')), s)
             | Some student \<Rightarrow>
                 (case latest_admission s (st_student_id student) of
                    None \<Rightarrow>
                      Some (Inl (Error 404
                         (Msg (''Could not find student'' @ [CHR 0x27]
                                 @ ''s class enrollment.''))), s)
                  | Some admission \<Rightarrow>
                      (case dateRange LocalTZA startDate endDate of
                         None \<Rightarrow> None
                       | Some dates \<Rightarrow>
                           Some (case transaction_all s
                                        (map (student_leave_upsert (st_student_id student)
                                                (a_class_id admission) (the reason))
                                           dates) of
                                   (Inl e, s') \<Rightarrow>
                                     (Inl (Error 500
                                        (Msg ''Could not process leave request.'')), s')
                                 | (Inr n, s') \<Rightarrow> (Inr (), s'))))))
       | _ \<Rightarrow> Some (Inl (Error 400 (Msg ''Invalid date format.'')), s)))"

text \<open>
  \<open>today.setHours(0, 0, 0, 0)\<close> sets a \<open>Date\<close> to the midnight of its day in the
  server's local zone, \<open>tz\<close> minutes east of UTC.
\<close>

definition setHours_0 :: "int \<Rightarrow> int \<Rightarrow> int" where
  "setHours_0 tz t = ((t + tz * 60000) div 86400000) * 86400000 - tz * 60000"

text \<open>
  The loop over \<open>allLeaveDaysForReason\<close> that collects \<open>leavePeriodIds\<close>: from the row
  of the given id on, every row is taken, and the loop ends after a row whose successor
  is not dated one day later.
\<close>

fun leavePeriodIds :: "id \<Rightarrow> bool \<Rightarrow> student_attendance_row list \<Rightarrow> id list" where
  "leavePeriodIds i foundPeriod [] = []"
| "leavePeriodIds i foundPeriod (day # rest) =
     (if foundPeriod \<or> sa_attendance_id day = i
      then sa_attendance_id day
             # (case rest of
                  [] \<Rightarrow> []
                | nextDay # _ \<Rightarrow>
                    if from_DATE (sa_date nextDay) \<noteq> from_DATE (sa_date day) + 86400000
                    then []
                    else leavePeriodIds i True rest)
      else leavePeriodIds i False rest)"

text \<open>\<open>allLeaveDaysForReason\<close>: the student's rows on leave with the given remark from
  the given date on, by ascending date.\<close>

definition allLeaveDaysForReason ::
  "store \<Rightarrow> id \<Rightarrow> string option \<Rightarrow> int \<Rightarrow> student_attendance_row list" where
  "allLeaveDaysForReason s sid leaveReason leaveStartDate =
     sort_key sa_date
       (filter (\<lambda>r. sa_student_id r = sid \<and> sa_status r = on_leave
                   \<and> sa_remarks r = leaveReason \<and> from_DATE (sa_date r) \<ge> leaveStartDate)
          (studentAttendance s))"

text \<open>\<open>now\<close> is the value of \<open>new Date()\<close>, \<open>tz\<close> the offset of the server's zone in
  minutes, \<open>userId\<close> the user of the session and \<open>i\<close> the route parameter \<open>id\<close>: the
  attendance_id of the first day of the leave.\<close>

definition cancelLeave :: "int \<Rightarrow> int \<Rightarrow> store \<Rightarrow> id \<Rightarrow> id \<Rightarrow> (error + unit) \<times> store" where
  "cancelLeave tz now s userId i =
     (case student_of_user s userId of
        None \<Rightarrow> (Inl (Error 404 (Msg ''Student profile not found.'')), s)
      | Some student \<Rightarrow>
          (case find (\<lambda>r. sa_attendance_id r = i) (studentAttendance s) of
             None \<Rightarrow> (Inl (Error 404 (Msg ''Leave record not found.'')), s)
           | Some initialLeaveDay \<Rightarrow>
               (if sa_student_id initialLeaveDay \<noteq> st_student_id student
                then (Inl (Error 403
                        (Msg ''You are not authorized to cancel this leave request.'')), s)
                else if sa_status initialLeaveDay \<noteq> on_leave
                then (Inl (Error 400
                        (Msg ''This record is not a leave record and cannot be cancelled.'')), s)
                else
                  (let today = setHours_0 tz now;
                       leaveStartDate = from_DATE (sa_date initialLeaveDay)
                   in if leaveStartDate \<le> today
                      then (Inl (Error 400
                              (Msg ''Past or ongoing leave requests cannot be cancelled.'')), s)
                      else
                        (let ids = leavePeriodIds i False
                                     (allLeaveDaysForReason s (st_student_id student)
                                        (sa_remarks initialLeaveDay) leaveStartDate)
                         in if ids = []
                            then (Inl (Error 404
                                    (Msg ''Could not identify the full leave period to cancel.'')),
                                  s)
                            else (Inr (),
                                  s\<lparr>studentAttendance :=
                                      map (\<lambda>r. if sa_attendance_id r \<in> set ids
                                                then r\<lparr>sa_status := absent,
                                                       sa_remarks :=
                                                         Some ''Leave Cancelled by Student''\<rparr>
                                                else r)
                                        (studentAttendance s)\<rparr>))))))"

section \<open>Subject synchronization: editSubject\<close>



text \<open>Step 5a: the classes of the standard and the sections in the active year.\<close>

definition targetClasses :: "store \<Rightarrow> string \<Rightarrow> string list \<Rightarrow> id \<Rightarrow> class_row list" where
  "targetClasses tx standard sections yearId =
     filter (\<lambda>c. c_standard c = standard \<and> c_section c \<in> set sections
               \<and> c_academic_year_id c = yearId)
       (classes tx)"

text \<open>Step 5b: the course offerings of the subject.\<close>

definition existingOfferings :: "store \<Rightarrow> id \<Rightarrow> course_offering_row list" where
  "existingOfferings tx subjectId = filter (\<lambda>co. co_subject_id co = subjectId) (courseOfferings tx)"

text \<open>Step 5c: the offerings to remove, and the count of their enrollments.\<close>

definition offeringsToDelete :: "store \<Rightarrow> id \<Rightarrow> id list \<Rightarrow> course_offering_row list" where
  "offeringsToDelete tx subjectId targetClassIds =
     filter (\<lambda>co. co_class_id co \<notin> set targetClassIds) (existingOfferings tx subjectId)"

definition enrollmentsCount :: "store \<Rightarrow> id list \<Rightarrow> nat" where
  "enrollmentsCount tx offeringIds =
     length (filter (\<lambda>e. e_course_offering_id e \<in> set offeringIds) (studentCourseEnrollments tx))"








section \<open>Views of the store used in the statements\<close>

text \<open>The classes in which one of the given students holds an admission: the
  \<open>currentClassIds\<close> of a promotion, as a set.\<close>

definition priorClasses :: "store \<Rightarrow> id list \<Rightarrow> id set" where
  "priorClasses s studentIds =
     set (map a_class_id (filter (\<lambda>a. a_student_id a \<in> set studentIds) (admissions s)))"

text \<open>The offerings of those enrollments of a student that belong to no offering of a
  prior class of the promoted students.\<close>

definition keptOfferings :: "store \<Rightarrow> id list \<Rightarrow> id \<Rightarrow> id list" where
  "keptOfferings s studentIds sid =
     map e_course_offering_id
       (filter (\<lambda>e. e_student_id e = sid
                  \<and> \<not> list_ex (\<lambda>co. co_course_offering_id co = e_course_offering_id e
                                    \<and> co_class_id co \<in> priorClasses s studentIds)
                         (courseOfferings s))
          (studentCourseEnrollments s))"

text \<open>The offerings a student is enrolled in, and the offerings of a class.\<close>

definition enrolledOfferings :: "store \<Rightarrow> id \<Rightarrow> id list" where
  "enrolledOfferings s sid =
     map e_course_offering_id (filter (\<lambda>e. e_student_id e = sid) (studentCourseEnrollments s))"

definition offeringsOfClass :: "store \<Rightarrow> id \<Rightarrow> id list" where
  "offeringsOfClass s classId =
     map co_course_offering_id (filter (\<lambda>co. co_class_id co = classId) (courseOfferings s))"

text \<open>The classes of a student's admissions.\<close>

definition classesOfStudent :: "store \<Rightarrow> id \<Rightarrow> id list" where
  "classesOfStudent s sid = map a_class_id (filter (\<lambda>a. a_student_id a = sid) (admissions s))"

section \<open>Example stores\<close>

text \<open>The stores and the runtime values at which the theorems below evaluate the
  controllers.\<close>

definition empty_store :: store where
  "empty_store =
     \<lparr>classes = [], admissions = [], courseOfferings = [], studentCourseEnrollments = [],
      subjects = [], academicYears = [], students = [], employees = [],
      studentAttendance = [], employeeAttendance = [], employeeLeaves = [],
      leaveStatusHistory = [], next_uuid = 100\<rparr>"

text \<open>Student 7 holds an admission in class 1 (academic year 1) and one in class 2
  (academic year 2); class 3 of year 2 has capacity 1 and no admission.\<close>

definition store_two_years :: store where
  "store_two_years = empty_store
     \<lparr>classes :=
        [\<lparr>c_class_id = 1, c_academic_year_id = 1, c_standard = ''9'', c_section = ''A'',
          c_capacity = 30\<rparr>,
         \<lparr>c_class_id = 2, c_academic_year_id = 2, c_standard = ''10'', c_section = ''A'',
          c_capacity = 30\<rparr>,
         \<lparr>c_class_id = 3, c_academic_year_id = 2, c_standard = ''10'', c_section = ''B'',
          c_capacity = 1\<rparr>],
      admissions :=
        [\<lparr>a_student_id = 7, a_class_id = 1, a_admission_date = 19000,
          a_admission_number = ''ADM-1'', a_gr_number = ''GR-1''\<rparr>,
         \<lparr>a_student_id = 7, a_class_id = 2, a_admission_date = 19400,
          a_admission_number = ''ADM-2'', a_gr_number = ''GR-2''\<rparr>],
      students := [\<lparr>st_student_id = 7, st_user_id = Some 70\<rparr>]\<rparr>"

text \<open>One class of capacity 30 without admissions, and student 7.\<close>

definition store_one_class :: store where
  "store_one_class = empty_store
     \<lparr>classes :=
        [\<lparr>c_class_id = 1, c_academic_year_id = 1, c_standard = ''9'', c_section = ''A'',
          c_capacity = 30\<rparr>],
      students := [\<lparr>st_student_id = 7, st_user_id = Some 70\<rparr>]\<rparr>"

text \<open>A clock that reads 2025-06-21T19:30:00Z at every call of \<open>Date.now()\<close>.\<close>

definition frozen_clock :: "nat \<Rightarrow> nat" where
  "frozen_clock index = 1750534200000"

text \<open>
  Student 7 is admitted to class 1 and enrolled in its offering 6; the student also
  holds an enrollment in offering 9 of class 4, where the student has no admission (an
  admission removed by \<open>deleteStudentFromClass\<close> leaves its enrollments behind). Class 2
  is the target of the promotion, with offering 5.
\<close>

definition store_stale_enrollment :: store where
  "store_stale_enrollment = empty_store
     \<lparr>classes :=
        [\<lparr>c_class_id = 1, c_academic_year_id = 1, c_standard = ''9'', c_section = ''A'',
          c_capacity = 30\<rparr>,
         \<lparr>c_class_id = 4, c_academic_year_id = 1, c_standard = ''9'', c_section = ''B'',
          c_capacity = 30\<rparr>,
         \<lparr>c_class_id = 2, c_academic_year_id = 2, c_standard = ''10'', c_section = ''A'',
          c_capacity = 30\<rparr>],
      admissions :=
        [\<lparr>a_student_id = 7, a_class_id = 1, a_admission_date = 19000,
          a_admission_number = ''ADM-1'', a_gr_number = ''GR-1''\<rparr>],
      courseOfferings :=
        [\<lparr>co_course_offering_id = 5, co_class_id = 2, co_subject_id = 50,
          co_teacher_id = None, co_is_mandatory = True\<rparr>,
         \<lparr>co_course_offering_id = 6, co_class_id = 1, co_subject_id = 60,
          co_teacher_id = None, co_is_mandatory = True\<rparr>,
         \<lparr>co_course_offering_id = 9, co_class_id = 4, co_subject_id = 90,
          co_teacher_id = None, co_is_mandatory = True\<rparr>],
      studentCourseEnrollments :=
        [\<lparr>e_enrollment_id = 21, e_student_id = 7, e_course_offering_id = 6,
          e_status = enrolled\<rparr>,
         \<lparr>e_enrollment_id = 22, e_student_id = 7, e_course_offering_id = 9,
          e_status = enrolled\<rparr>],
      students := [\<lparr>st_student_id = 7, st_user_id = Some 70\<rparr>]\<rparr>"

text \<open>
  What \<open>new Date\<close> returns for the strings of the examples (the date-time format of
  ECMAScript: a date alone is UTC midnight, a date and time with an offset is that
  instant).
\<close>

definition new_Date_example :: "string \<Rightarrow> int option" where
  "new_Date_example x =
     (if x = ''2025-06-22T01:00:00+05:30'' then Some 1750534200000
      else if x = ''2025-06-22T12:00:00+05:30'' then Some 1750573800000
      else if x = ''2025-06-22'' then Some 1750550400000
      else if x = ''2025-06-22T00:00:00.000Z'' then Some 1750550400000
      else if x = ''2025-07-01'' then Some 1751328000000
      else if x = ''2025-07-03'' then Some 1751500800000
      else if x = ''2025-03-08'' then Some 1741392000000
      else if x = ''2025-03-10'' then Some 1741564800000
      else None)"

text \<open>A zone whose offset from UTC never changes, and the zone of India (+05:30).\<close>

definition fixed_offset :: "int \<Rightarrow> timezone" where
  "fixed_offset offset = (\<lambda>t isUTC. offset)"

definition Asia_Kolkata :: timezone where
  "Asia_Kolkata = fixed_offset 19800000"

text \<open>
  The zone America/New_York around 2025: five hours behind UTC, and four hours behind
  (daylight saving) from 2025-03-09T07:00:00Z to 2025-11-02T06:00:00Z. In local time
  the clock goes from 02:00 to 03:00 on 2025-03-09 and from 02:00 back to 01:00 on
  2025-11-02; a local time below 03:00 of the first day, or from 02:00 of the second
  day on, has the offset of five hours.
\<close>

definition America_New_York :: timezone where
  "America_New_York t isUTC =
     (if isUTC
      then (if 1741503600000 \<le> t \<and> t < 1762063200000 then - 14400000 else - 18000000)
      else (if 1741489200000 \<le> t \<and> t < 1762048800000 then - 14400000 else - 18000000))"

text \<open>Employee 5, without attendance rows.\<close>

definition store_one_employee :: store where
  "store_one_employee = empty_store\<lparr>employees := [5]\<rparr>"

text \<open>Student 7 (user 70) of class 1 is on leave on 2025-07-01 (day 20270) and on the
  day after, with the remark Fever.\<close>

definition store_leave_today :: store where
  "store_leave_today = empty_store
     \<lparr>classes :=
        [\<lparr>c_class_id = 1, c_academic_year_id = 1, c_standard = ''9'', c_section = ''A'',
          c_capacity = 30\<rparr>],
      students := [\<lparr>st_student_id = 7, st_user_id = Some 70\<rparr>],
      studentAttendance :=
        [\<lparr>sa_attendance_id = 11, sa_student_id = 7, sa_class_id = 1, sa_date = 20270,
          sa_status = on_leave, sa_remarks = Some ''Fever''\<rparr>,
         \<lparr>sa_attendance_id = 12, sa_student_id = 7, sa_class_id = 1, sa_date = 20271,
          sa_status = on_leave, sa_remarks = Some ''Fever''\<rparr>]\<rparr>"

text \<open>The leave of employee 5 from 2025-07-01 to 2025-07-03 after its creation, and after
  its approval.\<close>

definition store_leave_created :: store where
  "store_leave_created =
     snd (createLeaveRequest new_Date_example store_one_employee (Some 5) (Some ''sick'')
            (Some ''2025-07-01'') (Some ''2025-07-03'') (Some ''Fever''))"

definition store_leave_approved :: store where
  "store_leave_approved =
     snd (the (updateLeaveStatus Asia_Kolkata store_leave_created 100 (Some ''approved'') None))"





text \<open>
  An upsert on a list of rows: the rows that match are updated, and when none matches
  the new row is appended. The upserts of the two attendance tables are of this form.
\<close>

definition upsert_rows :: "('r \<Rightarrow> bool) \<Rightarrow> ('r \<Rightarrow> 'r) \<Rightarrow> 'r \<Rightarrow> 'r list \<Rightarrow> 'r list" where
  "upsert_rows matches update new rows =
     (if list_ex matches rows then map (\<lambda>r. if matches r then update r else r) rows
      else rows @ [new])"

text \<open>An operation is an upsert of the table \<open>proj\<close> at the key \<open>k\<close> that keeps the key of
  the rows it updates and leaves the row of the key with the property \<open>P\<close>.\<close>

definition is_upsert ::
  "(store \<Rightarrow> 'r list) \<Rightarrow> ('r \<Rightarrow> 'k) \<Rightarrow> ('r \<Rightarrow> bool) \<Rightarrow> 'k \<Rightarrow> (store \<Rightarrow> error + store) \<Rightarrow> bool" where
  "is_upsert proj key P k operation \<longleftrightarrow>
     (\<forall>t t'. operation t = Inr t' \<longrightarrow>
        (\<exists>u new. proj t' = upsert_rows (\<lambda>r. key r = k) u new (proj t)
            \<and> (\<forall>r. key r = k \<longrightarrow> key (u r) = k \<and> P (u r)) \<and> key new = k \<and> P new))"

text \<open>The store of \<open>updateLeaveStatus\<close> after the status update and the history row of
  an approval, before the attendance of the days.\<close>

definition approval_tx2 :: "store \<Rightarrow> id \<Rightarrow> string option \<Rightarrow> store" where
  "approval_tx2 s leaveId reason =
     s\<lparr>employeeLeaves :=
         map (\<lambda>l. if el_leave_id l = leaveId then l\<lparr>el_status := approved\<rparr> else l)
           (employeeLeaves s),
       leaveStatusHistory :=
         leaveStatusHistory s
           @ [\<lparr>h_history_id = next_uuid s, h_leave_id = leaveId, h_status = approved,
               h_comment = reason\<rparr>],
       next_uuid := Suc (next_uuid s)\<rparr>"

text \<open>The leave of \<open>store_leave_created\<close>, with the employee missing from the employees
  table.\<close>

definition store_leave_orphan :: store where
  "store_leave_orphan = store_leave_created\<lparr>employees := []\<rparr>"

text \<open>Class 10 A of the active academic year with student 7 (user 70), and the employees
  5 and 6; no attendance.\<close>

definition store_attendance :: store where
  "store_attendance = empty_store
     \<lparr>classes :=
        [\<lparr>c_class_id = 1, c_academic_year_id = 1, c_standard = ''10'', c_section = ''A'',
          c_capacity = 40\<rparr>],
      academicYears := [\<lparr>ay_academic_year_id = 1, ay_is_active = True\<rparr>],
      admissions :=
        [\<lparr>a_student_id = 7, a_class_id = 1, a_admission_date = 19000,
          a_admission_number = ''ADM-1'', a_gr_number = ''GR-1''\<rparr>],
      students := [\<lparr>st_student_id = 7, st_user_id = Some 70\<rparr>],
      employees := [5, 6]\<rparr>"

text \<open>The store after student 7 is marked present on 2025-06-22, after the student is
  then marked absent on the same day, and after a bulk request for the employees 5 and
  6 from 2025-07-01 to 2025-07-03.\<close>

definition store_attendance_1 :: store where
  "store_attendance_1 =
     snd (upsertStudentAttendance new_Date_example store_attendance (Some ''10'') (Some ''A'')
            (Some ''2025-06-22'')
            (Some [\<lparr>r_studentId = Some 7, r_status = Some ''present'', r_remarks = None\<rparr>]))"

definition store_attendance_2 :: store where
  "store_attendance_2 =
     snd (upsertStudentAttendance new_Date_example store_attendance_1 (Some ''10'') (Some ''A'')
            (Some ''2025-06-22'')
            (Some [\<lparr>r_studentId = Some 7, r_status = Some ''absent'',
                    r_remarks = Some ''Sick''\<rparr>]))"

definition store_attendance_bulk :: store where
  "store_attendance_bulk =
     snd (the (markBulkAttendance Asia_Kolkata new_Date_example store_attendance (Some [5, 6])
                 (Some ''2025-07-01'') (Some ''2025-07-03'') (Some ''on_leave'') None None
                 (Some ''Trip'')))"

text \<open>The store after student 7 (user 70) requests a leave from 2025-07-01 to
  2025-07-03.\<close>

definition store_student_leave :: store where
  "store_student_leave =
     snd (the (createLeave Asia_Kolkata new_Date_example store_attendance 70
                 (Some ''2025-07-01'') (Some ''2025-07-03'') (Some ''Fever'')))"

text \<open>The UTC midnights of the days \<open>a\<close> to \<open>b\<close>.\<close>

definition midnights :: "int \<Rightarrow> int \<Rightarrow> int list" where
  "midnights a b = map from_DATE [a..b]"

text \<open>The leave of employee 5 from 2025-03-08 (day 20155) to 2025-03-10 (day 20157),
  after its creation.\<close>

definition store_leave_march :: store where
  "store_leave_march = empty_store
     \<lparr>employees := [5],
      employeeLeaves :=
        [\<lparr>el_leave_id = 100, el_employee_id = 5, el_leave_type = ''sick'',
          el_start_date = 20155, el_end_date = 20157, el_reason = ''Fever'',
          el_status = pending\<rparr>],
      leaveStatusHistory :=
        [\<lparr>h_history_id = 101, h_leave_id = 100, h_status = pending,
          h_comment = Some ''Leave request created.''\<rparr>],
      next_uuid := 102\<rparr>"

text \<open>
  The admissions of student \<open>S\<close> in the classes of academic year \<open>Y\<close>.
\<close>

definition admissionsInYear :: "store \<Rightarrow> id \<Rightarrow> id \<Rightarrow> admission_row list" where
  "admissionsInYear s S Y = existingAdmissions s [S] Y"

text \<open>
  The student has a row on leave with the given remark on day \<open>d\<close>; every day from
  \<open>d0\<close> to \<open>d\<close> is such a day; and the data that \<open>cancelLeave\<close> writes into a row.
\<close>

definition leaveDay :: "store \<Rightarrow> id \<Rightarrow> string option \<Rightarrow> int \<Rightarrow> bool" where
  "leaveDay s sid remark d \<longleftrightarrow>
     list_ex (\<lambda>r. sa_student_id r = sid \<and> sa_status r = on_leave \<and> sa_remarks r = remark
                 \<and> sa_date r = d)
       (studentAttendance s)"

definition contiguousRun :: "store \<Rightarrow> id \<Rightarrow> string option \<Rightarrow> int \<Rightarrow> int \<Rightarrow> bool" where
  "contiguousRun s sid remark d0 d \<longleftrightarrow> d0 \<le> d \<and> (\<forall>d' \<in> {d0..d}. leaveDay s sid remark d')"

definition cancelled :: "student_attendance_row \<Rightarrow> student_attendance_row" where
  "cancelled r = r\<lparr>sa_status := absent, sa_remarks := Some ''Leave Cancelled by Student''\<rparr>"

text \<open>
  Student 7 (user 70) is on leave with the remark Fever on 2025-07-01 (day 20270), on the
  day after and on 2025-07-04, and with the remark Trip on 2025-07-03.
\<close>

definition store_leave_gap :: store where
  "store_leave_gap = empty_store
     \<lparr>classes :=
        [\<lparr>c_class_id = 1, c_academic_year_id = 1, c_standard = ''9'', c_section = ''A'',
          c_capacity = 30\<rparr>],
      students := [\<lparr>st_student_id = 7, st_user_id = Some 70\<rparr>],
      studentAttendance :=
        [\<lparr>sa_attendance_id = 11, sa_student_id = 7, sa_class_id = 1, sa_date = 20270,
          sa_status = on_leave, sa_remarks = Some ''Fever''\<rparr>,
         \<lparr>sa_attendance_id = 14, sa_student_id = 7, sa_class_id = 1, sa_date = 20273,
          sa_status = on_leave, sa_remarks = Some ''Fever''\<rparr>,
         \<lparr>sa_attendance_id = 12, sa_student_id = 7, sa_class_id = 1, sa_date = 20271,
          sa_status = on_leave, sa_remarks = Some ''Fever''\<rparr>,
         \<lparr>sa_attendance_id = 13, sa_student_id = 7, sa_class_id = 1, sa_date = 20272,
          sa_status = on_leave, sa_remarks = Some ''Trip''\<rparr>]\<rparr>"

section \<open>Evaluation of the examples\<close>

lemmas example_defs =
  empty_store_def store_two_years_def store_one_class_def frozen_clock_def
  store_stale_enrollment_def enrolledOfferings_def offeringsOfClass_def classesOfStudent_def
  new_Date_example_def store_one_employee_def store_leave_today_def priorClasses_def
  keptOfferings_def

lemmas zone_eval =
  dateRange.simps setDate_next_def LocalTime_def UTC_def fixed_offset_def Asia_Kolkata_def
  America_New_York_def

lemmas promote_defs =
  promoteStudents_def transaction_def promoteStudents_tx_def admission_updateMany_def
  new_Set_def enrollment_deleteMany_def enrollmentData_def admissionCount_def
  enrollment_createMany_def

lemma store_leave_created_eq:
  "store_leave_created = empty_store
     \<lparr>employees := [5],
      employeeLeaves :=
        [\<lparr>el_leave_id = 100, el_employee_id = 5, el_leave_type = ''sick'',
          el_start_date = 20270, el_end_date = 20272, el_reason = ''Fever'',
          el_status = pending\<rparr>],
      leaveStatusHistory :=
        [\<lparr>h_history_id = 101, h_leave_id = 100, h_status = pending,
          h_comment = Some ''Leave request created.''\<rparr>],
      next_uuid := 102\<rparr>"
  by (simp add: store_leave_created_def createLeaveRequest_def createLeaveRequest_tx_def
      transaction_def falsy_def leave_types_def to_DATE_def Let_def example_defs)

text \<open>
  C1 (capacity after a promotion). In \<open>store_two_years\<close> every class holds at most as
  many admissions as its capacity. Promoting the one student 7 to class 3 passes the
  capacity check (0 + 1 is not above 1) and succeeds; \<open>updateMany\<close> then moves both
  admissions of the student, so class 3 of capacity 1 holds 2 admissions.
\<close>

theorem promoteStudents_exceeds_capacity:
  "fst (promoteStudents store_two_years (Some [7]) (Some 3))
     = Inr \<lparr>promotedCount = 2, enrolledSubjects = 0, totalEnrollments = 0\<rparr>
   \<and> admissionCount store_two_years 3 = 0
   \<and> admissionCount (snd (promoteStudents store_two_years (Some [7]) (Some 3))) 3 = 2
   \<and> map c_capacity
        (filter (\<lambda>c. c_class_id c = 3)
           (classes (snd (promoteStudents store_two_years (Some [7]) (Some 3))))) = [1]"
  by (simp add: promote_defs example_defs)

text \<open>
  C3 (one admission per student and academic year). A batch that names student 7 twice
  passes the check of step C, which looks only at the admissions already stored, and
  inserts two admissions of the student in class 1.
\<close>

theorem addStudentsToClass_repeated_student:
  "fst (addStudentsToClass store_one_class 1750534200000 frozen_clock 1 (Some [7, 7])) = Inr 2
   \<and> classesOfStudent store_one_class 7 = []
   \<and> classesOfStudent
        (snd (addStudentsToClass store_one_class 1750534200000 frozen_clock 1 (Some [7, 7]))) 7
      = [1, 1]"
  by (simp add: addStudentsToClass_def transaction_def addStudentsToClass_tx_def
      existingAdmissions_def admissionsToCreate_def with_index_def admission_createMany_def
      unique_violation_def digits.simps admissionCount_def upt_rec example_defs)

text \<open>
  C6 (normalization of the date of an attendance write). \<open>markSingleAttendance\<close> keys
  the row by the instant \<open>new Date(date)\<close>, of which the DATE column keeps the UTC day.
  Two requests for employee 5 whose dates name the same calendar day, 2025-06-22, at
  01:00 and at 12:00 in the zone +05:30, write two rows: one for 2025-06-21 (day 20260)
  and one for 2025-06-22 (day 20261).
\<close>

theorem markSingleAttendance_two_rows_for_one_day:
  "map ea_date
     (employeeAttendance
        (snd (markSingleAttendance new_Date_example
                (snd (markSingleAttendance new_Date_example store_one_employee (Some 5)
                        (Some ''2025-06-22T01:00:00+05:30'') (Some ''present'') None None None))
                (Some 5) (Some ''2025-06-22T12:00:00+05:30'') (Some ''absent'') None None None)))
     = [20260, 20261]"
  by (simp add: markSingleAttendance_def falsy_def validStatuses_def time_or_null_def
      employeeAttendance_upsert_def attendanceData_create_def attendanceData_update_def
      to_DATE_def example_defs)

text \<open>
  C9 (a leave that starts today cannot be cancelled). The server's zone is +05:30 and
  the time is 2025-07-01T10:00 there (04:30 UTC). The leave of student 7 starts on
  2025-07-01, which is today in the server's zone and in UTC. The check compares the
  UTC midnight of the start date with the local midnight of today, which is 18:30 UTC
  of the day before, so the cancellation is accepted and both days of the leave are
  reverted.
\<close>

theorem cancelLeave_accepts_leave_of_today:
  "fst (cancelLeave 330 1751344200000 store_leave_today 70 11) = Inr ()
   \<and> map sa_date (studentAttendance store_leave_today) = [20270, 20271]
   \<and> to_DATE 1751344200000 = 20270
   \<and> to_DATE (1751344200000 + 330 * 60000) = 20270
   \<and> map sa_status
        (studentAttendance (snd (cancelLeave 330 1751344200000 store_leave_today 70 11)))
      = [absent, absent]"
  by (simp add: cancelLeave_def student_of_user_def setHours_0_def from_DATE_def to_DATE_def
      allLeaveDaysForReason_def example_defs)

text \<open>
  The days of 2025-03-08 to 2025-03-10 on a server in the zone America/New_York, where
  daylight saving starts on 2025-03-09. The loop starts at the UTC midnight of
  2025-03-08, which is 19:00 of the day before in local time; the next local day at
  19:00 is the UTC midnight of 2025-03-09; the local day after that is in daylight
  saving time, where 19:00 is 23:00 UTC of the same UTC day, 2025-03-09; the step after
  that passes the UTC midnight of 2025-03-10, the end of the range. The loop collects
  three dates, on the UTC days 20155, 20156 and 20156: the second day twice and the
  last day, 20157, never.
\<close>

lemma dateRange_New_York:
  "dateRange America_New_York 1741392000000 1741564800000
     = Some [1741392000000, 1741478400000, 1741561200000]
   \<and> map to_DATE [1741392000000, 1741478400000, 1741561200000] = [20155, 20156, 20156]
   \<and> to_DATE 1741564800000 = 20157"
  by (simp add: to_DATE_def zone_eval)

text \<open>
  C5 (one upsert per day of a range). On that server a bulk request for employee 5 from
  2025-03-08 to 2025-03-10, a range of three calendar days, runs three upserts and
  answers with three records, but two of them hit the row of 2025-03-09 (day 20156):
  the table holds a row for 2025-03-08 and one for 2025-03-09, and none for 2025-03-10.
\<close>

theorem markBulkAttendance_skips_last_day:
  "map_option fst
     (markBulkAttendance America_New_York new_Date_example store_one_employee (Some [5])
        (Some ''2025-03-08'') (Some ''2025-03-10'') (Some ''present'') None None None)
     = Some (Inr 3)
   \<and> map_option (\<lambda>r. map (\<lambda>a. (ea_employee_id a, ea_date a, ea_status a))
                         (employeeAttendance (snd r)))
       (markBulkAttendance America_New_York new_Date_example store_one_employee (Some [5])
          (Some ''2025-03-08'') (Some ''2025-03-10'') (Some ''present'') None None None)
     = Some [(5, 20155, present), (5, 20156, present)]
   \<and> new_Date_example ''2025-03-08'' = Some (from_DATE 20155)
   \<and> new_Date_example ''2025-03-10'' = Some (from_DATE 20157)"
  by (simp add: markBulkAttendance_def falsy_def validStatuses_def new_Date_example_def
      zone_eval upsertOperations_def bulk_upsert_def time_or_null_def
      transaction_all_def transaction_def employeeAttendance_upsert_def
      attendanceData_update_def attendanceData_create_def to_DATE_def from_DATE_def
      store_one_employee_def empty_store_def)

lemma create_march:
  "createLeaveRequest new_Date_example store_one_employee (Some 5) (Some ''sick'')
     (Some ''2025-03-08'') (Some ''2025-03-10'') (Some ''Fever'')
   = (Inr \<lparr>el_leave_id = 100, el_employee_id = 5, el_leave_type = ''sick'',
            el_start_date = 20155, el_end_date = 20157, el_reason = ''Fever'',
            el_status = pending\<rparr>,
      store_leave_march)"
  by (simp add: createLeaveRequest_def createLeaveRequest_tx_def transaction_def falsy_def
      leave_types_def to_DATE_def Let_def store_leave_march_def example_defs)

text \<open>
  C7 (one attendance row for every day of an approved leave). On that server the leave
  of employee 5 from 2025-03-08 to 2025-03-10, created by \<open>createLeaveRequest\<close>, is
  approved: the request succeeds, the leave is approved and its history is pending,
  approved, but the three-day leave has two attendance rows, for 2025-03-08 and
  2025-03-09 (days 20155 and 20156), and none for its last day.
\<close>

theorem updateLeaveStatus_misses_last_day:
  "map_option fst
     (updateLeaveStatus America_New_York store_leave_march 100 (Some ''approved'') None)
     = Some (Inr \<lparr>el_leave_id = 100, el_employee_id = 5, el_leave_type = ''sick'',
                   el_start_date = 20155, el_end_date = 20157, el_reason = ''Fever'',
                   el_status = approved\<rparr>)
   \<and> map_option (\<lambda>r. map (\<lambda>a. (ea_employee_id a, ea_date a, ea_status a))
                         (employeeAttendance (snd r)))
       (updateLeaveStatus America_New_York store_leave_march 100 (Some ''approved'') None)
     = Some [(5, 20155, on_leave), (5, 20156, on_leave)]
   \<and> map_option (\<lambda>r. map h_status (leaveStatusHistory (snd r)))
       (updateLeaveStatus America_New_York store_leave_march 100 (Some ''approved'') None)
     = Some [pending, approved]
   \<and> fst (createLeaveRequest new_Date_example store_one_employee (Some 5) (Some ''sick'')
            (Some ''2025-03-08'') (Some ''2025-03-10'') (Some ''Fever''))
     = Inr \<lparr>el_leave_id = 100, el_employee_id = 5, el_leave_type = ''sick'',
            el_start_date = 20155, el_end_date = 20157, el_reason = ''Fever'',
            el_status = pending\<rparr>
   \<and> snd (createLeaveRequest new_Date_example store_one_employee (Some 5) (Some ''sick'')
            (Some ''2025-03-08'') (Some ''2025-03-10'') (Some ''Fever''))
     = store_leave_march"
  by (simp add: create_march)
     (simp add: updateLeaveStatus_def updateLeaveStatus_tx_def transaction_partial_def
      falsy_def leave_statuses_def Let_def from_DATE_def to_DATE_def zone_eval
      leave_day_upsert_def employeeAttendance_upsert_def store_leave_march_def
      empty_store_def)

text \<open>
  C10 (one attendance row for every day of a student's leave). On that server student
  7 (user 70) requests a leave from 2025-03-08 to 2025-03-10: the request succeeds and
  the student has two rows on leave, for 2025-03-08 and 2025-03-09 (days 20155 and
  20156), and none for 2025-03-10.
\<close>

theorem createLeave_misses_last_day:
  "map_option fst
     (createLeave America_New_York new_Date_example store_attendance 70 (Some ''2025-03-08'')
        (Some ''2025-03-10'') (Some ''Fever''))
     = Some (Inr ())
   \<and> map_option (\<lambda>r. map (\<lambda>a. (sa_student_id a, sa_date a, sa_status a, sa_remarks a))
                         (studentAttendance (snd r)))
       (createLeave America_New_York new_Date_example store_attendance 70 (Some ''2025-03-08'')
          (Some ''2025-03-10'') (Some ''Fever''))
     = Some [(7, 20155, on_leave, Some ''Fever''), (7, 20156, on_leave, Some ''Fever'')]
   \<and> new_Date_example ''2025-03-08'' = Some (from_DATE 20155)
   \<and> new_Date_example ''2025-03-10'' = Some (from_DATE 20157)"
  by (simp add: createLeave_def falsy_def new_Date_example_def student_of_user_def
      latest_admission_def transaction_all_def transaction_def zone_eval
      student_leave_upsert_def studentAttendance_upsert_def to_DATE_def from_DATE_def
      store_attendance_def empty_store_def)

section \<open>Promotion and enrollments\<close>

lemma set_new_Set [simp]: "set (new_Set xs) = set xs"
  by (simp add: new_Set_def)

lemma new_Set_Nil_iff [simp]: "new_Set xs = [] \<longleftrightarrow> xs = []"
  by (simp add: new_Set_def)

lemma enrollment_rows_pairs:
  "map (\<lambda>e. (e_student_id e, e_course_offering_id e)) (enrollment_rows n ds) = ds"
  by (induction n ds rule: enrollment_rows.induct) auto

lemma enrolled_in_rows:
  "map e_course_offering_id (filter (\<lambda>e. e_student_id e = S) (enrollment_rows n ds))
     = map snd (filter (\<lambda>p. fst p = S) ds)"
  by (induction n ds rule: enrollment_rows.induct) auto

lemma enrollmentData_of_student:
  "S \<in> set studentIds \<Longrightarrow>
   set (map snd (filter (\<lambda>p. fst p = S) (enrollmentData studentIds cos)))
     = set (map co_course_offering_id cos)"
  by (auto simp: enrollmentData_def image_iff)

lemma delete_step:
  "studentCourseEnrollments
     (if new_Set cs \<noteq> [] then enrollment_deleteMany tx1 ids (new_Set cs) else tx1)
   = filter (\<lambda>e. \<not> (e_student_id e \<in> set ids
                    \<and> list_ex (\<lambda>co. co_course_offering_id co = e_course_offering_id e
                                   \<and> co_class_id co \<in> set cs)
                         (courseOfferings tx1)))
       (studentCourseEnrollments tx1)"
  by (cases "cs = []") (simp_all add: enrollment_deleteMany_def list_ex_iff)

lemma delete_step_offerings:
  "courseOfferings
     (if new_Set cs \<noteq> [] then enrollment_deleteMany tx1 ids (new_Set cs) else tx1)
   = courseOfferings tx1"
  by (simp add: enrollment_deleteMany_def)

lemma delete_step_uuid:
  "next_uuid
     (if new_Set cs \<noteq> [] then enrollment_deleteMany tx1 ids (new_Set cs) else tx1)
   = next_uuid tx1"
  by (simp add: enrollment_deleteMany_def)

lemma promoteStudents_tx_tables:
  assumes "promoteStudents_tx studentIds targetClassId cur tcos tx = Inr (r, tx')"
  shows "courseOfferings tx' = courseOfferings tx
    \<and> studentCourseEnrollments tx'
        = filter (\<lambda>e. \<not> (e_student_id e \<in> set studentIds
                        \<and> list_ex (\<lambda>co. co_course_offering_id co = e_course_offering_id e
                                       \<and> co_class_id co \<in> set (map a_class_id cur))
                             (courseOfferings tx)))
            (studentCourseEnrollments tx)
          @ enrollment_rows (next_uuid tx) (enrollmentData studentIds tcos)"
proof -
  define tx1 where "tx1 = snd (admission_updateMany tx studentIds targetClassId)"
  define tx2 where "tx2 = (if new_Set (map a_class_id cur) \<noteq> []
      then enrollment_deleteMany tx1 studentIds (new_Set (map a_class_id cur)) else tx1)"
  have tx1: "courseOfferings tx1 = courseOfferings tx"
    "studentCourseEnrollments tx1 = studentCourseEnrollments tx"
    "next_uuid tx1 = next_uuid tx"
    by (simp_all add: tx1_def admission_updateMany_def)
  have tx2: "courseOfferings tx2 = courseOfferings tx"
    "next_uuid tx2 = next_uuid tx"
    "studentCourseEnrollments tx2
       = filter (\<lambda>e. \<not> (e_student_id e \<in> set studentIds
                        \<and> list_ex (\<lambda>co. co_course_offering_id co = e_course_offering_id e
                                       \<and> co_class_id co \<in> set (map a_class_id cur))
                             (courseOfferings tx)))
            (studentCourseEnrollments tx)"
    unfolding tx2_def delete_step delete_step_offerings delete_step_uuid
    by (simp_all only: tx1)
  have enr0: "enrollmentData studentIds [] = []"
    by (induction studentIds) (simp_all add: enrollmentData_def)
  have "tx' = tx2 \<and> enrollmentData studentIds tcos = []
      \<or> tx' = tx2\<lparr>studentCourseEnrollments :=
                     studentCourseEnrollments tx2
                       @ enrollment_rows (next_uuid tx2) (enrollmentData studentIds tcos),
                   next_uuid := next_uuid tx2 + length (enrollmentData studentIds tcos)\<rparr>"
    using assms enr0
    by (auto simp: promoteStudents_tx_def tx1_def tx2_def enrollment_createMany_def Let_def
        split: prod.splits sum.splits if_splits)
  then show ?thesis
    using tx2 by auto
qed

lemma promoteStudents_tables:
  assumes "promoteStudents s (Some studentIds) (Some targetClassId) = (Inr r, s')"
  shows "courseOfferings s' = courseOfferings s
    \<and> studentCourseEnrollments s'
        = filter (\<lambda>e. \<not> (e_student_id e \<in> set studentIds
                        \<and> list_ex (\<lambda>co. co_course_offering_id co = e_course_offering_id e
                                       \<and> co_class_id co \<in> priorClasses s studentIds)
                             (courseOfferings s)))
            (studentCourseEnrollments s)
          @ enrollment_rows (next_uuid s)
              (enrollmentData studentIds
                 (filter (\<lambda>co. co_class_id co = targetClassId) (courseOfferings s)))"
proof -
  from assms have "promoteStudents_tx studentIds targetClassId
      (filter (\<lambda>a. a_student_id a \<in> set studentIds) (admissions s))
      (filter (\<lambda>co. co_class_id co = targetClassId) (courseOfferings s)) s = Inr (r, s')"
    by (auto simp: promoteStudents_def transaction_def Let_def
        split: option.splits if_splits sum.splits prod.splits)
  from promoteStudents_tx_tables [OF this] show ?thesis
    by (simp add: priorClasses_def)
qed

text \<open>
  C2, as the code has it. After a promotion of \<open>studentIds\<close> to the target class
  succeeds, the offerings a promoted student \<open>S\<close> is enrolled in are the offerings of
  the target class together with the offerings of those earlier enrollments of \<open>S\<close>
  that belong to no class in which a promoted student held an admission before the
  call. (The enrollments in offerings of those prior classes are deleted; an enrollment
  in an offering of any other class stays.)
\<close>

theorem promoteStudents_enrollments:
  assumes "promoteStudents s (Some studentIds) (Some targetClassId) = (Inr r, s')"
    and "S \<in> set studentIds"
  shows "set (enrolledOfferings s' S)
     = set (offeringsOfClass s' targetClassId) \<union> set (keptOfferings s studentIds S)"
proof -
  note t = promoteStudents_tables [OF assms(1)]
  have new: "set (map e_course_offering_id (filter (\<lambda>e. e_student_id e = S)
               (enrollment_rows (next_uuid s)
                 (enrollmentData studentIds
                   (filter (\<lambda>co. co_class_id co = targetClassId) (courseOfferings s))))))
             = set (offeringsOfClass s targetClassId)"
    unfolding enrolled_in_rows offeringsOfClass_def
    by (rule enrollmentData_of_student [OF assms(2)])
  have old: "filter (\<lambda>e. e_student_id e = S)
               (filter (\<lambda>e. \<not> (e_student_id e \<in> set studentIds
                        \<and> list_ex (\<lambda>co. co_course_offering_id co = e_course_offering_id e
                                       \<and> co_class_id co \<in> priorClasses s studentIds)
                             (courseOfferings s)))
                  (studentCourseEnrollments s))
             = filter (\<lambda>e. e_student_id e = S
                  \<and> \<not> list_ex (\<lambda>co. co_course_offering_id co = e_course_offering_id e
                                    \<and> co_class_id co \<in> priorClasses s studentIds)
                         (courseOfferings s))
                 (studentCourseEnrollments s)"
    using assms(2) by (auto intro: filter_cong)
  have "set (enrolledOfferings s' S)
          = set (keptOfferings s studentIds S) \<union> set (offeringsOfClass s targetClassId)"
    unfolding enrolledOfferings_def keptOfferings_def
    using new old by (simp add: t)
  moreover have "offeringsOfClass s' targetClassId = offeringsOfClass s targetClassId"
    by (simp add: offeringsOfClass_def t)
  ultimately show ?thesis by auto
qed

theorem promoteStudents_enrollments_witness:
  "set (enrolledOfferings (snd (promoteStudents store_stale_enrollment (Some [7]) (Some 2))) 7)
     = set (offeringsOfClass (snd (promoteStudents store_stale_enrollment (Some [7]) (Some 2))) 2)
         \<union> set (keptOfferings store_stale_enrollment [7] 7)
   \<and> keptOfferings store_stale_enrollment [7] 7 = [9]
   \<and> fst (promoteStudents store_stale_enrollment (Some [7]) (Some 2))
       = Inr \<lparr>promotedCount = 1, enrolledSubjects = 1, totalEnrollments = 1\<rparr>"
proof -
  have r: "fst (promoteStudents store_stale_enrollment (Some [7]) (Some 2))
       = Inr \<lparr>promotedCount = 1, enrolledSubjects = 1, totalEnrollments = 1\<rparr>"
    by (simp add: promote_defs example_defs)
  then have e: "promoteStudents store_stale_enrollment (Some [7]) (Some 2)
       = (Inr \<lparr>promotedCount = 1, enrolledSubjects = 1, totalEnrollments = 1\<rparr>,
          snd (promoteStudents store_stale_enrollment (Some [7]) (Some 2)))"
    by (simp add: prod_eq_iff)
  have k: "keptOfferings store_stale_enrollment [7] 7 = [9]"
    by (simp add: example_defs)
  have m: "(7::nat) \<in> set [7]" by simp
  from promoteStudents_enrollments [OF e m] r k show ?thesis by simp
qed

text \<open>
  C2, as the claim states it, fails: in \<open>store_stale_enrollment\<close> the promotion of
  student 7 from class 1 to class 2 succeeds and leaves the student enrolled in offering
  9 of class 4 besides offering 5, the one offering of class 2.
\<close>

theorem promoteStudents_keeps_other_enrollment:
  "fst (promoteStudents store_stale_enrollment (Some [7]) (Some 2))
     = Inr \<lparr>promotedCount = 1, enrolledSubjects = 1, totalEnrollments = 1\<rparr>
   \<and> enrolledOfferings (snd (promoteStudents store_stale_enrollment (Some [7]) (Some 2))) 7
       = [9, 5]
   \<and> offeringsOfClass (snd (promoteStudents store_stale_enrollment (Some [7]) (Some 2))) 2 = [5]
   \<and> set (enrolledOfferings (snd (promoteStudents store_stale_enrollment (Some [7]) (Some 2))) 7)
       \<noteq> set (offeringsOfClass (snd (promoteStudents store_stale_enrollment (Some [7]) (Some 2))) 2)"
  by (simp add: promote_defs example_defs)

section \<open>The guard of the subject synchronization\<close>


lemma targetClasses_subjects [simp]:
  "targetClasses (tx\<lparr>subjects := x\<rparr>) = targetClasses tx"
  by (simp add: targetClasses_def fun_eq_iff)

lemma offeringsToDelete_subjects [simp]:
  "offeringsToDelete (tx\<lparr>subjects := x\<rparr>) = offeringsToDelete tx"
  by (simp add: offeringsToDelete_def existingOfferings_def fun_eq_iff)

lemma enrollmentsCount_subjects [simp]:
  "enrollmentsCount (tx\<lparr>subjects := x\<rparr>) = enrollmentsCount tx"
  by (simp add: enrollmentsCount_def fun_eq_iff)





section \<open>Leave requests: transitions and history\<close>

lemma run_all_invariant:
  assumes "run_all operations tx = Inr tx'" and "Q tx"
    and "\<forall>operation\<in>set operations. \<forall>t t'. operation t = Inr t' \<longrightarrow> Q t \<longrightarrow> Q t'"
  shows "Q tx'"
  using assms
proof (induction operations arbitrary: tx)
  case Nil
  then show ?case by simp
next
  case (Cons operation operations)
  from Cons.prems(1) obtain tx1 where 1: "operation tx = Inr tx1"
    and 2: "run_all operations tx1 = Inr tx'"
    by (auto split: sum.splits)
  have "Q tx1" using Cons.prems(2,3) 1 by auto
  with Cons.IH [OF 2] Cons.prems(3) show ?case by simp
qed

lemma employeeAttendance_upsert_frame:
  assumes "employeeAttendance_upsert k d u c tx = Inr tx'"
  shows "leaveStatusHistory tx' = leaveStatusHistory tx"
    and "employeeLeaves tx' = employeeLeaves tx"
    and "employees tx' = employees tx"
    and "studentAttendance tx' = studentAttendance tx"
  using assms by (auto simp: employeeAttendance_upsert_def split: if_splits)

lemma leave_days_frame:
  assumes "run_all (map (leave_day_upsert leave) dates) tx = Inr tx'"
  shows "leaveStatusHistory tx' = leaveStatusHistory tx \<and> employeeLeaves tx' = employeeLeaves tx"
  by (rule run_all_invariant [where Q = "\<lambda>t. leaveStatusHistory t = leaveStatusHistory tx
             \<and> employeeLeaves t = employeeLeaves tx", OF assms])
     (auto simp: leave_day_upsert_def dest: employeeAttendance_upsert_frame)





lemma store_leave_approved_eq:
  "store_leave_approved = empty_store
     \<lparr>employees := [5],
      employeeAttendance :=
        [\<lparr>ea_attendance_id = 103, ea_employee_id = 5, ea_date = 20270, ea_status = on_leave,
          ea_check_in_time = None, ea_check_out_time = None, ea_source = manual,
          ea_remarks = Some ''Approved Leave: Fever''\<rparr>,
         \<lparr>ea_attendance_id = 104, ea_employee_id = 5, ea_date = 20271, ea_status = on_leave,
          ea_check_in_time = None, ea_check_out_time = None, ea_source = manual,
          ea_remarks = Some ''Approved Leave: Fever''\<rparr>,
         \<lparr>ea_attendance_id = 105, ea_employee_id = 5, ea_date = 20272, ea_status = on_leave,
          ea_check_in_time = None, ea_check_out_time = None, ea_source = manual,
          ea_remarks = Some ''Approved Leave: Fever''\<rparr>],
      employeeLeaves :=
        [\<lparr>el_leave_id = 100, el_employee_id = 5, el_leave_type = ''sick'',
          el_start_date = 20270, el_end_date = 20272, el_reason = ''Fever'',
          el_status = approved\<rparr>],
      leaveStatusHistory :=
        [\<lparr>h_history_id = 101, h_leave_id = 100, h_status = pending,
          h_comment = Some ''Leave request created.''\<rparr>,
         \<lparr>h_history_id = 102, h_leave_id = 100, h_status = approved, h_comment = None\<rparr>],
      next_uuid := 106\<rparr>"
  by (simp add: store_leave_approved_def store_leave_created_eq updateLeaveStatus_def
      updateLeaveStatus_tx_def transaction_partial_def falsy_def leave_statuses_def Let_def
      from_DATE_def to_DATE_def zone_eval leave_day_upsert_def
      employeeAttendance_upsert_def empty_store_def)

lemma approve_created:
  "updateLeaveStatus Asia_Kolkata store_leave_created 100 (Some ''approved'') None
     = Some (Inr \<lparr>el_leave_id = 100, el_employee_id = 5, el_leave_type = ''sick'',
                   el_start_date = 20270, el_end_date = 20272, el_reason = ''Fever'',
                   el_status = approved\<rparr>,
             store_leave_approved)"
proof -
  have "\<exists>r. updateLeaveStatus Asia_Kolkata store_leave_created 100 (Some ''approved'') None
     = Some (Inr \<lparr>el_leave_id = 100, el_employee_id = 5, el_leave_type = ''sick'',
              el_start_date = 20270, el_end_date = 20272, el_reason = ''Fever'',
              el_status = approved\<rparr>, r)"
    by (simp add: store_leave_created_eq updateLeaveStatus_def
      updateLeaveStatus_tx_def transaction_partial_def falsy_def leave_statuses_def Let_def
      from_DATE_def to_DATE_def zone_eval leave_day_upsert_def
      employeeAttendance_upsert_def empty_store_def)
  then show ?thesis
    by (auto simp: store_leave_approved_def)
qed







section \<open>Upserts and date ranges\<close>

lemma upsert_rows_keys:
  assumes "\<forall>r. key r = k \<longrightarrow> key (u r) = k" and "key new = k"
  shows "map key (upsert_rows (\<lambda>r. key r = k) u new rows)
     = (if k \<in> set (map key rows) then map key rows else map key rows @ [k])"
  using assms by (auto simp: upsert_rows_def list_ex_iff image_iff) metis+

lemma upsert_rows_distinct:
  assumes "\<forall>r. key r = k \<longrightarrow> key (u r) = k" and "key new = k"
    and "distinct (map key rows)"
  shows "distinct (map key (upsert_rows (\<lambda>r. key r = k) u new rows))"
  unfolding upsert_rows_keys [of key k u new rows, OF assms(1,2)]
  using assms(3) by simp

lemma upsert_rows_has:
  assumes "\<forall>r. key r = k \<longrightarrow> key (u r) = k \<and> P (u r)" and "key new = k" and "P new"
  shows "\<exists>r\<in>set (upsert_rows (\<lambda>r. key r = k) u new rows). key r = k \<and> P r"
  using assms by (auto simp: upsert_rows_def list_ex_iff)

lemma upsert_rows_keeps:
  assumes "\<exists>r\<in>set rows. key r = k1 \<and> P r"
    and "\<forall>r. key r = k \<longrightarrow> key (u r) = k \<and> P (u r)"
  shows "\<exists>r\<in>set (upsert_rows (\<lambda>r. key r = k) u new rows). key r = k1 \<and> P r"
proof -
  from assms(1) obtain r where r: "r \<in> set rows" "key r = k1" "P r" by blast
  show ?thesis
  proof (cases "list_ex (\<lambda>r. key r = k) rows")
    case True
    have "(if key r = k then u r else r) \<in> set (upsert_rows (\<lambda>r. key r = k) u new rows)"
      using True r(1) by (simp add: upsert_rows_def)
    moreover have "key (if key r = k then u r else r) = k1 \<and> P (if key r = k then u r else r)"
      using r assms(2) by auto
    ultimately show ?thesis by blast
  next
    case False
    then show ?thesis using r by (auto simp: upsert_rows_def)
  qed
qed

lemma upsert_rows_frame:
  assumes "\<forall>r. key r = k \<longrightarrow> key (u r) = k" and "key new = k" and "k \<in> K"
  shows "filter (\<lambda>r. key r \<notin> K) (upsert_rows (\<lambda>r. key r = k) u new rows)
     = filter (\<lambda>r. key r \<notin> K) rows"
proof (cases "list_ex (\<lambda>r. key r = k) rows")
  case True
  have "filter (\<lambda>r. key r \<notin> K) (map (\<lambda>r. if key r = k then u r else r) rows)
      = filter (\<lambda>r. key r \<notin> K) rows"
    using assms by (induction rows) auto
  with True show ?thesis by (simp add: upsert_rows_def)
next
  case False
  then show ?thesis using assms by (simp add: upsert_rows_def)
qed

lemma distinct_key_filter:
  assumes "distinct (map key rows)" and "r \<in> set rows"
  shows "filter (\<lambda>x. key x = key r) rows = [r]"
  using assms
proof (induction rows)
  case Nil
  then show ?case by simp
next
  case (Cons x rows)
  show ?case
  proof (cases "x = r")
    case True
    have "filter (\<lambda>y. key y = key r) rows = []"
      using Cons.prems(1) True by (auto simp: filter_empty_conv image_iff)
    with True show ?thesis by simp
  next
    case False
    with Cons.prems have "r \<in> set rows" "key x \<noteq> key r" by auto
    with Cons show ?thesis by simp
  qed
qed

lemma distinct_key_count:
  assumes "distinct (map key rows)" and "K \<subseteq> key ` set rows"
  shows "length (filter (\<lambda>r. key r \<in> K) rows) = card K"
proof -
  have "distinct (map key (filter (\<lambda>r. key r \<in> K) rows))"
    using assms(1) by (rule distinct_map_filter)
  then have "card (set (map key (filter (\<lambda>r. key r \<in> K) rows)))
      = length (map key (filter (\<lambda>r. key r \<in> K) rows))"
    by (rule distinct_card)
  moreover have "set (map key (filter (\<lambda>r. key r \<in> K) rows)) = K"
    using assms(2) by auto
  ultimately show ?thesis by simp
qed

lemma run_all_upserts:
  assumes "run_all (map f xs) tx = Inr tx'"
    and "distinct (map key (proj tx))"
    and "\<forall>x\<in>set xs. is_upsert proj key P (kf x) (f x)"
  shows "distinct (map key (proj tx'))
     \<and> (\<forall>x\<in>set xs. \<exists>r\<in>set (proj tx'). key r = kf x \<and> P r)
     \<and> filter (\<lambda>r. key r \<notin> kf ` set xs) (proj tx')
         = filter (\<lambda>r. key r \<notin> kf ` set xs) (proj tx)"
  using assms
proof (induction xs arbitrary: tx)
  case Nil
  then show ?case by simp
next
  case (Cons x xs)
  from Cons.prems(1) obtain t1 where 1: "f x tx = Inr t1"
    and 2: "run_all (map f xs) t1 = Inr tx'"
    by (auto split: sum.splits)
  from Cons.prems(3) 1 obtain u new where
    up: "proj t1 = upsert_rows (\<lambda>r. key r = kf x) u new (proj tx)"
    and u: "\<forall>r. key r = kf x \<longrightarrow> key (u r) = kf x \<and> P (u r)"
    and new: "key new = kf x" "P new"
    unfolding is_upsert_def by (metis list.set_intros(1))
  have d1: "distinct (map key (proj t1))"
    unfolding up using u new(1) Cons.prems(2) by (intro upsert_rows_distinct) auto
  have rest: "\<forall>x\<in>set xs. is_upsert proj key P (kf x) (f x)"
    using Cons.prems(3) by simp
  note ih = Cons.IH [OF 2 d1 rest]
  have h1: "\<exists>r\<in>set (proj t1). key r = kf x \<and> P r"
    unfolding up using u new by (intro upsert_rows_has) auto
  have keep: "\<forall>operation\<in>set (map f xs). \<forall>t t'. operation t = Inr t' \<longrightarrow>
      (\<exists>r\<in>set (proj t). key r = kf x \<and> P r) \<longrightarrow> (\<exists>r\<in>set (proj t'). key r = kf x \<and> P r)"
  proof (intro ballI allI impI)
    fix operation t t'
    assume o: "operation \<in> set (map f xs)" and r: "operation t = Inr t'"
      and h: "\<exists>r\<in>set (proj t). key r = kf x \<and> P r"
    from o obtain y where y: "y \<in> set xs" "operation = f y" by auto
    with rest r obtain u' new' where
      "proj t' = upsert_rows (\<lambda>r. key r = kf y) u' new' (proj t)"
      "\<forall>r. key r = kf y \<longrightarrow> key (u' r) = kf y \<and> P (u' r)"
      unfolding is_upsert_def by metis
    with h show "\<exists>r\<in>set (proj t'). key r = kf x \<and> P r"
      by (simp add: upsert_rows_keeps)
  qed
  have hx: "\<exists>r\<in>set (proj tx'). key r = kf x \<and> P r"
    by (rule run_all_invariant [OF 2 h1 keep])
  have f1: "filter (\<lambda>r. key r \<notin> kf ` set (x # xs)) (proj t1)
      = filter (\<lambda>r. key r \<notin> kf ` set (x # xs)) (proj tx)"
    unfolding up using u new(1) by (intro upsert_rows_frame) auto
  have "filter (\<lambda>r. key r \<notin> kf ` set (x # xs)) (proj tx')
      = filter (\<lambda>r. key r \<noteq> kf x) (filter (\<lambda>r. key r \<notin> kf ` set xs) (proj tx'))"
    by (auto intro: filter_cong)
  also have "\<dots> = filter (\<lambda>r. key r \<noteq> kf x) (filter (\<lambda>r. key r \<notin> kf ` set xs) (proj t1))"
    using ih by simp
  also have "\<dots> = filter (\<lambda>r. key r \<notin> kf ` set (x # xs)) (proj t1)"
    by (auto intro: filter_cong)
  finally have fr: "filter (\<lambda>r. key r \<notin> kf ` set (x # xs)) (proj tx')
      = filter (\<lambda>r. key r \<notin> kf ` set (x # xs)) (proj tx)"
    using f1 by simp
  from ih hx fr show ?case by simp
qed

lemma from_DATE_le [simp]: "from_DATE a \<le> from_DATE b \<longleftrightarrow> a \<le> b"
  by (simp add: from_DATE_def)

lemma to_from_DATE [simp]: "to_DATE (from_DATE a) = a"
  by (simp add: from_DATE_def to_DATE_def)

lemma from_DATE_next: "from_DATE a + 86400000 = from_DATE (a + 1)"
  by (simp add: from_DATE_def algebra_simps)

lemma setDate_next_fixed_offset:
  "setDate_next (fixed_offset c) (from_DATE a) = from_DATE (a + 1)"
  by (simp add: setDate_next_def LocalTime_def UTC_def fixed_offset_def from_DATE_def
      algebra_simps)

lemma dateRange_fixed_offset:
  "dateRange (fixed_offset c) (from_DATE a) (from_DATE b) = Some (midnights a b)"
  unfolding midnights_def
proof (induction a b rule: upto.induct)
  case (1 i j)
  show ?case
  proof (cases "i \<le> j")
    case True
    with 1 show ?thesis
      by (subst dateRange.simps, subst upto.simps) (simp add: setDate_next_fixed_offset)
  next
    case False
    then show ?thesis
      by (subst dateRange.simps, subst upto.simps) simp
  qed
qed

lemma midnights_days: "map to_DATE (midnights a b) = [a..b]"
  by (simp add: midnights_def comp_def)

lemma midnights_Nil: "midnights a b \<noteq> [] \<longleftrightarrow> a \<le> b"
  unfolding midnights_def by (subst upto.simps) simp


lemma run_all_succeeds:
  assumes "Q tx"
    and "\<forall>operation\<in>set operations. \<forall>t. Q t \<longrightarrow> (\<exists>t'. operation t = Inr t' \<and> Q t')"
  shows "\<exists>tx'. run_all operations tx = Inr tx'"
  using assms
proof (induction operations arbitrary: tx)
  case Nil
  then show ?case by simp
next
  case (Cons operation operations)
  from Cons.prems obtain t1 where 1: "operation tx = Inr t1" "Q t1"
    by (metis list.set_intros(1))
  from Cons.IH [OF 1(2)] Cons.prems(2) obtain tx' where "run_all operations t1 = Inr tx'"
    by auto
  with 1 show ?case by simp
qed

section \<open>Approval of a leave\<close>

lemma employeeAttendance_upsert_rows:
  assumes "employeeAttendance_upsert k d u c tx = Inr tx'"
  shows "employeeAttendance tx'
     = upsert_rows (\<lambda>r. (ea_employee_id r, ea_date r) = (k, d)) u (c (next_uuid tx))
         (employeeAttendance tx)"
  using assms by (auto simp: employeeAttendance_upsert_def upsert_rows_def split: if_splits)

lemma leave_day_is_upsert:
  "is_upsert employeeAttendance (\<lambda>r. (ea_employee_id r, ea_date r))
     (\<lambda>r. ea_status r = on_leave \<and> ea_remarks r = Some (''Approved Leave: '' @ el_reason leave))
     (el_employee_id leave, to_DATE date) (leave_day_upsert leave date)"
  unfolding is_upsert_def leave_day_upsert_def
proof (intro allI impI)
  fix t t'
  assume "employeeAttendance_upsert (el_employee_id leave) (to_DATE date)
           (\<lambda>r. r\<lparr>ea_status := on_leave, ea_source := manual,
                   ea_remarks := Some (''Approved Leave: '' @ el_reason leave)\<rparr>)
           (\<lambda>n. \<lparr>ea_attendance_id = n, ea_employee_id = el_employee_id leave,
                  ea_date = to_DATE date, ea_status = on_leave, ea_check_in_time = None,
                  ea_check_out_time = None, ea_source = manual,
                  ea_remarks = Some (''Approved Leave: '' @ el_reason leave)\<rparr>) t = Inr t'"
  from employeeAttendance_upsert_rows [OF this]
  show "\<exists>u new. employeeAttendance t'
          = upsert_rows (\<lambda>r. (ea_employee_id r, ea_date r) = (el_employee_id leave, to_DATE date))
              u new (employeeAttendance t)
        \<and> (\<forall>r. (ea_employee_id r, ea_date r) = (el_employee_id leave, to_DATE date) \<longrightarrow>
              (ea_employee_id (u r), ea_date (u r)) = (el_employee_id leave, to_DATE date)
              \<and> ea_status (u r) = on_leave
              \<and> ea_remarks (u r) = Some (''Approved Leave: '' @ el_reason leave))
        \<and> (ea_employee_id new, ea_date new) = (el_employee_id leave, to_DATE date)
        \<and> ea_status new = on_leave
        \<and> ea_remarks new = Some (''Approved Leave: '' @ el_reason leave)"
    by (intro exI conjI, assumption) simp_all
qed

lemma leave_days_fail:
  assumes "run_all (map (leave_day_upsert leave) dates) tx = Inl e"
  shows "el_employee_id leave \<notin> set (employees tx)"
proof
  assume "el_employee_id leave \<in> set (employees tx)"
  then have "\<exists>tx'. run_all (map (leave_day_upsert leave) dates) tx = Inr tx'"
    by (rule run_all_succeeds [where Q = "\<lambda>t. el_employee_id leave \<in> set (employees t)"])
       (auto simp: leave_day_upsert_def employeeAttendance_upsert_def)
  with assms show False by simp
qed

lemma updateLeaveStatus_approved_eq:
  assumes "find (\<lambda>l. el_leave_id l = leaveId) (employeeLeaves s) = Some old"
  shows "updateLeaveStatus LocalTZA s leaveId (Some ''approved'') reason
     = (case dateRange LocalTZA (from_DATE (el_start_date old)) (from_DATE (el_end_date old)) of
          None \<Rightarrow> None
        | Some dates \<Rightarrow>
            Some (case run_all (map (leave_day_upsert (old\<lparr>el_status := approved\<rparr>)) dates)
                         (approval_tx2 s leaveId reason) of
                    Inl e \<Rightarrow> (Inl e, s)
                  | Inr tx3 \<Rightarrow> (Inr (old\<lparr>el_status := approved\<rparr>), tx3)))"
  using assms
  by (simp add: updateLeaveStatus_def updateLeaveStatus_tx_def transaction_partial_def falsy_def
      leave_statuses_def Let_def approval_tx2_def split: sum.splits option.splits)

text \<open>
  What an approval writes, in terms of the dates that the loop collects: the request
  runs in one transaction. When it succeeds, the leave has status approved, the history
  has exactly one more row (approved, with the comment of the request), every UTC day of
  a collected date has exactly one attendance row of the employee, with status on_leave
  and the remark Approved Leave followed by the reason of the leave, and the attendance
  rows of other keys are the ones of before. When it fails (the employee of the leave is
  missing, so the attendance row cannot be inserted), the store is the one before the
  request. The fourth hypothesis is the unique key (employee_id, date) of the table.
\<close>

lemma updateLeaveStatus_approved_dates:
  assumes upd: "updateLeaveStatus LocalTZA s leaveId (Some ''approved'') reason = Some (res, s')"
    and old: "find (\<lambda>l. el_leave_id l = leaveId) (employeeLeaves s) = Some old"
    and dr: "dateRange LocalTZA (from_DATE (el_start_date old)) (from_DATE (el_end_date old))
               = Some dates"
    and dist: "distinct (map (\<lambda>r. (ea_employee_id r, ea_date r)) (employeeAttendance s))"
  shows "case res of
           Inl e \<Rightarrow> s' = s \<and> el_employee_id old \<notin> set (employees s)
         | Inr leave \<Rightarrow>
             leave = old\<lparr>el_status := approved\<rparr>
             \<and> employeeLeaves s'
                 = map (\<lambda>l. if el_leave_id l = leaveId then l\<lparr>el_status := approved\<rparr> else l)
                     (employeeLeaves s)
             \<and> leaveStatusHistory s'
                 = leaveStatusHistory s
                     @ [\<lparr>h_history_id = next_uuid s, h_leave_id = leaveId, h_status = approved,
                         h_comment = reason\<rparr>]
             \<and> distinct (map (\<lambda>r. (ea_employee_id r, ea_date r)) (employeeAttendance s'))
             \<and> (\<forall>d \<in> to_DATE ` set dates.
                   \<exists>r. filter (\<lambda>r. ea_employee_id r = el_employee_id old \<and> ea_date r = d)
                           (employeeAttendance s') = [r]
                      \<and> ea_status r = on_leave
                      \<and> ea_remarks r = Some (''Approved Leave: '' @ el_reason old))
             \<and> filter (\<lambda>r. \<not> (ea_employee_id r = el_employee_id old
                                \<and> ea_date r \<in> to_DATE ` set dates))
                  (employeeAttendance s')
                 = filter (\<lambda>r. \<not> (ea_employee_id r = el_employee_id old
                                \<and> ea_date r \<in> to_DATE ` set dates))
                     (employeeAttendance s)"
proof -
  let ?leave = "old\<lparr>el_status := approved\<rparr>"
  let ?tx2 = "approval_tx2 s leaveId reason"
  let ?key = "\<lambda>r. (ea_employee_id r, ea_date r)"
  let ?P = "\<lambda>r. ea_status r = on_leave \<and> ea_remarks r = Some (''Approved Leave: '' @ el_reason old)"
  let ?kf = "\<lambda>date. (el_employee_id old, to_DATE date)"
  note eq = updateLeaveStatus_approved_eq [OF old, of LocalTZA reason, unfolded dr, simplified]
  show ?thesis
  proof (cases "run_all (map (leave_day_upsert ?leave) dates) ?tx2")
    case (Inl e)
    from leave_days_fail [OF Inl] have no: "el_employee_id old \<notin> set (employees s)"
      by (simp add: approval_tx2_def)
    from upd eq Inl have "res = Inl e" and "s' = s" by simp_all
    with no show ?thesis by simp
  next
    case (Inr tx3)
    with upd eq have res: "res = Inr ?leave" and s': "s' = tx3" by simp_all
    from leave_days_frame [OF Inr]
    have fr: "leaveStatusHistory tx3 = leaveStatusHistory ?tx2"
      "employeeLeaves tx3 = employeeLeaves ?tx2" by simp_all
    have d2: "distinct (map ?key (employeeAttendance ?tx2))"
      using dist by (simp add: approval_tx2_def)
    have ups: "\<forall>x\<in>set dates. is_upsert employeeAttendance ?key ?P (?kf x)
                 (leave_day_upsert ?leave x)"
      using leave_day_is_upsert [of ?leave] by simp
    from run_all_upserts [OF Inr d2 ups]
    have d3: "distinct (map ?key (employeeAttendance tx3))"
      and ex: "\<forall>x\<in>set dates. \<exists>r\<in>set (employeeAttendance tx3). ?key r = ?kf x \<and> ?P r"
      and fl: "filter (\<lambda>r. ?key r \<notin> ?kf ` set dates) (employeeAttendance tx3)
             = filter (\<lambda>r. ?key r \<notin> ?kf ` set dates) (employeeAttendance ?tx2)"
      by blast+
    have keys: "?kf ` set dates = {el_employee_id old} \<times> to_DATE ` set dates"
      by (auto simp: image_iff)
    have one: "\<exists>r. filter (\<lambda>r. ea_employee_id r = el_employee_id old \<and> ea_date r = d)
                           (employeeAttendance tx3) = [r] \<and> ?P r"
      if "d \<in> to_DATE ` set dates" for d
    proof -
      from that obtain x where "x \<in> set dates" "to_DATE x = d" by blast
      with ex obtain r where r: "r \<in> set (employeeAttendance tx3)"
        "?key r = (el_employee_id old, d)" "?P r" by blast
      from distinct_key_filter [OF d3 r(1)] r(2)
      have "filter (\<lambda>r. ea_employee_id r = el_employee_id old \<and> ea_date r = d)
              (employeeAttendance tx3) = [r]"
        by (simp add: prod_eq_iff)
      with r(3) show ?thesis by blast
    qed
    have out: "filter (\<lambda>r. \<not> (ea_employee_id r = el_employee_id old
                                \<and> ea_date r \<in> to_DATE ` set dates))
                  (employeeAttendance tx3)
                 = filter (\<lambda>r. \<not> (ea_employee_id r = el_employee_id old
                                \<and> ea_date r \<in> to_DATE ` set dates))
                     (employeeAttendance s)"
      using fl unfolding keys by (simp add: approval_tx2_def)
    show ?thesis
      unfolding res s' using fr d3 one out by (simp add: approval_tx2_def)
  qed
qed

text \<open>
  In a time zone with a fixed offset from UTC the loop collects the UTC midnight of
  every day from the start date to the end date of the leave. A successful approval
  then leaves exactly one attendance row of the employee for every calendar day of the
  leave, with status on_leave and the remark of the leave, as many rows as the leave
  has days, and the attendance rows outside the range are the ones of before.
\<close>

theorem updateLeaveStatus_approved:
  assumes upd: "updateLeaveStatus (fixed_offset c) s leaveId (Some ''approved'') reason
                  = Some (res, s')"
    and old: "find (\<lambda>l. el_leave_id l = leaveId) (employeeLeaves s) = Some old"
    and dist: "distinct (map (\<lambda>r. (ea_employee_id r, ea_date r)) (employeeAttendance s))"
  shows "case res of
           Inl e \<Rightarrow> s' = s \<and> el_employee_id old \<notin> set (employees s)
         | Inr leave \<Rightarrow>
             leave = old\<lparr>el_status := approved\<rparr>
             \<and> employeeLeaves s'
                 = map (\<lambda>l. if el_leave_id l = leaveId then l\<lparr>el_status := approved\<rparr> else l)
                     (employeeLeaves s)
             \<and> leaveStatusHistory s'
                 = leaveStatusHistory s
                     @ [\<lparr>h_history_id = next_uuid s, h_leave_id = leaveId, h_status = approved,
                         h_comment = reason\<rparr>]
             \<and> (\<forall>d. el_start_date old \<le> d \<and> d \<le> el_end_date old \<longrightarrow>
                   (\<exists>r. filter (\<lambda>r. ea_employee_id r = el_employee_id old \<and> ea_date r = d)
                           (employeeAttendance s') = [r]
                        \<and> ea_status r = on_leave
                        \<and> ea_remarks r = Some (''Approved Leave: '' @ el_reason old)))
             \<and> length (filter (\<lambda>r. ea_employee_id r = el_employee_id old
                                  \<and> el_start_date old \<le> ea_date r \<and> ea_date r \<le> el_end_date old)
                          (employeeAttendance s'))
                 = nat (el_end_date old - el_start_date old + 1)
             \<and> filter (\<lambda>r. \<not> (ea_employee_id r = el_employee_id old
                                \<and> el_start_date old \<le> ea_date r \<and> ea_date r \<le> el_end_date old))
                  (employeeAttendance s')
                 = filter (\<lambda>r. \<not> (ea_employee_id r = el_employee_id old
                                \<and> el_start_date old \<le> ea_date r \<and> ea_date r \<le> el_end_date old))
                     (employeeAttendance s)"
proof -
  let ?dates = "midnights (el_start_date old) (el_end_date old)"
  let ?key = "\<lambda>r. (ea_employee_id r, ea_date r)"
  have days: "to_DATE ` set ?dates = {el_start_date old..el_end_date old}"
    using midnights_days [of "el_start_date old" "el_end_date old"]
    by (metis set_map set_upto)
  note d = updateLeaveStatus_approved_dates [OF upd old dateRange_fixed_offset dist,
      unfolded days]
  show ?thesis
  proof (cases res)
    case (Inl e)
    with d show ?thesis by simp
  next
    case (Inr leave)
    with d have d3: "distinct (map ?key (employeeAttendance s'))"
      and one: "\<forall>d \<in> {el_start_date old..el_end_date old}.
                   \<exists>r. filter (\<lambda>r. ea_employee_id r = el_employee_id old \<and> ea_date r = d)
                           (employeeAttendance s') = [r]
                      \<and> ea_status r = on_leave
                      \<and> ea_remarks r = Some (''Approved Leave: '' @ el_reason old)"
      by simp_all
    have sub: "{el_employee_id old} \<times> {el_start_date old..el_end_date old}
        \<subseteq> ?key ` set (employeeAttendance s')"
    proof
      fix k assume "k \<in> {el_employee_id old} \<times> {el_start_date old..el_end_date old}"
      then obtain dd where k: "k = (el_employee_id old, dd)"
        "dd \<in> {el_start_date old..el_end_date old}" by auto
      with one obtain r where
        "filter (\<lambda>r. ea_employee_id r = el_employee_id old \<and> ea_date r = dd)
           (employeeAttendance s') = [r]" by blast
      then have "r \<in> set (filter (\<lambda>r. ea_employee_id r = el_employee_id old \<and> ea_date r = dd)
           (employeeAttendance s'))" by simp
      then show "k \<in> ?key ` set (employeeAttendance s')"
        using k(1) by force
    qed
    have "length (filter (\<lambda>r. ?key r \<in> {el_employee_id old} \<times> {el_start_date old..el_end_date old})
                    (employeeAttendance s'))
        = card ({el_employee_id old} \<times> {el_start_date old..el_end_date old})"
      by (rule distinct_key_count [OF d3 sub])
    then have cnt: "length (filter (\<lambda>r. ea_employee_id r = el_employee_id old
                                  \<and> el_start_date old \<le> ea_date r \<and> ea_date r \<le> el_end_date old)
                          (employeeAttendance s'))
                 = nat (el_end_date old - el_start_date old + 1)"
      by (simp add: card_cartesian_product)
    from d Inr cnt show ?thesis by simp
  qed
qed

theorem updateLeaveStatus_approved_witness:
  "length (filter (\<lambda>r. ea_employee_id r = 5 \<and> 20270 \<le> ea_date r \<and> ea_date r \<le> 20272)
             (employeeAttendance store_leave_approved)) = 3
   \<and> map (\<lambda>r. (ea_date r, ea_status r, ea_remarks r)) (employeeAttendance store_leave_approved)
       = [(20270, on_leave, Some ''Approved Leave: Fever''),
          (20271, on_leave, Some ''Approved Leave: Fever''),
          (20272, on_leave, Some ''Approved Leave: Fever'')]
   \<and> map h_status (leaveStatusHistory store_leave_approved) = [pending, approved]
   \<and> updateLeaveStatus Asia_Kolkata store_leave_orphan 100 (Some ''approved'') None
       = Some (Inl (Error 500 (Prisma ForeignKeyViolation)), store_leave_orphan)"
proof -
  have old: "find (\<lambda>l. el_leave_id l = 100) (employeeLeaves store_leave_created)
      = Some \<lparr>el_leave_id = 100, el_employee_id = 5, el_leave_type = ''sick'',
               el_start_date = 20270, el_end_date = 20272, el_reason = ''Fever'',
               el_status = pending\<rparr>"
    by (simp add: store_leave_created_eq empty_store_def)
  have dist: "distinct (map (\<lambda>r. (ea_employee_id r, ea_date r))
                         (employeeAttendance store_leave_created))"
    by (simp add: store_leave_created_eq empty_store_def)
  have 1: "length (filter (\<lambda>r. ea_employee_id r = 5 \<and> 20270 \<le> ea_date r \<and> ea_date r \<le> 20272)
             (employeeAttendance store_leave_approved)) = 3"
    using updateLeaveStatus_approved [OF approve_created [unfolded Asia_Kolkata_def] old dist]
    by simp
  have 2: "map (\<lambda>r. (ea_date r, ea_status r, ea_remarks r)) (employeeAttendance store_leave_approved)
       = [(20270, on_leave, Some ''Approved Leave: Fever''),
          (20271, on_leave, Some ''Approved Leave: Fever''),
          (20272, on_leave, Some ''Approved Leave: Fever'')]
     \<and> map h_status (leaveStatusHistory store_leave_approved) = [pending, approved]"
    by (simp add: store_leave_approved_eq empty_store_def)
  have old': "find (\<lambda>l. el_leave_id l = 100) (employeeLeaves store_leave_orphan)
      = Some \<lparr>el_leave_id = 100, el_employee_id = 5, el_leave_type = ''sick'',
               el_start_date = 20270, el_end_date = 20272, el_reason = ''Fever'',
               el_status = pending\<rparr>"
    by (simp add: store_leave_orphan_def store_leave_created_eq empty_store_def)
  have dist': "distinct (map (\<lambda>r. (ea_employee_id r, ea_date r))
                         (employeeAttendance store_leave_orphan))"
    by (simp add: store_leave_orphan_def store_leave_created_eq empty_store_def)
  have "\<exists>r. updateLeaveStatus (fixed_offset 19800000) store_leave_orphan 100 (Some ''approved'') None
       = Some (Inl (Error 500 (Prisma ForeignKeyViolation)), r)"
    by (simp add: store_leave_orphan_def store_leave_created_eq updateLeaveStatus_def
      updateLeaveStatus_tx_def transaction_partial_def falsy_def leave_statuses_def Let_def
      from_DATE_def to_DATE_def zone_eval leave_day_upsert_def
      employeeAttendance_upsert_def empty_store_def)
  then obtain r where e: "updateLeaveStatus (fixed_offset 19800000) store_leave_orphan 100
       (Some ''approved'') None = Some (Inl (Error 500 (Prisma ForeignKeyViolation)), r)"
    by blast
  from updateLeaveStatus_approved [OF e old' dist']
  have 3: "r = store_leave_orphan" by simp
  from 1 2 e 3 show ?thesis by (simp add: Asia_Kolkata_def)
qed

section \<open>Attendance upserts\<close>

lemma studentAttendance_upsert_rows:
  assumes "studentAttendance_upsert k d u c tx = Inr tx'"
  shows "studentAttendance tx'
     = upsert_rows (\<lambda>r. (sa_student_id r, sa_date r) = (k, d)) u (c (next_uuid tx))
         (studentAttendance tx)"
  using assms by (auto simp: studentAttendance_upsert_def upsert_rows_def split: if_splits)

lemma studentAttendance_upsert_frame:
  assumes "studentAttendance_upsert k d u c tx = Inr tx'"
  shows "leaveStatusHistory tx' = leaveStatusHistory tx"
    and "employeeLeaves tx' = employeeLeaves tx"
    and "employeeAttendance tx' = employeeAttendance tx"
    and "classes tx' = classes tx"
    and "academicYears tx' = academicYears tx"
  using assms by (auto simp: studentAttendance_upsert_def split: if_splits)

lemma upsert_rows_length:
  assumes "list_ex matches rows"
  shows "length (upsert_rows matches u new rows) = length rows"
  using assms by (simp add: upsert_rows_def)

lemma single_record_success:
  assumes "upsertStudentAttendance new_Date s standard sectionName date
             (Some [\<lparr>r_studentId = Some P, r_status = Some st, r_remarks = rm\<rparr>]) = (Inr n, s1)"
  shows "\<exists>classId t stat. new_Date (the date @ ''T00:00:00.000Z'') = Some t
           \<and> map_of validStatuses st = Some stat \<and> n = 1
           \<and> studentAttendance_upsert P (to_DATE t)
                (\<lambda>r. r\<lparr>sa_status := stat, sa_remarks := remarks_or_null rm\<rparr>)
                (\<lambda>n. \<lparr>sa_attendance_id = n, sa_student_id = P, sa_class_id = classId,
                       sa_date = to_DATE t, sa_status = stat,
                       sa_remarks = remarks_or_null rm\<rparr>) s = Inr s1"
  using assms
  by (auto simp: upsertStudentAttendance_def upsert_of_record_def transaction_all_def
      transaction_def
      split: if_splits option.splits sum.splits prod.splits)

lemma upsert_twice:
  assumes dist: "distinct (map (\<lambda>r. (sa_student_id r, sa_date r)) (studentAttendance s))"
    and 1: "upsertStudentAttendance new_Date s standard sectionName date
             (Some [\<lparr>r_studentId = Some P, r_status = Some st1, r_remarks = rm1\<rparr>]) = (Inr n1, s1)"
    and 2: "upsertStudentAttendance new_Date s1 standard sectionName date
             (Some [\<lparr>r_studentId = Some P, r_status = Some st2, r_remarks = rm2\<rparr>]) = (Inr n2, s2)"
  shows "\<exists>t r. new_Date (the date @ ''T00:00:00.000Z'') = Some t
            \<and> filter (\<lambda>r. sa_student_id r = P \<and> sa_date r = to_DATE t) (studentAttendance s2) = [r]
            \<and> Some (sa_status r) = map_of validStatuses st2
            \<and> sa_remarks r = remarks_or_null rm2
            \<and> length (studentAttendance s2) = length (studentAttendance s1)
            \<and> n1 = 1 \<and> n2 = 1"
proof -
  let ?key = "\<lambda>r. (sa_student_id r, sa_date r)"
  from single_record_success [OF 1] obtain cls1 t stat1 where
    t: "new_Date (the date @ ''T00:00:00.000Z'') = Some t" and n1: "n1 = 1"
    and u1: "studentAttendance_upsert P (to_DATE t)
                (\<lambda>r. r\<lparr>sa_status := stat1, sa_remarks := remarks_or_null rm1\<rparr>)
                (\<lambda>n. \<lparr>sa_attendance_id = n, sa_student_id = P, sa_class_id = cls1,
                       sa_date = to_DATE t, sa_status = stat1,
                       sa_remarks = remarks_or_null rm1\<rparr>) s = Inr s1"
    by blast
  from single_record_success [OF 2] t obtain cls2 stat2 where
    st2: "map_of validStatuses st2 = Some stat2" and n2: "n2 = 1"
    and u2: "studentAttendance_upsert P (to_DATE t)
                (\<lambda>r. r\<lparr>sa_status := stat2, sa_remarks := remarks_or_null rm2\<rparr>)
                (\<lambda>n. \<lparr>sa_attendance_id = n, sa_student_id = P, sa_class_id = cls2,
                       sa_date = to_DATE t, sa_status = stat2,
                       sa_remarks = remarks_or_null rm2\<rparr>) s1 = Inr s2"
    by auto
  note r1 = studentAttendance_upsert_rows [OF u1]
  note r2 = studentAttendance_upsert_rows [OF u2]
  have d1: "distinct (map ?key (studentAttendance s1))"
    unfolding r1 using dist by (intro upsert_rows_distinct) auto
  have d2: "distinct (map ?key (studentAttendance s2))"
    unfolding r2 using d1 by (intro upsert_rows_distinct) auto
  have h1: "\<exists>r\<in>set (studentAttendance s1). ?key r = (P, to_DATE t) \<and> True"
    unfolding r1 by (intro upsert_rows_has) auto
  then have "list_ex (\<lambda>r. ?key r = (P, to_DATE t)) (studentAttendance s1)"
    by (auto simp: list_ex_iff)
  then have len: "length (studentAttendance s2) = length (studentAttendance s1)"
    unfolding r2 by (rule upsert_rows_length)
  have "\<exists>r\<in>set (studentAttendance s2). ?key r = (P, to_DATE t)
          \<and> (sa_status r = stat2 \<and> sa_remarks r = remarks_or_null rm2)"
    unfolding r2 by (intro upsert_rows_has) auto
  then obtain r where r: "r \<in> set (studentAttendance s2)" "?key r = (P, to_DATE t)"
    "sa_status r = stat2" "sa_remarks r = remarks_or_null rm2" by blast
  from distinct_key_filter [OF d2 r(1)] r(2)
  have "filter (\<lambda>r. sa_student_id r = P \<and> sa_date r = to_DATE t) (studentAttendance s2) = [r]"
    by (simp add: prod_eq_iff)
  with t r st2 len n1 n2 show ?thesis by auto
qed

lemma upsertOperations_product:
  "upsertOperations new_Date stat checkIn checkOut reason dates employeeIds
     = map (\<lambda>(date, employeeId). bulk_upsert new_Date stat checkIn checkOut reason date employeeId)
         (List.product dates employeeIds)"
  by (induction dates) (simp_all add: upsertOperations_def)

lemma bulk_is_upsert:
  "is_upsert employeeAttendance (\<lambda>r. (ea_employee_id r, ea_date r)) (\<lambda>r. ea_status r = stat)
     (employeeId, to_DATE date)
     (bulk_upsert new_Date stat checkIn checkOut reason date employeeId)"
  unfolding is_upsert_def
proof (intro allI impI)
  fix t t'
  assume a: "bulk_upsert new_Date stat checkIn checkOut reason date employeeId t = Inr t'"
  then obtain ci co where
    "employeeAttendance_upsert employeeId (to_DATE date)
       (attendanceData_update employeeId date stat ci co reason manual_bulk)
       (attendanceData_create employeeId date stat ci co reason manual_bulk) t = Inr t'"
    by (auto simp: bulk_upsert_def split: option.splits)
  from employeeAttendance_upsert_rows [OF this]
  show "\<exists>u new. employeeAttendance t'
          = upsert_rows (\<lambda>r. (ea_employee_id r, ea_date r) = (employeeId, to_DATE date))
              u new (employeeAttendance t)
        \<and> (\<forall>r. (ea_employee_id r, ea_date r) = (employeeId, to_DATE date) \<longrightarrow>
              (ea_employee_id (u r), ea_date (u r)) = (employeeId, to_DATE date)
              \<and> ea_status (u r) = stat)
        \<and> (ea_employee_id new, ea_date new) = (employeeId, to_DATE date)
        \<and> ea_status new = stat"
    by (intro exI conjI, assumption)
       (simp_all add: attendanceData_update_def attendanceData_create_def)
qed

lemma bulk_success:
  assumes "markBulkAttendance LocalTZA new_Date s (Some employeeIds) (Some startDate)
             (Some endDate) (Some st) checkIn checkOut reason = Some (Inr n, s')"
    and "new_Date startDate = Some t1" and "new_Date endDate = Some t2"
  shows "\<exists>stat dates. dateRange LocalTZA t1 t2 = Some dates
           \<and> map_of validStatuses st = Some stat \<and> dates \<noteq> []
           \<and> n = length dates * length employeeIds
           \<and> run_all (upsertOperations new_Date stat checkIn checkOut reason
                         dates employeeIds) s = Inr s'"
proof -
  have len: "length (upsertOperations new_Date stat checkIn checkOut reason dates employeeIds)
      = length dates * length employeeIds" for stat dates
    by (simp add: upsertOperations_product)
  show ?thesis
    using assms
    by (auto simp: markBulkAttendance_def transaction_all_def transaction_def Let_def len
        split: if_splits option.splits sum.splits prod.splits)
qed

lemma bulk_range:
  assumes dist: "distinct (map (\<lambda>r. (ea_employee_id r, ea_date r)) (employeeAttendance s))"
    and m: "markBulkAttendance (fixed_offset c) new_Date s (Some employeeIds) (Some startDate)
             (Some endDate) (Some st) checkIn checkOut reason = Some (Inr n, s')"
    and sd: "new_Date startDate = Some (from_DATE a)"
    and ed: "new_Date endDate = Some (from_DATE b)"
  shows "a \<le> b \<and> n = nat (b - a + 1) * length employeeIds
     \<and> (\<forall>e\<in>set employeeIds. \<forall>d\<in>{a..b}.
           \<exists>r. filter (\<lambda>r. ea_employee_id r = e \<and> ea_date r = d) (employeeAttendance s') = [r]
              \<and> Some (ea_status r) = map_of validStatuses st)
     \<and> filter (\<lambda>r. \<not> (ea_employee_id r \<in> set employeeIds \<and> a \<le> ea_date r \<and> ea_date r \<le> b))
          (employeeAttendance s')
        = filter (\<lambda>r. \<not> (ea_employee_id r \<in> set employeeIds \<and> a \<le> ea_date r \<and> ea_date r \<le> b))
            (employeeAttendance s)"
proof -
  let ?dates = "midnights a b"
  let ?key = "\<lambda>r. (ea_employee_id r, ea_date r)"
  let ?kf = "\<lambda>(date, e). (e, to_DATE date)"
  from bulk_success [OF m sd ed] obtain stat where
    stat: "map_of validStatuses st = Some stat" and ne: "?dates \<noteq> []"
    and n: "n = length ?dates * length employeeIds"
    and run: "run_all (upsertOperations new_Date stat checkIn checkOut reason ?dates employeeIds) s
                = Inr s'"
    unfolding dateRange_fixed_offset by auto
  have ab: "a \<le> b"
    using ne by (simp add: midnights_Nil)
  have "length ?dates = length (map to_DATE ?dates)" by simp
  also have "\<dots> = nat (b - a + 1)" unfolding midnights_days by simp
  finally have len: "length ?dates = nat (b - a + 1)" .
  have days: "to_DATE ` set ?dates = {a..b}"
    using midnights_days [of a b] by (metis set_map set_upto)
  have keys: "?kf ` set (List.product ?dates employeeIds) = set employeeIds \<times> {a..b}"
    using days by (auto simp: image_iff) force
  have ups: "\<forall>x\<in>set (List.product ?dates employeeIds).
      is_upsert employeeAttendance ?key (\<lambda>r. ea_status r = stat) (?kf x)
        (case x of (date, employeeId) \<Rightarrow>
           bulk_upsert new_Date stat checkIn checkOut reason date employeeId)"
    using bulk_is_upsert by (auto simp del: set_product)
  from run_all_upserts [OF run [unfolded upsertOperations_product] dist ups]
  have d': "distinct (map ?key (employeeAttendance s'))"
    and ex: "\<forall>x\<in>set (List.product ?dates employeeIds).
               \<exists>r\<in>set (employeeAttendance s'). ?key r = ?kf x \<and> ea_status r = stat"
    and fl: "filter (\<lambda>r. ?key r \<notin> ?kf ` set (List.product ?dates employeeIds))
               (employeeAttendance s')
           = filter (\<lambda>r. ?key r \<notin> ?kf ` set (List.product ?dates employeeIds))
               (employeeAttendance s)"
    by blast+
  have one: "\<exists>r. filter (\<lambda>r. ea_employee_id r = e \<and> ea_date r = d) (employeeAttendance s') = [r]
              \<and> Some (ea_status r) = map_of validStatuses st"
    if "e \<in> set employeeIds" "d \<in> {a..b}" for e d
  proof -
    from that keys have "(e, d) \<in> ?kf ` set (List.product ?dates employeeIds)" by simp
    then obtain x where "x \<in> set (List.product ?dates employeeIds)" "?kf x = (e, d)"
      by (metis (no_types, lifting) imageE)
    with ex obtain r where r: "r \<in> set (employeeAttendance s')" "?key r = (e, d)"
      "ea_status r = stat" by metis
    from distinct_key_filter [OF d' r(1)] r(2)
    have "filter (\<lambda>r. ea_employee_id r = e \<and> ea_date r = d) (employeeAttendance s') = [r]"
      by (simp add: prod_eq_iff)
    with r(3) stat show ?thesis by auto
  qed
  have out: "filter (\<lambda>r. \<not> (ea_employee_id r \<in> set employeeIds \<and> a \<le> ea_date r \<and> ea_date r \<le> b))
          (employeeAttendance s')
        = filter (\<lambda>r. \<not> (ea_employee_id r \<in> set employeeIds \<and> a \<le> ea_date r \<and> ea_date r \<le> b))
            (employeeAttendance s)"
    using fl unfolding keys by simp
  from ab n len one out show ?thesis by simp
qed


text \<open>
  First part: with the unique key (student_id, date), when \<open>upsertStudentAttendance\<close>
  records a status for student \<open>P\<close> on a date and then, in a second request, a second
  status for the same student and date, the table holds exactly one row for the student
  and the day, with the second status and remark, and the second request adds no row.
  Second part: in a time zone with a fixed offset from UTC and with the unique key
  (employee_id, date), a bulk request for a range of dates \<open>a\<close> to \<open>b\<close> (date-only
  values, parsed as UTC midnight) runs \<open>b - a + 1\<close> upserts per employee, after which
  every employee of the request has exactly one row with the requested status on every
  day from \<open>a\<close> to \<open>b\<close>, both included, and the rows of other employees or days are the
  ones of before.
\<close>

theorem attendance_upsert_idempotent_and_range:
  "(distinct (map (\<lambda>r. (sa_student_id r, sa_date r)) (studentAttendance s))
      \<and> upsertStudentAttendance new_Date s standard sectionName date
           (Some [\<lparr>r_studentId = Some P, r_status = Some st1, r_remarks = rm1\<rparr>]) = (Inr n1, s1)
      \<and> upsertStudentAttendance new_Date s1 standard sectionName date
           (Some [\<lparr>r_studentId = Some P, r_status = Some st2, r_remarks = rm2\<rparr>]) = (Inr n2, s2)
    \<longrightarrow> (\<exists>t r. new_Date (the date @ ''T00:00:00.000Z'') = Some t
            \<and> filter (\<lambda>r. sa_student_id r = P \<and> sa_date r = to_DATE t) (studentAttendance s2) = [r]
            \<and> Some (sa_status r) = map_of validStatuses st2
            \<and> sa_remarks r = remarks_or_null rm2
            \<and> length (studentAttendance s2) = length (studentAttendance s1)
            \<and> n1 = 1 \<and> n2 = 1))
   \<and> (distinct (map (\<lambda>r. (ea_employee_id r, ea_date r)) (employeeAttendance sb))
      \<and> markBulkAttendance (fixed_offset c) new_Date sb (Some employeeIds) (Some startDate)
           (Some endDate) (Some st) checkIn checkOut reason = Some (Inr n, sb')
      \<and> new_Date startDate = Some (from_DATE a) \<and> new_Date endDate = Some (from_DATE b)
    \<longrightarrow> a \<le> b \<and> n = nat (b - a + 1) * length employeeIds
        \<and> (\<forall>e\<in>set employeeIds. \<forall>d\<in>{a..b}.
              \<exists>r. filter (\<lambda>r. ea_employee_id r = e \<and> ea_date r = d) (employeeAttendance sb') = [r]
                 \<and> Some (ea_status r) = map_of validStatuses st)
        \<and> filter (\<lambda>r. \<not> (ea_employee_id r \<in> set employeeIds \<and> a \<le> ea_date r \<and> ea_date r \<le> b))
             (employeeAttendance sb')
           = filter (\<lambda>r. \<not> (ea_employee_id r \<in> set employeeIds \<and> a \<le> ea_date r \<and> ea_date r \<le> b))
               (employeeAttendance sb))"
proof (intro conjI impI)
  assume "distinct (map (\<lambda>r. (sa_student_id r, sa_date r)) (studentAttendance s))
      \<and> upsertStudentAttendance new_Date s standard sectionName date
           (Some [\<lparr>r_studentId = Some P, r_status = Some st1, r_remarks = rm1\<rparr>]) = (Inr n1, s1)
      \<and> upsertStudentAttendance new_Date s1 standard sectionName date
           (Some [\<lparr>r_studentId = Some P, r_status = Some st2, r_remarks = rm2\<rparr>]) = (Inr n2, s2)"
  then show "\<exists>t r. new_Date (the date @ ''T00:00:00.000Z'') = Some t
            \<and> filter (\<lambda>r. sa_student_id r = P \<and> sa_date r = to_DATE t) (studentAttendance s2) = [r]
            \<and> Some (sa_status r) = map_of validStatuses st2
            \<and> sa_remarks r = remarks_or_null rm2
            \<and> length (studentAttendance s2) = length (studentAttendance s1)
            \<and> n1 = 1 \<and> n2 = 1"
    using upsert_twice [of s new_Date standard sectionName date P st1 rm1 n1 s1 st2 rm2 n2 s2]
    by blast
next
  assume h: "distinct (map (\<lambda>r. (ea_employee_id r, ea_date r)) (employeeAttendance sb))
      \<and> markBulkAttendance (fixed_offset c) new_Date sb (Some employeeIds) (Some startDate)
           (Some endDate) (Some st) checkIn checkOut reason = Some (Inr n, sb')
      \<and> new_Date startDate = Some (from_DATE a) \<and> new_Date endDate = Some (from_DATE b)"
  note r = bulk_range [of sb c new_Date employeeIds startDate endDate st checkIn checkOut reason
      n sb' a b]
  from h r show "a \<le> b" by blast
  from h r show "n = nat (b - a + 1) * length employeeIds" by blast
  from h r show "\<forall>e\<in>set employeeIds. \<forall>d\<in>{a..b}.
              \<exists>r. filter (\<lambda>r. ea_employee_id r = e \<and> ea_date r = d) (employeeAttendance sb') = [r]
                 \<and> Some (ea_status r) = map_of validStatuses st" by blast
  from h r show "filter (\<lambda>r. \<not> (ea_employee_id r \<in> set employeeIds \<and> a \<le> ea_date r \<and> ea_date r \<le> b))
             (employeeAttendance sb')
           = filter (\<lambda>r. \<not> (ea_employee_id r \<in> set employeeIds \<and> a \<le> ea_date r \<and> ea_date r \<le> b))
               (employeeAttendance sb)" by blast
qed

lemmas attendance_eval =
  upsertStudentAttendance_def upsert_of_record_def transaction_all_def transaction_def
  falsy_def activeClass_def validStatuses_def remarks_or_null_def studentAttendance_upsert_def
  to_DATE_def new_Date_example_def store_attendance_def empty_store_def

lemma store_attendance_1_eq:
  "store_attendance_1 = store_attendance
     \<lparr>studentAttendance :=
        [\<lparr>sa_attendance_id = 100, sa_student_id = 7, sa_class_id = 1, sa_date = 20261,
          sa_status = present, sa_remarks = None\<rparr>],
      next_uuid := 101\<rparr>"
  unfolding store_attendance_1_def by (simp add: attendance_eval)

lemma store_attendance_2_eq:
  "store_attendance_2 = store_attendance
     \<lparr>studentAttendance :=
        [\<lparr>sa_attendance_id = 100, sa_student_id = 7, sa_class_id = 1, sa_date = 20261,
          sa_status = absent, sa_remarks = Some ''Sick''\<rparr>],
      next_uuid := 101\<rparr>"
  unfolding store_attendance_2_def store_attendance_1_eq by (simp add: attendance_eval)

lemma upsert_example_1:
  "upsertStudentAttendance new_Date_example store_attendance (Some ''10'') (Some ''A'')
            (Some ''2025-06-22'')
            (Some [\<lparr>r_studentId = Some 7, r_status = Some ''present'', r_remarks = None\<rparr>])
     = (Inr 1, store_attendance_1)"
  unfolding store_attendance_1_def prod_eq_iff by (simp add: attendance_eval)

lemma upsert_example_2:
  "upsertStudentAttendance new_Date_example store_attendance_1 (Some ''10'') (Some ''A'')
            (Some ''2025-06-22'')
            (Some [\<lparr>r_studentId = Some 7, r_status = Some ''absent'', r_remarks = Some ''Sick''\<rparr>])
     = (Inr 1, store_attendance_2)"
  unfolding store_attendance_2_def prod_eq_iff
  unfolding store_attendance_1_eq by (simp add: attendance_eval)

lemma bulk_example:
  "\<exists>r. markBulkAttendance Asia_Kolkata new_Date_example store_attendance (Some [5, 6])
            (Some ''2025-07-01'') (Some ''2025-07-03'') (Some ''on_leave'') None None
            (Some ''Trip'')
     = Some (Inr 6, r)
   \<and> map (\<lambda>r. (ea_employee_id r, ea_date r, ea_status r)) (employeeAttendance r)
       = [(5, 20270, on_leave), (6, 20270, on_leave), (5, 20271, on_leave),
          (6, 20271, on_leave), (5, 20272, on_leave), (6, 20272, on_leave)]"
  by (simp add: markBulkAttendance_def falsy_def validStatuses_def new_Date_example_def
      zone_eval upsertOperations_def bulk_upsert_def time_or_null_def
      transaction_all_def transaction_def employeeAttendance_upsert_def
      attendanceData_update_def attendanceData_create_def to_DATE_def
      store_attendance_def empty_store_def)

lemma store_attendance_bulk_eq:
  "markBulkAttendance Asia_Kolkata new_Date_example store_attendance (Some [5, 6])
            (Some ''2025-07-01'') (Some ''2025-07-03'') (Some ''on_leave'') None None
            (Some ''Trip'')
     = Some (Inr 6, store_attendance_bulk)
   \<and> map (\<lambda>r. (ea_employee_id r, ea_date r, ea_status r)) (employeeAttendance store_attendance_bulk)
       = [(5, 20270, on_leave), (6, 20270, on_leave), (5, 20271, on_leave),
          (6, 20271, on_leave), (5, 20272, on_leave), (6, 20272, on_leave)]"
  using bulk_example by (auto simp: store_attendance_bulk_def)

theorem attendance_upsert_idempotent_and_range_witness:
  "(\<exists>r. filter (\<lambda>r. sa_student_id r = 7 \<and> sa_date r = 20261) (studentAttendance store_attendance_2)
          = [r]
        \<and> sa_status r = absent \<and> sa_remarks r = Some ''Sick'')
   \<and> length (studentAttendance store_attendance_2) = 1
   \<and> markBulkAttendance Asia_Kolkata new_Date_example store_attendance (Some [5, 6])
            (Some ''2025-07-01'') (Some ''2025-07-03'') (Some ''on_leave'') None None
            (Some ''Trip'') = Some (Inr (3 * 2), store_attendance_bulk)
   \<and> (\<exists>r. filter (\<lambda>r. ea_employee_id r = 6 \<and> ea_date r = 20271)
             (employeeAttendance store_attendance_bulk) = [r]
        \<and> ea_status r = on_leave)"
proof -
  have d: "distinct (map (\<lambda>r. (sa_student_id r, sa_date r)) (studentAttendance store_attendance))"
    "distinct (map (\<lambda>r. (ea_employee_id r, ea_date r)) (employeeAttendance store_attendance))"
    by (simp_all add: store_attendance_def empty_store_def)
  have p: "new_Date_example ''2025-07-01'' = Some (from_DATE 20270)"
    "new_Date_example ''2025-07-03'' = Some (from_DATE 20272)"
    by (simp_all add: new_Date_example_def from_DATE_def)
  note inst = attendance_upsert_idempotent_and_range
    [of store_attendance new_Date_example "Some ''10''" "Some ''A''" "Some ''2025-06-22''"
        7 "''present''" None 1 store_attendance_1 "''absent''" "Some ''Sick''" 1
        store_attendance_2 store_attendance 19800000 "[5, 6]" "''2025-07-01''" "''2025-07-03''"
        "''on_leave''" None None "Some ''Trip''" 6 store_attendance_bulk 20270 20272]
  note bulk = store_attendance_bulk_eq [unfolded Asia_Kolkata_def]
  from inst d upsert_example_1 upsert_example_2
  have a: "\<exists>t r. new_Date_example (the (Some ''2025-06-22'') @ ''T00:00:00.000Z'') = Some t
            \<and> filter (\<lambda>r. sa_student_id r = 7 \<and> sa_date r = to_DATE t)
                 (studentAttendance store_attendance_2) = [r]
            \<and> Some (sa_status r) = map_of validStatuses ''absent''
            \<and> sa_remarks r = remarks_or_null (Some ''Sick'')
            \<and> length (studentAttendance store_attendance_2) = length (studentAttendance store_attendance_1)
            \<and> (1::nat) = 1 \<and> (1::nat) = 1"
    by blast
  then have a': "\<exists>r. filter (\<lambda>r. sa_student_id r = 7 \<and> sa_date r = 20261)
             (studentAttendance store_attendance_2) = [r]
        \<and> sa_status r = absent \<and> sa_remarks r = Some ''Sick''"
    by (auto simp: new_Date_example_def to_DATE_def validStatuses_def remarks_or_null_def
        falsy_def)
  from inst d bulk p
  have b: "\<forall>e\<in>set [5, 6]. \<forall>d\<in>{20270..20272}.
              \<exists>r. filter (\<lambda>r. ea_employee_id r = e \<and> ea_date r = d)
                     (employeeAttendance store_attendance_bulk) = [r]
                 \<and> Some (ea_status r) = map_of validStatuses ''on_leave''"
    by blast
  then have b': "\<exists>r. filter (\<lambda>r. ea_employee_id r = 6 \<and> ea_date r = 20271)
             (employeeAttendance store_attendance_bulk) = [r]
        \<and> ea_status r = on_leave"
    by (auto simp: validStatuses_def)
  from a' b' store_attendance_bulk_eq show ?thesis
    by (simp add: store_attendance_2_eq)
qed

section \<open>The leave of a student\<close>

lemma student_leave_is_upsert:
  "is_upsert studentAttendance (\<lambda>r. (sa_student_id r, sa_date r))
     (\<lambda>r. sa_status r = on_leave \<and> sa_remarks r = Some rs)
     (sid, to_DATE date) (student_leave_upsert sid classId rs date)"
  unfolding is_upsert_def student_leave_upsert_def
proof (intro allI impI)
  fix t t'
  assume "studentAttendance_upsert sid (to_DATE date)
           (\<lambda>r. r\<lparr>sa_status := on_leave, sa_remarks := Some rs\<rparr>)
           (\<lambda>n. \<lparr>sa_attendance_id = n, sa_student_id = sid, sa_class_id = classId,
                  sa_date = to_DATE date, sa_status = on_leave, sa_remarks = Some rs\<rparr>) t
         = Inr t'"
  from studentAttendance_upsert_rows [OF this]
  show "\<exists>u new. studentAttendance t'
          = upsert_rows (\<lambda>r. (sa_student_id r, sa_date r) = (sid, to_DATE date)) u new
              (studentAttendance t)
        \<and> (\<forall>r. (sa_student_id r, sa_date r) = (sid, to_DATE date) \<longrightarrow>
              (sa_student_id (u r), sa_date (u r)) = (sid, to_DATE date)
              \<and> sa_status (u r) = on_leave \<and> sa_remarks (u r) = Some rs)
        \<and> (sa_student_id new, sa_date new) = (sid, to_DATE date)
        \<and> sa_status new = on_leave \<and> sa_remarks new = Some rs"
    by (intro exI conjI, assumption) simp_all
qed

lemma student_leave_frame:
  assumes "run_all (map (student_leave_upsert sid classId rs) dates) tx = Inr tx'"
  shows "employeeLeaves tx' = employeeLeaves tx \<and> leaveStatusHistory tx' = leaveStatusHistory tx
     \<and> employeeAttendance tx' = employeeAttendance tx"
  by (rule run_all_invariant [where Q = "\<lambda>t. employeeLeaves t = employeeLeaves tx
             \<and> leaveStatusHistory t = leaveStatusHistory tx
             \<and> employeeAttendance t = employeeAttendance tx", OF assms])
     (auto simp: student_leave_upsert_def dest: studentAttendance_upsert_frame)

lemma createLeave_cases:
  assumes "createLeave LocalTZA new_Date s userId fromDate toDate reason = Some (res, s')"
  shows "(\<exists>e. res = Inl e \<and> s' = s)
     \<or> (\<exists>t1 t2 student classId rs dates. res = Inr () \<and> reason = Some rs
           \<and> new_Date (the fromDate) = Some t1 \<and> new_Date (the toDate) = Some t2
           \<and> student_of_user s userId = Some student
           \<and> dateRange LocalTZA t1 t2 = Some dates
           \<and> run_all (map (student_leave_upsert (st_student_id student) classId rs)
                         dates) s = Inr s')"
  using assms
  by (auto simp: createLeave_def transaction_all_def transaction_def falsy_def
      split: if_splits option.splits sum.splits prod.splits)

text \<open>
  In every time zone, \<open>createLeave\<close> creates no leave and no history row: the tables
  employee_leaves and leave_status_history (the only tables of leave requests and their
  statuses) and the employees' attendance are the ones of before, whatever the request;
  and a request that fails leaves the whole store unchanged.
\<close>

lemma createLeave_frame:
  assumes "createLeave LocalTZA new_Date s userId fromDate toDate reason = Some (res, s')"
  shows "employeeLeaves s' = employeeLeaves s \<and> leaveStatusHistory s' = leaveStatusHistory s
     \<and> employeeAttendance s' = employeeAttendance s
     \<and> (case res of Inl e \<Rightarrow> s' = s | Inr u \<Rightarrow> True)"
  using createLeave_cases [OF assms] by (auto dest: student_leave_frame)

text \<open>
  In a time zone with a fixed offset from UTC, a request that succeeds has upserted, in
  one transaction, the attendance of the student of the session: for date-only values
  \<open>fromDate\<close> and \<open>toDate\<close> (parsed as the UTC midnights of the days \<open>a\<close> and \<open>b\<close>) every
  day from \<open>a\<close> to \<open>b\<close> has exactly one row of the student, with status on_leave and the
  reason of the request as its remark, and the student's rows of other days and the
  rows of other students are the ones of before. The second hypothesis is the unique
  key (student_id, date).
\<close>

theorem createLeave_writes_attendance_only:
  assumes cl: "createLeave (fixed_offset c) new_Date s userId fromDate toDate reason
                 = Some (res, s')"
    and dist: "distinct (map (\<lambda>r. (sa_student_id r, sa_date r)) (studentAttendance s))"
  shows "employeeLeaves s' = employeeLeaves s \<and> leaveStatusHistory s' = leaveStatusHistory s
     \<and> employeeAttendance s' = employeeAttendance s
     \<and> (case res of
          Inl e \<Rightarrow> s' = s
        | Inr u \<Rightarrow>
            (\<exists>student. student_of_user s userId = Some student
               \<and> (\<forall>a b. new_Date (the fromDate) = Some (from_DATE a)
                         \<and> new_Date (the toDate) = Some (from_DATE b) \<longrightarrow>
                     (\<forall>d. a \<le> d \<and> d \<le> b \<longrightarrow>
                        (\<exists>r. filter (\<lambda>r. sa_student_id r = st_student_id student \<and> sa_date r = d)
                                (studentAttendance s') = [r]
                            \<and> sa_status r = on_leave \<and> sa_remarks r = reason))
                     \<and> filter (\<lambda>r. \<not> (sa_student_id r = st_student_id student
                                       \<and> a \<le> sa_date r \<and> sa_date r \<le> b))
                          (studentAttendance s')
                        = filter (\<lambda>r. \<not> (sa_student_id r = st_student_id student
                                       \<and> a \<le> sa_date r \<and> sa_date r \<le> b))
                            (studentAttendance s))))"
proof -
  from createLeave_cases [OF cl]
  consider (fail) e where "res = Inl e" "s' = s"
    | (ok) t1 t2 student classId rs dates where "res = Inr ()" "reason = Some rs"
        "new_Date (the fromDate) = Some t1" "new_Date (the toDate) = Some t2"
        "student_of_user s userId = Some student"
        "run_all (map (student_leave_upsert (st_student_id student) classId rs)
                         dates) s = Inr s'"
        "dateRange (fixed_offset c) t1 t2 = Some dates"
    by blast
  then show ?thesis
  proof cases
    case fail
    then show ?thesis by simp
  next
    case ok
    let ?sid = "st_student_id student"
    let ?key = "\<lambda>r. (sa_student_id r, sa_date r)"
    let ?P = "\<lambda>r. sa_status r = on_leave \<and> sa_remarks r = Some rs"
    let ?kf = "\<lambda>date. (?sid, to_DATE date)"
    note fr = student_leave_frame [OF ok(6)]
    have rng: "(\<forall>d. a \<le> d \<and> d \<le> b \<longrightarrow>
                        (\<exists>r. filter (\<lambda>r. sa_student_id r = ?sid \<and> sa_date r = d)
                                (studentAttendance s') = [r] \<and> ?P r))
                     \<and> filter (\<lambda>r. \<not> (sa_student_id r = ?sid \<and> a \<le> sa_date r \<and> sa_date r \<le> b))
                          (studentAttendance s')
                        = filter (\<lambda>r. \<not> (sa_student_id r = ?sid \<and> a \<le> sa_date r \<and> sa_date r \<le> b))
                            (studentAttendance s)"
      if ab: "new_Date (the fromDate) = Some (from_DATE a)"
        "new_Date (the toDate) = Some (from_DATE b)" for a b
    proof -
      let ?dates = "midnights a b"
      from ab ok(3,4) have t: "t1 = from_DATE a" "t2 = from_DATE b" by simp_all
      from ok(7) have "dates = ?dates"
        unfolding t dateRange_fixed_offset by simp
      then have run: "run_all (map (student_leave_upsert ?sid classId rs) ?dates) s = Inr s'"
        using ok(6) by simp
      have ups: "\<forall>x\<in>set ?dates. is_upsert studentAttendance ?key ?P (?kf x)
                   (student_leave_upsert ?sid classId rs x)"
        using student_leave_is_upsert by simp
      from run_all_upserts [OF run dist ups]
      have d': "distinct (map ?key (studentAttendance s'))"
        and ex: "\<forall>x\<in>set ?dates. \<exists>r\<in>set (studentAttendance s'). ?key r = ?kf x \<and> ?P r"
        and fl: "filter (\<lambda>r. ?key r \<notin> ?kf ` set ?dates) (studentAttendance s')
               = filter (\<lambda>r. ?key r \<notin> ?kf ` set ?dates) (studentAttendance s)"
        by blast+
      have days: "to_DATE ` set ?dates = {a..b}"
        using midnights_days [of a b] by (metis set_map set_upto)
      have keys: "?kf ` set ?dates = {?sid} \<times> {a..b}"
        using days by (auto simp: image_iff)
      have one: "\<exists>r. filter (\<lambda>r. sa_student_id r = ?sid \<and> sa_date r = d)
                        (studentAttendance s') = [r] \<and> ?P r"
        if "a \<le> d" "d \<le> b" for d
      proof -
        from that days obtain x where "x \<in> set ?dates" "to_DATE x = d"
          by (metis (no_types, lifting) atLeastAtMost_iff imageE)
        with ex obtain r where r: "r \<in> set (studentAttendance s')" "?key r = (?sid, d)" "?P r"
          by blast
        from distinct_key_filter [OF d' r(1)] r(2)
        have "filter (\<lambda>r. sa_student_id r = ?sid \<and> sa_date r = d) (studentAttendance s') = [r]"
          by (simp add: prod_eq_iff)
        with r(3) show ?thesis by blast
      qed
      have out: "filter (\<lambda>r. \<not> (sa_student_id r = ?sid \<and> a \<le> sa_date r \<and> sa_date r \<le> b))
                          (studentAttendance s')
                        = filter (\<lambda>r. \<not> (sa_student_id r = ?sid \<and> a \<le> sa_date r \<and> sa_date r \<le> b))
                            (studentAttendance s)"
        using fl unfolding keys by simp
      from one out show ?thesis by blast
    qed
    show ?thesis
      using fr ok(1,2,5) rng by simp
  qed
qed

lemma createLeave_example_result:
  "\<exists>r. createLeave Asia_Kolkata new_Date_example store_attendance 70 (Some ''2025-07-01'')
            (Some ''2025-07-03'') (Some ''Fever'') = Some (Inr (), r)"
  by (simp add: createLeave_def falsy_def new_Date_example_def student_of_user_def
      latest_admission_def transaction_all_def transaction_def zone_eval
      student_leave_upsert_def studentAttendance_upsert_def to_DATE_def
      store_attendance_def empty_store_def)

lemma store_student_leave_eq:
  "store_student_leave = store_attendance
     \<lparr>studentAttendance :=
        [\<lparr>sa_attendance_id = 100, sa_student_id = 7, sa_class_id = 1, sa_date = 20270,
          sa_status = on_leave, sa_remarks = Some ''Fever''\<rparr>,
         \<lparr>sa_attendance_id = 101, sa_student_id = 7, sa_class_id = 1, sa_date = 20271,
          sa_status = on_leave, sa_remarks = Some ''Fever''\<rparr>,
         \<lparr>sa_attendance_id = 102, sa_student_id = 7, sa_class_id = 1, sa_date = 20272,
          sa_status = on_leave, sa_remarks = Some ''Fever''\<rparr>],
      next_uuid := 103\<rparr>"
  unfolding store_student_leave_def
  by (simp add: createLeave_def falsy_def new_Date_example_def student_of_user_def
      latest_admission_def transaction_all_def transaction_def zone_eval
      student_leave_upsert_def studentAttendance_upsert_def to_DATE_def
      store_attendance_def empty_store_def)

lemma createLeave_example:
  "createLeave Asia_Kolkata new_Date_example store_attendance 70 (Some ''2025-07-01'')
            (Some ''2025-07-03'') (Some ''Fever'') = Some (Inr (), store_student_leave)"
  using createLeave_example_result by (auto simp: store_student_leave_def)

theorem createLeave_writes_attendance_only_witness:
  "createLeave Asia_Kolkata new_Date_example store_attendance 70 (Some ''2025-07-01'')
            (Some ''2025-07-03'') (Some ''Fever'') = Some (Inr (), store_student_leave)
   \<and> employeeLeaves store_student_leave = []
   \<and> leaveStatusHistory store_student_leave = []
   \<and> map (\<lambda>r. (sa_student_id r, sa_date r, sa_status r, sa_remarks r))
        (studentAttendance store_student_leave)
       = [(7, 20270, on_leave, Some ''Fever''), (7, 20271, on_leave, Some ''Fever''),
          (7, 20272, on_leave, Some ''Fever'')]
   \<and> (\<exists>r. filter (\<lambda>r. sa_student_id r = 7 \<and> sa_date r = 20271)
             (studentAttendance store_student_leave) = [r]
         \<and> sa_status r = on_leave \<and> sa_remarks r = Some ''Fever'')"
proof -
  have d: "distinct (map (\<lambda>r. (sa_student_id r, sa_date r)) (studentAttendance store_attendance))"
    by (simp add: store_attendance_def empty_store_def)
  have st: "student_of_user store_attendance 70 = Some \<lparr>st_student_id = 7, st_user_id = Some 70\<rparr>"
    by (simp add: student_of_user_def store_attendance_def empty_store_def)
  have p: "new_Date_example (the (Some ''2025-07-01'')) = Some (from_DATE 20270)
      \<and> new_Date_example (the (Some ''2025-07-03'')) = Some (from_DATE 20272)"
    by (simp add: new_Date_example_def from_DATE_def)
  from createLeave_writes_attendance_only [OF createLeave_example [unfolded Asia_Kolkata_def] d]
  have "employeeLeaves store_student_leave = employeeLeaves store_attendance
     \<and> leaveStatusHistory store_student_leave = leaveStatusHistory store_attendance
     \<and> (\<forall>a b. new_Date_example (the (Some ''2025-07-01'')) = Some (from_DATE a)
               \<and> new_Date_example (the (Some ''2025-07-03'')) = Some (from_DATE b) \<longrightarrow>
           (\<forall>d. a \<le> d \<and> d \<le> b \<longrightarrow>
              (\<exists>r. filter (\<lambda>r. sa_student_id r = 7 \<and> sa_date r = d)
                      (studentAttendance store_student_leave) = [r]
                  \<and> sa_status r = on_leave \<and> sa_remarks r = Some ''Fever'')))"
    by (simp add: st)
  with p have "employeeLeaves store_student_leave = [] \<and> leaveStatusHistory store_student_leave = []
     \<and> (\<exists>r. filter (\<lambda>r. sa_student_id r = 7 \<and> sa_date r = 20271)
                      (studentAttendance store_student_leave) = [r]
                  \<and> sa_status r = on_leave \<and> sa_remarks r = Some ''Fever'')"
    by (auto simp: store_attendance_def empty_store_def)
  then show ?thesis
    by (simp add: createLeave_example) (simp add: store_student_leave_eq)
qed

section \<open>Capacity of a class and admissions per year\<close>

lemma admission_createMany_result:
  assumes "admission_createMany tx rows = Inr (n, tx')"
  shows "n = length rows \<and> tx' = tx\<lparr>admissions := admissions tx @ rows\<rparr>"
  using assms by (auto simp: admission_createMany_def split: if_splits)

lemma admissionsToCreate_class:
  "length (admissionsToCreate admissionDate dateNow classId studentIds) = length studentIds
   \<and> filter (\<lambda>a. a_class_id a = c) (admissionsToCreate admissionDate dateNow classId studentIds)
       = (if c = classId then admissionsToCreate admissionDate dateNow classId studentIds else [])"
  by (auto simp: admissionsToCreate_def with_index_def Let_def filter_empty_conv filter_id_conv
      split: prod.splits)

lemma addStudentsToClass_cases:
  assumes "addStudentsToClass s admissionDate dateNow classId studentIdsOpt = (res, s')"
  shows "(\<exists>e. res = Inl e \<and> s' = s)
     \<or> (\<exists>studentIds classData. studentIdsOpt = Some studentIds \<and> studentIds \<noteq> []
          \<and> find (\<lambda>c. c_class_id c = classId) (classes s) = Some classData
          \<and> admissionCount s classId + int (length studentIds) \<le> c_capacity classData
          \<and> existingAdmissions s studentIds (c_academic_year_id classData) = []
          \<and> res = Inr (length studentIds)
          \<and> s' = s\<lparr>admissions := admissions s
                     @ admissionsToCreate admissionDate dateNow classId studentIds\<rparr>)"
proof (cases studentIdsOpt)
  case None
  with assms show ?thesis by (auto simp: addStudentsToClass_def)
next
  case (Some studentIds)
  show ?thesis
  proof (cases "studentIds = []")
    case True
    with assms Some show ?thesis by (auto simp: addStudentsToClass_def)
  next
    case nonempty: False
  show ?thesis
  proof (cases "addStudentsToClass_tx admissionDate dateNow classId studentIds s")
    case (Inl e)
    obtain st m where "e = Error st m" by (cases e)
    with assms Some Inl nonempty show ?thesis
      by (auto simp: addStudentsToClass_def transaction_def)
  next
    case (Inr p)
    obtain n tx' where p: "p = (n, tx')" by (cases p)
    from Inr p obtain classData where
      f: "find (\<lambda>c. c_class_id c = classId) (classes s) = Some classData"
      and cap: "admissionCount s classId + int (length studentIds) \<le> c_capacity classData"
      and ex: "existingAdmissions s studentIds (c_academic_year_id classData) = []"
      and cm: "admission_createMany s (admissionsToCreate admissionDate dateNow classId studentIds)
                 = Inr (n, tx')"
      by (auto simp: addStudentsToClass_tx_def Let_def split: option.splits if_splits)
    from admission_createMany_result [OF cm] admissionsToCreate_class
    have n: "n = length studentIds"
      and tx': "tx' = s\<lparr>admissions := admissions s
                     @ admissionsToCreate admissionDate dateNow classId studentIds\<rparr>"
      by simp_all
    from assms Some Inr p nonempty have "res = Inr n" "s' = tx'"
      by (auto simp: addStudentsToClass_def transaction_def)
    with f cap ex n tx' Some nonempty show ?thesis by simp
  qed
  qed
qed

lemma admit_example:
  "fst (addStudentsToClass store_one_class 1750534200000 frozen_clock 1 (Some [7])) = Inr 1
   \<and> classesOfStudent
        (snd (addStudentsToClass store_one_class 1750534200000 frozen_clock 1 (Some [7]))) 7
      = [1]"
  by (simp add: addStudentsToClass_def transaction_def addStudentsToClass_tx_def
      existingAdmissions_def admissionsToCreate_def with_index_def admission_createMany_def
      unique_violation_def digits.simps admissionCount_def upt_rec example_defs)

text \<open>
  An admission request that fails leaves the store as it was. One that succeeds adds
  as many admissions to the class as the request names students, stays within the
  capacity of the class, and changes the count of no other class.
\<close>

theorem addStudentsToClass_capacity:
  assumes "addStudentsToClass s admissionDate dateNow classId studentIdsOpt = (res, s')"
  shows "case res of
           Inl e \<Rightarrow> s' = s
         | Inr n \<Rightarrow>
             (\<exists>classData. find (\<lambda>c. c_class_id c = classId) (classes s) = Some classData
                \<and> classes s' = classes s
                \<and> admissionCount s' classId = admissionCount s classId + int n
                \<and> admissionCount s' classId \<le> c_capacity classData
                \<and> (\<forall>c. c \<noteq> classId \<longrightarrow> admissionCount s' c = admissionCount s c))"
proof -
  from addStudentsToClass_cases [OF assms] show ?thesis
  proof (elim disjE exE conjE)
    fix e assume "res = Inl e" "s' = s"
    then show ?thesis by simp
  next
    fix studentIds classData
    assume a: "find (\<lambda>c. c_class_id c = classId) (classes s) = Some classData"
      "admissionCount s classId + int (length studentIds) \<le> c_capacity classData"
      "res = Inr (length studentIds)"
      "s' = s\<lparr>admissions := admissions s
                     @ admissionsToCreate admissionDate dateNow classId studentIds\<rparr>"
    have cnt: "admissionCount s' c
        = admissionCount s c + (if c = classId then int (length studentIds) else 0)" for c
      unfolding a(4) admissionCount_def using admissionsToCreate_class [where c = c]
      by (simp del: filter_append add: filter_append [of _ "admissions s"])
    show ?thesis
      using a(1,2) by (simp add: a(3) cnt) (simp add: a(4))
  qed
qed

theorem addStudentsToClass_capacity_witness:
  "fst (addStudentsToClass store_one_class 1750534200000 frozen_clock 1 (Some [7])) = Inr 1
   \<and> admissionCount store_one_class 1 = 0
   \<and> admissionCount
        (snd (addStudentsToClass store_one_class 1750534200000 frozen_clock 1 (Some [7]))) 1 = 1
   \<and> (\<exists>classData. find (\<lambda>c. c_class_id c = 1) (classes store_one_class) = Some classData
        \<and> c_capacity classData = 30
        \<and> admissionCount
             (snd (addStudentsToClass store_one_class 1750534200000 frozen_clock 1 (Some [7]))) 1
            \<le> c_capacity classData)"
proof -
  have e: "addStudentsToClass store_one_class 1750534200000 frozen_clock 1 (Some [7])
       = (Inr 1, snd (addStudentsToClass store_one_class 1750534200000 frozen_clock 1 (Some [7])))"
    using admit_example by (simp add: prod_eq_iff)
  have z: "admissionCount store_one_class 1 = 0"
    by (simp add: admissionCount_def example_defs)
  have c: "find (\<lambda>c. c_class_id c = 1) (classes store_one_class)
      = Some \<lparr>c_class_id = 1, c_academic_year_id = 1, c_standard = ''9'', c_section = ''A'',
          c_capacity = 30\<rparr>"
    by (simp add: example_defs)
  from addStudentsToClass_capacity [OF e] admit_example z c show ?thesis by simp
qed

text \<open>
  A batch that would exceed the capacity is rejected as a whole.
\<close>

lemma over_capacity_rejected:
  assumes "find (\<lambda>c. c_class_id c = classId) (classes s) = Some classData"
    and "studentIds \<noteq> []"
    and "admissionCount s classId + int (length studentIds) > c_capacity classData"
  shows "addStudentsToClass s admissionDate dateNow classId (Some studentIds)
     = (Inl (Error 400 (Msg (''Cannot add students. Class capacity of ''
               @ show_int (c_capacity classData) @ '' would be exceeded.''))), s)"
  using assms
  by (simp add: addStudentsToClass_def addStudentsToClass_tx_def transaction_def Let_def)

lemma promoteStudents_tx_admissions:
  assumes "promoteStudents_tx studentIds targetClassId cur tcos tx = Inr (r, tx')"
  shows "classes tx' = classes tx
    \<and> admissions tx'
        = map (\<lambda>a. if a_student_id a \<in> set studentIds
                    then a\<lparr>a_class_id := targetClassId\<rparr> else a) (admissions tx)
    \<and> promotedCount r = length (filter (\<lambda>a. a_student_id a \<in> set studentIds) (admissions tx))"
  using assms
  by (auto simp: promoteStudents_tx_def admission_updateMany_def enrollment_deleteMany_def
      enrollment_createMany_def Let_def split: if_splits sum.splits)

lemma promoteStudents_cases:
  assumes "promoteStudents s studentIdsOpt targetClassIdOpt = (res, s')"
  shows "(\<exists>e. res = Inl e \<and> s' = s)
     \<or> (\<exists>studentIds targetClassId targetClass r.
           studentIdsOpt = Some studentIds \<and> studentIds \<noteq> []
         \<and> targetClassIdOpt = Some targetClassId
         \<and> find (\<lambda>c. c_class_id c = targetClassId) (classes s) = Some targetClass
         \<and> admissionCount s targetClassId + int (length studentIds) \<le> c_capacity targetClass
         \<and> res = Inr r
         \<and> promoteStudents_tx studentIds targetClassId
              (filter (\<lambda>a. a_student_id a \<in> set studentIds) (admissions s))
              (filter (\<lambda>co. co_class_id co = targetClassId) (courseOfferings s)) s
             = Inr (r, s'))"
  using assms
  by (auto simp: promoteStudents_def transaction_def Let_def
      split: option.splits if_splits sum.splits prod.splits)

lemma length_filter_le_ids:
  assumes "distinct (map f (filter (\<lambda>a. f a \<in> set ids) xs))"
  shows "length (filter (\<lambda>a. f a \<in> set ids) xs) \<le> length ids"
proof -
  have "length (filter (\<lambda>a. f a \<in> set ids) xs)
      = length (map f (filter (\<lambda>a. f a \<in> set ids) xs))" by simp
  also have "\<dots> = card (set (map f (filter (\<lambda>a. f a \<in> set ids) xs)))"
    using assms by (rule distinct_card [symmetric])
  also have "\<dots> \<le> card (set ids)"
    by (rule card_mono) auto
  also have "\<dots> \<le> length ids" by (rule card_length)
  finally show ?thesis .
qed

lemma length_filter_disj:
  "length (filter (\<lambda>a. P a \<or> Q a) xs) \<le> length (filter P xs) + length (filter Q xs)"
  by (induction xs) auto

lemma length_filter_imp:
  "(\<And>x. P x \<Longrightarrow> Q x) \<Longrightarrow> length (filter P xs) \<le> length (filter Q xs)"
  by (induction xs) auto

lemma distinct_count_le_1:
  "distinct xs \<Longrightarrow> length (filter (\<lambda>x. x = S) xs) \<le> 1"
  by (induction xs) (auto simp: filter_empty_conv)

lemma length_filter_map_cong:
  "(\<And>x. x \<in> set xs \<Longrightarrow> P (f x) = Q x)
   \<Longrightarrow> length (filter P (map f xs)) = length (filter Q xs)"
  by (induction xs) auto

lemma promote_example:
  "fst (promoteStudents store_stale_enrollment (Some [7]) (Some 2))
       = Inr \<lparr>promotedCount = 1, enrolledSubjects = 1, totalEnrollments = 1\<rparr>"
  by (simp add: promote_defs example_defs)

text \<open>
  A promotion that fails leaves the store as it was. One that succeeds adds an admission
  to no class but the target; and when no promoted student holds more than one admission,
  the target class stays within its capacity.
\<close>

theorem promoteStudents_capacity:
  assumes "promoteStudents s studentIdsOpt targetClassIdOpt = (res, s')"
  shows "case res of
           Inl e \<Rightarrow> s' = s
         | Inr r \<Rightarrow>
             (\<exists>studentIds targetClassId targetClass.
                 studentIdsOpt = Some studentIds \<and> targetClassIdOpt = Some targetClassId
               \<and> find (\<lambda>c. c_class_id c = targetClassId) (classes s) = Some targetClass
               \<and> classes s' = classes s
               \<and> promotedCount r
                   = length (filter (\<lambda>a. a_student_id a \<in> set studentIds) (admissions s))
               \<and> (\<forall>c. c \<noteq> targetClassId \<longrightarrow> admissionCount s' c \<le> admissionCount s c)
               \<and> (distinct (map a_student_id
                     (filter (\<lambda>a. a_student_id a \<in> set studentIds) (admissions s)))
                   \<longrightarrow> admissionCount s' targetClassId \<le> c_capacity targetClass))"
proof -
  from promoteStudents_cases [OF assms] show ?thesis
  proof (elim disjE exE conjE)
    fix e assume "res = Inl e" "s' = s"
    then show ?thesis by simp
  next
    fix studentIds targetClassId targetClass r
    assume a: "studentIdsOpt = Some studentIds" "targetClassIdOpt = Some targetClassId"
      "find (\<lambda>c. c_class_id c = targetClassId) (classes s) = Some targetClass"
      "admissionCount s targetClassId + int (length studentIds) \<le> c_capacity targetClass"
      "res = Inr r"
      and tx: "promoteStudents_tx studentIds targetClassId
              (filter (\<lambda>a. a_student_id a \<in> set studentIds) (admissions s))
              (filter (\<lambda>co. co_class_id co = targetClassId) (courseOfferings s)) s
             = Inr (r, s')"
    note t = promoteStudents_tx_admissions [OF tx]
    have other: "admissionCount s' c \<le> admissionCount s c" if "c \<noteq> targetClassId" for c
    proof -
      have "length (filter (\<lambda>a. a_class_id a = c) (admissions s'))
          = length (filter (\<lambda>a. a_student_id a \<notin> set studentIds \<and> a_class_id a = c)
               (admissions s))"
        unfolding t [THEN conjunct2, THEN conjunct1]
        using that by (intro length_filter_map_cong) auto
      also have "\<dots> \<le> length (filter (\<lambda>a. a_class_id a = c) (admissions s))"
        by (rule length_filter_imp) simp
      finally show ?thesis
        by (simp add: admissionCount_def)
    qed
    have target: "admissionCount s' targetClassId \<le> c_capacity targetClass"
      if d: "distinct (map a_student_id
               (filter (\<lambda>a. a_student_id a \<in> set studentIds) (admissions s)))"
    proof -
      have "length (filter (\<lambda>a. a_class_id a = targetClassId) (admissions s'))
          = length (filter (\<lambda>a. a_student_id a \<in> set studentIds \<or> a_class_id a = targetClassId)
               (admissions s))"
        unfolding t [THEN conjunct2, THEN conjunct1]
        by (intro length_filter_map_cong) auto
      also have "\<dots> \<le> length (filter (\<lambda>a. a_student_id a \<in> set studentIds) (admissions s))
                     + length (filter (\<lambda>a. a_class_id a = targetClassId) (admissions s))"
        by (rule length_filter_disj)
      also have "\<dots> \<le> length studentIds
                     + length (filter (\<lambda>a. a_class_id a = targetClassId) (admissions s))"
        using length_filter_le_ids [OF d] by simp
      finally show ?thesis
        using a(4) by (simp add: admissionCount_def)
    qed
    show ?thesis
      using a(1,2,3) t other target by (simp add: a(5))
  qed
qed

theorem promoteStudents_capacity_witness:
  "fst (promoteStudents store_stale_enrollment (Some [7]) (Some 2))
       = Inr \<lparr>promotedCount = 1, enrolledSubjects = 1, totalEnrollments = 1\<rparr>
   \<and> distinct (map a_student_id
        (filter (\<lambda>a. a_student_id a \<in> set [7]) (admissions store_stale_enrollment)))
   \<and> (\<exists>targetClass. find (\<lambda>c. c_class_id c = 2) (classes store_stale_enrollment)
          = Some targetClass
        \<and> admissionCount (snd (promoteStudents store_stale_enrollment (Some [7]) (Some 2))) 2
            \<le> c_capacity targetClass)
   \<and> admissionCount (snd (promoteStudents store_stale_enrollment (Some [7]) (Some 2))) 1
        \<le> admissionCount store_stale_enrollment 1"
proof -
  have e: "promoteStudents store_stale_enrollment (Some [7]) (Some 2)
       = (Inr \<lparr>promotedCount = 1, enrolledSubjects = 1, totalEnrollments = 1\<rparr>,
          snd (promoteStudents store_stale_enrollment (Some [7]) (Some 2)))"
    using promote_example by (simp add: prod_eq_iff)
  have d: "distinct (map a_student_id
        (filter (\<lambda>a. a_student_id a \<in> set [7]) (admissions store_stale_enrollment)))"
    by (simp add: example_defs)
  from promoteStudents_capacity [OF e] promote_example d show ?thesis by auto
qed

lemma promotion_over_capacity_rejected:
  assumes "find (\<lambda>c. c_class_id c = targetClassId) (classes s) = Some targetClass"
    and "studentIds \<noteq> []"
    and "admissionCount s targetClassId + int (length studentIds) > c_capacity targetClass"
  shows "promoteStudents s (Some studentIds) (Some targetClassId)
     = (Inl (Error 400 (Msg (''Class capacity exceeded. Capacity is ''
                                    @ show_int (c_capacity targetClass)
                                    @ '', but this action would result in ''
                                    @ show_int (admissionCount s targetClassId
                                         + int (length studentIds)) @ '' students.''))), s)"
  using assms by (simp add: promoteStudents_def Let_def)

lemma find_unique_class:
  assumes "find (\<lambda>c. c_class_id c = classId) cs = Some classData"
    and "distinct (map c_class_id cs)"
    and "c \<in> set cs" and "c_class_id c = classId"
  shows "c = classData"
proof -
  from assms(1) have "classData \<in> set cs" "c_class_id classData = classId"
    by (auto simp: find_Some_iff)
  with assms(2,3,4) show ?thesis
    by (metis distinct_map inj_onD)
qed

lemma no_admission_yet: "admissionsInYear store_one_class S Y = []"
  by (simp add: admissionsInYear_def existingAdmissions_def example_defs)

text \<open>
  When no student has more than one admission in the classes of one academic year, a
  successful admission of a batch without a repeated student keeps it so.
\<close>

theorem addStudentsToClass_one_per_year:
  assumes run: "addStudentsToClass s admissionDate dateNow classId (Some studentIds) = (Inr n, s')"
    and batch: "distinct studentIds"
    and pk: "distinct (map c_class_id (classes s))"
    and inv: "\<forall>S Y. length (admissionsInYear s S Y) \<le> 1"
  shows "\<forall>S Y. length (admissionsInYear s' S Y) \<le> 1"
proof (intro allI)
  fix S Y
  from addStudentsToClass_cases [OF run] obtain classData where
    f: "find (\<lambda>c. c_class_id c = classId) (classes s) = Some classData"
    and ex: "existingAdmissions s studentIds (c_academic_year_id classData) = []"
    and s': "s' = s\<lparr>admissions := admissions s
                     @ admissionsToCreate admissionDate dateNow classId studentIds\<rparr>"
    by auto
  define new where "new = filter (\<lambda>a. a_student_id a \<in> set [S]
               \<and> list_ex (\<lambda>c. c_class_id c = a_class_id a \<and> c_academic_year_id c = Y)
                    (classes s))
          (admissionsToCreate admissionDate dateNow classId studentIds)"
  have split: "admissionsInYear s' S Y = admissionsInYear s S Y @ new"
    by (simp add: admissionsInYear_def existingAdmissions_def s' new_def)
  have ids: "map a_student_id (admissionsToCreate admissionDate dateNow classId studentIds)
      = studentIds"
    by (simp add: admissionsToCreate_def with_index_def Let_def split_def map_snd_zip
        cong: map_cong)
  have "length new \<le> length (filter (\<lambda>a. a_student_id a = S)
      (admissionsToCreate admissionDate dateNow classId studentIds))"
    unfolding new_def by (rule length_filter_imp) simp
  also have "\<dots> = length (filter (\<lambda>x. x = S) studentIds)"
    by (subst ids [symmetric]) (simp add: filter_map comp_def)
  also have "\<dots> \<le> 1"
    using batch by (rule distinct_count_le_1)
  finally have new1: "length new \<le> 1" .
  show "length (admissionsInYear s' S Y) \<le> 1"
  proof (cases "new = []")
    case True
    with split inv show ?thesis by simp
  next
    case False
    then obtain a where a: "a \<in> set new" by (cases new) auto
    then have a1: "a \<in> set (admissionsToCreate admissionDate dateNow classId studentIds)"
      "a_student_id a = S"
      and "list_ex (\<lambda>c. c_class_id c = a_class_id a \<and> c_academic_year_id c = Y) (classes s)"
      by (auto simp: new_def)
    moreover from a1(1) have cls: "a_class_id a = classId"
      by (auto simp: admissionsToCreate_def Let_def)
    ultimately obtain c where "c \<in> set (classes s)" "c_class_id c = classId"
      "c_academic_year_id c = Y"
      by (auto simp: list_ex_iff)
    with find_unique_class [OF f pk] have Y: "Y = c_academic_year_id classData" by auto
    from a1 ids have S: "S \<in> set studentIds"
      by (metis image_eqI set_map)
    have "set (admissionsInYear s S Y) \<subseteq> set (existingAdmissions s studentIds Y)"
      using S by (auto simp: admissionsInYear_def existingAdmissions_def)
    with ex Y have "admissionsInYear s S Y = []" by simp
    with split new1 show ?thesis by simp
  qed
qed

theorem addStudentsToClass_one_per_year_witness:
  "fst (addStudentsToClass store_one_class 1750534200000 frozen_clock 1 (Some [7])) = Inr 1
   \<and> map a_class_id (admissionsInYear store_one_class 7 1) = []
   \<and> length (admissionsInYear
        (snd (addStudentsToClass store_one_class 1750534200000 frozen_clock 1 (Some [7]))) 7 1)
       \<le> 1
   \<and> classesOfStudent
        (snd (addStudentsToClass store_one_class 1750534200000 frozen_clock 1 (Some [7]))) 7
      = [1]"
proof -
  have e: "addStudentsToClass store_one_class 1750534200000 frozen_clock 1 (Some [7])
       = (Inr 1, snd (addStudentsToClass store_one_class 1750534200000 frozen_clock 1 (Some [7])))"
    using admit_example by (simp add: prod_eq_iff)
  have b: "distinct [7::nat]" by simp
  have pk: "distinct (map c_class_id (classes store_one_class))"
    by (simp add: example_defs)
  have inv: "\<forall>S Y. length (admissionsInYear store_one_class S Y) \<le> 1"
    by (simp add: no_admission_yet)
  from addStudentsToClass_one_per_year [OF e b pk inv] admit_example no_admission_yet
  show ?thesis by simp
qed

text \<open>
  A batch with a student who holds an admission in the academic year of the class is
  rejected as a whole; the error lists the students of those admissions.
\<close>

lemma already_enrolled_rejected:
  assumes "find (\<lambda>c. c_class_id c = classId) (classes s) = Some classData"
    and "studentIds \<noteq> []"
    and "admissionCount s classId + int (length studentIds) \<le> c_capacity classData"
    and "existingAdmissions s studentIds (c_academic_year_id classData) \<noteq> []"
  shows "addStudentsToClass s admissionDate dateNow classId (Some studentIds)
     = (Inl (Error 400 (AlreadyEnrolledThisYear
          (map a_student_id (existingAdmissions s studentIds (c_academic_year_id classData))))),
        s)"
  using assms
  by (simp add: addStudentsToClass_def addStudentsToClass_tx_def transaction_def Let_def)

lemma one_admission_stale:
  "length (admissionsInYear store_stale_enrollment S Y) \<le> 1"
  by (simp add: admissionsInYear_def existingAdmissions_def example_defs)

text \<open>
  When no student has more than one admission in the classes of one academic year and
  no promoted student holds more than one admission at all, a successful promotion keeps
  it so.
\<close>

theorem promoteStudents_one_per_year:
  assumes run: "promoteStudents s (Some studentIds) (Some targetClassId) = (Inr r, s')"
    and single: "distinct (map a_student_id
                   (filter (\<lambda>a. a_student_id a \<in> set studentIds) (admissions s)))"
    and inv: "\<forall>S Y. length (admissionsInYear s S Y) \<le> 1"
  shows "\<forall>S Y. length (admissionsInYear s' S Y) \<le> 1"
proof (intro allI)
  fix S Y
  from promoteStudents_cases [OF run] have tx: "promoteStudents_tx studentIds targetClassId
              (filter (\<lambda>a. a_student_id a \<in> set studentIds) (admissions s))
              (filter (\<lambda>co. co_class_id co = targetClassId) (courseOfferings s)) s
             = Inr (r, s')" by auto
  note t = promoteStudents_tx_admissions [OF tx]
  show "length (admissionsInYear s' S Y) \<le> 1"
  proof (cases "S \<in> set studentIds")
    case False
    have "length (admissionsInYear s' S Y) = length (admissionsInYear s S Y)"
      unfolding admissionsInYear_def existingAdmissions_def
        t [THEN conjunct1] t [THEN conjunct2, THEN conjunct1]
      using False by (intro length_filter_map_cong) auto
    with inv show ?thesis by simp
  next
    case True
    have "length (admissionsInYear s' S Y)
        \<le> length (filter (\<lambda>a. a_student_id a = S) (admissions s'))"
      unfolding admissionsInYear_def existingAdmissions_def
      by (rule length_filter_imp) simp
    also have "\<dots> = length (filter (\<lambda>a. a_student_id a = S) (admissions s))"
      unfolding t [THEN conjunct2, THEN conjunct1]
      by (intro length_filter_map_cong) auto
    also have "\<dots> = length (filter (\<lambda>x. x = S) (map a_student_id
        (filter (\<lambda>a. a_student_id a \<in> set studentIds) (admissions s))))"
      using True by (simp add: filter_map comp_def conj_commute cong: conj_cong)
    also have "\<dots> \<le> 1"
      using single by (rule distinct_count_le_1)
    finally show ?thesis .
  qed
qed

theorem promoteStudents_one_per_year_witness:
  "fst (promoteStudents store_stale_enrollment (Some [7]) (Some 2))
       = Inr \<lparr>promotedCount = 1, enrolledSubjects = 1, totalEnrollments = 1\<rparr>
   \<and> length (admissionsInYear
        (snd (promoteStudents store_stale_enrollment (Some [7]) (Some 2))) 7 2) \<le> 1
   \<and> classesOfStudent store_stale_enrollment 7 = [1]
   \<and> classesOfStudent (snd (promoteStudents store_stale_enrollment (Some [7]) (Some 2))) 7 = [2]"
proof -
  have e: "promoteStudents store_stale_enrollment (Some [7]) (Some 2)
       = (Inr \<lparr>promotedCount = 1, enrolledSubjects = 1, totalEnrollments = 1\<rparr>,
          snd (promoteStudents store_stale_enrollment (Some [7]) (Some 2)))"
    using promote_example by (simp add: prod_eq_iff)
  have d: "distinct (map a_student_id
        (filter (\<lambda>a. a_student_id a \<in> set [7]) (admissions store_stale_enrollment)))"
    by (simp add: example_defs)
  have inv: "\<forall>S Y. length (admissionsInYear store_stale_enrollment S Y) \<le> 1"
    by (intro allI one_admission_stale)
  have c: "classesOfStudent store_stale_enrollment 7 = [1]"
    "classesOfStudent (snd (promoteStudents store_stale_enrollment (Some [7]) (Some 2))) 7 = [2]"
    by (simp_all add: promote_defs example_defs)
  from promoteStudents_one_per_year [OF e d inv] promote_example c show ?thesis by simp
qed

section \<open>Cancellation of the leave of a student\<close>

lemma leavePeriodIds_found:
  "leavePeriodIds i True (x # xs)
     = map sa_attendance_id
         (x # map snd (takeWhile (\<lambda>(p, q). sa_date q = sa_date p + 1) (zip (x # xs) xs)))"
proof (induction xs arbitrary: x)
  case Nil
  show ?case by simp
next
  case (Cons n rest)
  show ?case using Cons [of n] by (simp add: from_DATE_def)
qed

lemma run_member:
  assumes "sorted_wrt (<) (map sa_date (x # xs))"
  shows "r \<in> set (x # map snd (takeWhile (\<lambda>(p, q). sa_date q = sa_date p + 1) (zip (x # xs) xs)))
     \<longleftrightarrow> r \<in> set (x # xs) \<and> (\<forall>d \<in> {sa_date x..sa_date r}. d \<in> sa_date ` set (x # xs))"
  using assms
proof (induction xs arbitrary: x)
  case Nil
  show ?case by auto
next
  case (Cons n rest)
  from Cons.prems have lt: "sa_date x < sa_date n"
    and gt: "\<forall>y \<in> set rest. sa_date n < sa_date y"
    and sorted': "sorted_wrt (<) (map sa_date (n # rest))" by auto
  note IH = Cons.IH [OF sorted']
  have ge: "y \<in> set (n # rest) \<Longrightarrow> sa_date n \<le> sa_date y" for y
    using gt by auto
  show ?case
  proof (cases "sa_date n = sa_date x + 1")
    case True
    have "r \<in> set (x # map snd (takeWhile (\<lambda>(p, q). sa_date q = sa_date p + 1)
              (zip (x # n # rest) (n # rest))))
        \<longleftrightarrow> r = x \<or> r \<in> set (n # map snd (takeWhile (\<lambda>(p, q). sa_date q = sa_date p + 1)
              (zip (n # rest) rest)))"
      using True by simp
    also have "\<dots> \<longleftrightarrow> r = x \<or> (r \<in> set (n # rest)
         \<and> (\<forall>d \<in> {sa_date n..sa_date r}. d \<in> sa_date ` set (n # rest)))"
      unfolding IH ..
    also have "\<dots> \<longleftrightarrow> r \<in> set (x # n # rest)
         \<and> (\<forall>d \<in> {sa_date x..sa_date r}. d \<in> sa_date ` set (x # n # rest))"
    proof (cases "r = x")
      case True
      then show ?thesis by simp
    next
      case False
      show ?thesis
      proof (cases "r \<in> set (n # rest)")
        case False
        with \<open>r \<noteq> x\<close> show ?thesis by simp
      next
        case mem: True
        have "(\<forall>d \<in> {sa_date n..sa_date r}. d \<in> sa_date ` set (n # rest))
            \<longleftrightarrow> (\<forall>d \<in> {sa_date x..sa_date r}. d \<in> sa_date ` set (x # n # rest))"
        proof
          assume A: "\<forall>d \<in> {sa_date n..sa_date r}. d \<in> sa_date ` set (n # rest)"
          show "\<forall>d \<in> {sa_date x..sa_date r}. d \<in> sa_date ` set (x # n # rest)"
          proof
            fix d assume "d \<in> {sa_date x..sa_date r}"
            then have "d = sa_date x \<or> d \<in> {sa_date n..sa_date r}"
              using True by auto
            with A show "d \<in> sa_date ` set (x # n # rest)" by auto
          qed
        next
          assume B: "\<forall>d \<in> {sa_date x..sa_date r}. d \<in> sa_date ` set (x # n # rest)"
          show "\<forall>d \<in> {sa_date n..sa_date r}. d \<in> sa_date ` set (n # rest)"
          proof
            fix d assume d: "d \<in> {sa_date n..sa_date r}"
            then have "d \<in> {sa_date x..sa_date r}" "d \<noteq> sa_date x"
              using lt by auto
            with B show "d \<in> sa_date ` set (n # rest)" by auto
          qed
        qed
        with mem \<open>r \<noteq> x\<close> show ?thesis by simp
      qed
    qed
    finally show ?thesis .
  next
    case False
    have lhs: "r \<in> set (x # map snd (takeWhile (\<lambda>(p, q). sa_date q = sa_date p + 1)
              (zip (x # n # rest) (n # rest)))) \<longleftrightarrow> r = x"
      using False by simp
    have "\<not> (\<forall>d \<in> {sa_date x..sa_date r}. d \<in> sa_date ` set (x # n # rest))"
      if mem: "r \<in> set (n # rest)"
    proof
      assume B: "\<forall>d \<in> {sa_date x..sa_date r}. d \<in> sa_date ` set (x # n # rest)"
      from ge [OF mem] lt False have "sa_date x + 1 \<in> {sa_date x..sa_date r}" by auto
      with B have "sa_date x + 1 \<in> sa_date ` set (x # n # rest)" by blast
      then obtain y where "y \<in> set (x # n # rest)" "sa_date x + 1 = sa_date y" by blast
      with ge [of y] lt False show False by auto
    qed
    then show ?thesis unfolding lhs by auto
  qed
qed

lemma cancelLeave_cases:
  assumes "cancelLeave tz now s userId i = (res, s')"
  shows "(\<exists>e. res = Inl e \<and> s' = s)
     \<or> (\<exists>student day.
           student_of_user s userId = Some student
         \<and> find (\<lambda>r. sa_attendance_id r = i) (studentAttendance s) = Some day
         \<and> sa_student_id day = st_student_id student
         \<and> sa_status day = on_leave
         \<and> from_DATE (sa_date day) > setHours_0 tz now
         \<and> res = Inr ()
         \<and> s' = s\<lparr>studentAttendance :=
                    map (\<lambda>r. if sa_attendance_id r
                                 \<in> set (leavePeriodIds i False
                                          (allLeaveDaysForReason s (st_student_id student)
                                             (sa_remarks day) (from_DATE (sa_date day))))
                              then r\<lparr>sa_status := absent,
                                     sa_remarks := Some ''Leave Cancelled by Student''\<rparr>
                              else r)
                      (studentAttendance s)\<rparr>)"
  using assms by (auto simp: cancelLeave_def Let_def split: option.splits if_splits)

lemma leave_period_ids:
  assumes pk: "distinct (map sa_attendance_id (studentAttendance s))"
    and uq: "distinct (map (\<lambda>r. (sa_student_id r, sa_date r)) (studentAttendance s))"
    and f: "find (\<lambda>r. sa_attendance_id r = i) (studentAttendance s) = Some day"
    and own: "sa_student_id day = sid" and st: "sa_status day = on_leave"
    and r: "r \<in> set (studentAttendance s)"
  shows "sa_attendance_id r
           \<in> set (leavePeriodIds i False
                    (allLeaveDaysForReason s sid (sa_remarks day) (from_DATE (sa_date day))))
     \<longleftrightarrow> sa_student_id r = sid \<and> sa_status r = on_leave \<and> sa_remarks r = sa_remarks day
         \<and> contiguousRun s sid (sa_remarks day) (sa_date day) (sa_date r)"
proof -
  define F where "F = (\<lambda>r::student_attendance_row. sa_student_id r = sid \<and> sa_status r = on_leave
      \<and> sa_remarks r = sa_remarks day \<and> sa_date day \<le> sa_date r)"
  define xs where "xs = filter F (studentAttendance s)"
  define rows where "rows = sort_key sa_date xs"
  have rows: "allLeaveDaysForReason s sid (sa_remarks day) (from_DATE (sa_date day)) = rows"
    by (simp add: allLeaveDaysForReason_def rows_def xs_def F_def)
  from f have day: "day \<in> set (studentAttendance s)" "sa_attendance_id day = i"
    by (auto simp: find_Some_iff)
  with own st have "day \<in> set xs" by (simp add: xs_def F_def)
  then have day_rows: "day \<in> set rows" by (simp add: rows_def)
  have set_rows: "set rows = {r \<in> set (studentAttendance s). F r}"
    by (auto simp: rows_def xs_def)
  have "distinct (map (\<lambda>r. (sa_student_id r, sa_date r)) xs)"
    unfolding xs_def using uq by (rule distinct_map_filter)
  then have dxs: "distinct xs" and inj: "inj_on (\<lambda>r. (sa_student_id r, sa_date r)) (set xs)"
    by (simp_all add: distinct_map)
  have inj_date: "inj_on sa_date (set xs)"
  proof (rule inj_onI)
    fix a b assume ab: "a \<in> set xs" "b \<in> set xs" "sa_date a = sa_date b"
    then have "sa_student_id a = sa_student_id b" by (simp add: xs_def F_def)
    with ab inj show "a = b" by (auto dest: inj_onD)
  qed
  have "distinct (map sa_date rows)"
    using dxs inj_date by (simp add: rows_def distinct_map)
  moreover have "sorted (map sa_date rows)" by (simp add: rows_def)
  ultimately have strict: "sorted_wrt (<) (map sa_date rows)"
    by (simp add: strict_sorted_iff)
  from day_rows obtain x rest where xr: "rows = x # rest" by (cases rows) auto
  have "x \<in> set rows" by (simp add: xr)
  then have "sa_date day \<le> sa_date x" by (simp add: set_rows F_def)
  moreover have "sa_date x \<le> sa_date day"
    using strict day_rows unfolding xr by auto
  ultimately have "sa_date x = sa_date day" by simp
  with inj_date \<open>x \<in> set rows\<close> day_rows have x: "x = day"
    by (auto simp: rows_def dest: inj_onD)
  define run where "run = day # map snd (takeWhile (\<lambda>(p, q). sa_date q = sa_date p + 1)
      (zip (day # rest) rest))"
  have ids: "leavePeriodIds i False rows = map sa_attendance_id run"
    unfolding xr x run_def using day(2) leavePeriodIds_found [of i day rest] by simp
  have mem: "r' \<in> set run
      \<longleftrightarrow> r' \<in> set rows \<and> (\<forall>d \<in> {sa_date day..sa_date r'}. d \<in> sa_date ` set rows)" for r'
    unfolding run_def xr x by (rule run_member [OF strict [unfolded xr x]])
  have sub: "r' \<in> set (studentAttendance s)" if "r' \<in> set run" for r'
    using that mem [of r'] set_rows by simp
  have "sa_attendance_id r \<in> set (leavePeriodIds i False rows) \<longleftrightarrow> r \<in> set run"
  proof
    assume "sa_attendance_id r \<in> set (leavePeriodIds i False rows)"
    then obtain r' where r': "r' \<in> set run" "sa_attendance_id r' = sa_attendance_id r"
      unfolding ids by auto
    from sub [OF r'(1)] r r'(2) pk have "r' = r"
      by (auto simp: distinct_map dest: inj_onD)
    with r'(1) show "r \<in> set run" by simp
  next
    assume "r \<in> set run"
    then show "sa_attendance_id r \<in> set (leavePeriodIds i False rows)"
      unfolding ids by simp
  qed
  also have "\<dots> \<longleftrightarrow> r \<in> set rows \<and> (\<forall>d \<in> {sa_date day..sa_date r}. d \<in> sa_date ` set rows)"
    by (rule mem)
  also have "\<dots> \<longleftrightarrow> F r \<and> (\<forall>d \<in> {sa_date day..sa_date r}. leaveDay s sid (sa_remarks day) d)"
  proof -
    have "d \<in> sa_date ` set rows \<longleftrightarrow> leaveDay s sid (sa_remarks day) d"
      if "d \<in> {sa_date day..sa_date r}" for d
      using that by (auto simp: set_rows F_def leaveDay_def list_ex_iff image_iff)
    then show ?thesis using r by (auto simp: set_rows)
  qed
  also have "\<dots> \<longleftrightarrow> sa_student_id r = sid \<and> sa_status r = on_leave
         \<and> sa_remarks r = sa_remarks day
         \<and> contiguousRun s sid (sa_remarks day) (sa_date day) (sa_date r)"
    by (auto simp: F_def contiguousRun_def)
  finally show ?thesis unfolding rows .
qed

lemma cancel_example:
  "fst (cancelLeave 0 1751257800000 store_leave_gap 70 11) = Inr ()
   \<and> map sa_status (studentAttendance (snd (cancelLeave 0 1751257800000 store_leave_gap 70 11)))
      = [absent, on_leave, absent, on_leave]
   \<and> map sa_date (studentAttendance store_leave_gap) = [20270, 20273, 20271, 20272]
   \<and> map sa_remarks (studentAttendance store_leave_gap)
      = [Some ''Fever'', Some ''Fever'', Some ''Fever'', Some ''Trip'']"
  by (simp add: cancelLeave_def student_of_user_def setHours_0_def from_DATE_def to_DATE_def
      allLeaveDaysForReason_def store_leave_gap_def example_defs)

text \<open>
  With attendance ids and the pairs of student and date unique, a successful
  cancellation reverts exactly the rows of the student that are on leave with the remark
  of the given row and whose date continues the run of such days that starts at the
  given row; every other row and every other table stay as they were.
\<close>

theorem cancelLeave_reverts_contiguous_run:
  assumes run: "cancelLeave tz now s userId i = (Inr (), s')"
    and pk: "distinct (map sa_attendance_id (studentAttendance s))"
    and uq: "distinct (map (\<lambda>r. (sa_student_id r, sa_date r)) (studentAttendance s))"
  shows "\<exists>student day.
           student_of_user s userId = Some student
         \<and> find (\<lambda>r. sa_attendance_id r = i) (studentAttendance s) = Some day
         \<and> sa_student_id day = st_student_id student
         \<and> s' = s\<lparr>studentAttendance :=
                    map (\<lambda>r. if sa_student_id r = st_student_id student
                                 \<and> sa_status r = on_leave
                                 \<and> sa_remarks r = sa_remarks day
                                 \<and> contiguousRun s (st_student_id student) (sa_remarks day)
                                      (sa_date day) (sa_date r)
                              then cancelled r else r)
                      (studentAttendance s)\<rparr>"
proof -
  from cancelLeave_cases [OF run] obtain student day where
    a: "student_of_user s userId = Some student"
      "find (\<lambda>r. sa_attendance_id r = i) (studentAttendance s) = Some day"
      "sa_student_id day = st_student_id student" "sa_status day = on_leave"
    and s': "s' = s\<lparr>studentAttendance :=
                    map (\<lambda>r. if sa_attendance_id r
                                 \<in> set (leavePeriodIds i False
                                          (allLeaveDaysForReason s (st_student_id student)
                                             (sa_remarks day) (from_DATE (sa_date day))))
                              then r\<lparr>sa_status := absent,
                                     sa_remarks := Some ''Leave Cancelled by Student''\<rparr>
                              else r)
                      (studentAttendance s)\<rparr>"
    by auto
  have "map (\<lambda>r. if sa_attendance_id r
                                 \<in> set (leavePeriodIds i False
                                          (allLeaveDaysForReason s (st_student_id student)
                                             (sa_remarks day) (from_DATE (sa_date day))))
                              then r\<lparr>sa_status := absent,
                                     sa_remarks := Some ''Leave Cancelled by Student''\<rparr>
                              else r)
                      (studentAttendance s)
      = map (\<lambda>r. if sa_student_id r = st_student_id student
                                 \<and> sa_status r = on_leave
                                 \<and> sa_remarks r = sa_remarks day
                                 \<and> contiguousRun s (st_student_id student) (sa_remarks day)
                                      (sa_date day) (sa_date r)
                              then cancelled r else r)
                      (studentAttendance s)"
    by (rule map_cong [OF refl])
      (simp only: leave_period_ids [OF pk uq a(2,3,4)] cancelled_def)
  with a s' show ?thesis by simp
qed

theorem cancelLeave_reverts_contiguous_run_witness:
  "fst (cancelLeave 0 1751257800000 store_leave_gap 70 11) = Inr ()
   \<and> map sa_status (studentAttendance (snd (cancelLeave 0 1751257800000 store_leave_gap 70 11)))
      = [absent, on_leave, absent, on_leave]
   \<and> map sa_date (studentAttendance store_leave_gap) = [20270, 20273, 20271, 20272]
   \<and> map sa_remarks (studentAttendance store_leave_gap)
      = [Some ''Fever'', Some ''Fever'', Some ''Fever'', Some ''Trip'']
   \<and> (\<exists>student day.
         student_of_user store_leave_gap 70 = Some student
       \<and> find (\<lambda>r. sa_attendance_id r = 11) (studentAttendance store_leave_gap) = Some day
       \<and> studentAttendance (snd (cancelLeave 0 1751257800000 store_leave_gap 70 11))
           = map (\<lambda>r. if sa_student_id r = st_student_id student
                          \<and> sa_status r = on_leave
                          \<and> sa_remarks r = sa_remarks day
                          \<and> contiguousRun store_leave_gap (st_student_id student)
                               (sa_remarks day) (sa_date day) (sa_date r)
                       then cancelled r else r)
               (studentAttendance store_leave_gap))"
proof -
  have e: "cancelLeave 0 1751257800000 store_leave_gap 70 11
       = (Inr (), snd (cancelLeave 0 1751257800000 store_leave_gap 70 11))"
    using cancel_example by (simp add: prod_eq_iff)
  have pk: "distinct (map sa_attendance_id (studentAttendance store_leave_gap))"
    by (simp add: store_leave_gap_def example_defs)
  have uq: "distinct (map (\<lambda>r. (sa_student_id r, sa_date r)) (studentAttendance store_leave_gap))"
    by (simp add: store_leave_gap_def example_defs)
  from cancelLeave_reverts_contiguous_run [OF e pk uq] obtain student day where
    "student_of_user store_leave_gap 70 = Some student"
    "find (\<lambda>r. sa_attendance_id r = 11) (studentAttendance store_leave_gap) = Some day"
    "snd (cancelLeave 0 1751257800000 store_leave_gap 70 11)
       = store_leave_gap\<lparr>studentAttendance :=
           map (\<lambda>r. if sa_student_id r = st_student_id student
                          \<and> sa_status r = on_leave
                          \<and> sa_remarks r = sa_remarks day
                          \<and> contiguousRun store_leave_gap (st_student_id student)
                               (sa_remarks day) (sa_date day) (sa_date r)
                       then cancelled r else r)
               (studentAttendance store_leave_gap)\<rparr>"
    by blast
  then have "\<exists>student day.
         student_of_user store_leave_gap 70 = Some student
       \<and> find (\<lambda>r. sa_attendance_id r = 11) (studentAttendance store_leave_gap) = Some day
       \<and> studentAttendance (snd (cancelLeave 0 1751257800000 store_leave_gap 70 11))
           = map (\<lambda>r. if sa_student_id r = st_student_id student
                          \<and> sa_status r = on_leave
                          \<and> sa_remarks r = sa_remarks day
                          \<and> contiguousRun store_leave_gap (st_student_id student)
                               (sa_remarks day) (sa_date day) (sa_date r)
                       then cancelled r else r)
               (studentAttendance store_leave_gap)"
    by (metis (no_types, lifting) store.select_convs(9) store.surjective store.update_convs(9))
  with cancel_example show ?thesis by simp
qed

text \<open>
  A cancellation that is rejected changes nothing. One that succeeds has found the
  start of the leave after the server's midnight of today; in a server zone that is not
  east of UTC the start date is then after today's date.
\<close>

theorem cancelLeave_future_only:
  assumes "cancelLeave tz now s userId i = (res, s')"
  shows "case res of
           Inl e \<Rightarrow> s' = s
         | Inr u \<Rightarrow>
             (\<exists>day. find (\<lambda>r. sa_attendance_id r = i) (studentAttendance s) = Some day
                \<and> from_DATE (sa_date day) > setHours_0 tz now
                \<and> (tz \<le> 0 \<longrightarrow> sa_date day > to_DATE (now + tz * 60000)))"
proof -
  from cancelLeave_cases [OF assms] show ?thesis
  proof (elim disjE exE conjE)
    fix e assume "res = Inl e" "s' = s"
    then show ?thesis by simp
  next
    fix student day
    assume a: "find (\<lambda>r. sa_attendance_id r = i) (studentAttendance s) = Some day"
      "from_DATE (sa_date day) > setHours_0 tz now" "res = Inr ()"
    have "sa_date day > to_DATE (now + tz * 60000)" if "tz \<le> 0"
    proof -
      from a(2) that have "to_DATE (now + tz * 60000) * 86400000 < sa_date day * 86400000"
        by (simp add: setHours_0_def from_DATE_def to_DATE_def)
      then show ?thesis by simp
    qed
    with a show ?thesis by simp
  qed
qed

theorem cancelLeave_future_only_witness:
  "fst (cancelLeave 0 1751257800000 store_leave_gap 70 11) = Inr ()
   \<and> to_DATE (1751257800000 + 0 * 60000) = 20269
   \<and> (\<exists>day. find (\<lambda>r. sa_attendance_id r = 11) (studentAttendance store_leave_gap) = Some day
         \<and> sa_date day = 20270
         \<and> sa_date day > to_DATE (1751257800000 + 0 * 60000))"
proof -
  have e: "cancelLeave 0 1751257800000 store_leave_gap 70 11
       = (Inr (), snd (cancelLeave 0 1751257800000 store_leave_gap 70 11))"
    using cancel_example by (simp add: prod_eq_iff)
  have t: "to_DATE (1751257800000 + 0 * 60000) = 20269"
    by (simp add: to_DATE_def)
  have f: "find (\<lambda>r. sa_attendance_id r = 11) (studentAttendance store_leave_gap)
      = Some \<lparr>sa_attendance_id = 11, sa_student_id = 7, sa_class_id = 1, sa_date = 20270,
          sa_status = on_leave, sa_remarks = Some ''Fever''\<rparr>"
    by (simp add: store_leave_gap_def example_defs)
  from cancelLeave_future_only [OF e] cancel_example t f show ?thesis by simp
qed

section \<open>Batches of attendance records\<close>

lemma run_all_append:
  "run_all (xs @ ys) tx = Inr tx' \<longleftrightarrow> (\<exists>t1. run_all xs tx = Inr t1 \<and> run_all ys t1 = Inr tx')"
  by (induction xs arbitrary: tx) (auto split: sum.splits)

lemma is_upsert_weaken:
  assumes "is_upsert proj key P k operation" and "\<And>r. P r \<Longrightarrow> Q r"
  shows "is_upsert proj key Q k operation"
  using assms unfolding is_upsert_def by metis

lemma run_all_last_wins:
  assumes run: "run_all (map f xs) tx = Inr tx'"
    and dist: "distinct (map key (proj tx))"
    and ups: "\<forall>x\<in>set xs. is_upsert proj key (P x) (kf x) (f x)"
    and i: "i < length xs"
    and last: "\<forall>j. i < j \<and> j < length xs \<longrightarrow> kf (xs ! j) \<noteq> kf (xs ! i)"
  shows "distinct (map key (proj tx'))
     \<and> (\<exists>r. filter (\<lambda>r. key r = kf (xs ! i)) (proj tx') = [r] \<and> P (xs ! i) r)"
proof -
  let ?T = "\<lambda>r. True"
  have upsT: "\<forall>x\<in>set ys. is_upsert proj key ?T (kf x) (f x)" if "set ys \<subseteq> set xs" for ys
    using ups that by (auto intro: is_upsert_weaken)
  have xs: "xs = take i xs @ xs ! i # drop (Suc i) xs"
    using i by (rule id_take_nth_drop)
  have "run_all (map f (take i xs) @ (f (xs ! i) # map f (drop (Suc i) xs))) tx = Inr tx'"
    using run by (subst (asm) xs) simp
  then obtain t1 where 1: "run_all (map f (take i xs)) tx = Inr t1"
    and rest: "run_all (f (xs ! i) # map f (drop (Suc i) xs)) t1 = Inr tx'"
    unfolding run_all_append by blast
  from rest obtain t2 where 2: "f (xs ! i) t1 = Inr t2"
    and 3: "run_all (map f (drop (Suc i) xs)) t2 = Inr tx'"
    by (cases "f (xs ! i) t1") auto
  from run_all_upserts [OF run dist upsT [OF subset_refl]]
  have d': "distinct (map key (proj tx'))" by simp
  from run_all_upserts [OF 1 dist upsT [OF set_take_subset]]
  have d1: "distinct (map key (proj t1))" by simp
  have mem: "xs ! i \<in> set xs" using i by simp
  with ups have "is_upsert proj key (P (xs ! i)) (kf (xs ! i)) (f (xs ! i))" by blast
  with 2 obtain u new where
    up: "proj t2 = upsert_rows (\<lambda>r. key r = kf (xs ! i)) u new (proj t1)"
    and u: "\<forall>r. key r = kf (xs ! i) \<longrightarrow> key (u r) = kf (xs ! i) \<and> P (xs ! i) (u r)"
    and new: "key new = kf (xs ! i)" "P (xs ! i) new"
    unfolding is_upsert_def by metis
  have d2: "distinct (map key (proj t2))"
    unfolding up using u new(1) d1 by (intro upsert_rows_distinct) auto
  have "\<exists>r\<in>set (proj t2). key r = kf (xs ! i) \<and> P (xs ! i) r"
    unfolding up using u new by (intro upsert_rows_has) auto
  then obtain r where r: "r \<in> set (proj t2)" "key r = kf (xs ! i)" "P (xs ! i) r" by blast
  from run_all_upserts [OF 3 d2 upsT [OF set_drop_subset]]
  have fl: "filter (\<lambda>r. key r \<notin> kf ` set (drop (Suc i) xs)) (proj tx')
      = filter (\<lambda>r. key r \<notin> kf ` set (drop (Suc i) xs)) (proj t2)" by simp
  have out: "kf (xs ! i) \<notin> kf ` set (drop (Suc i) xs)"
  proof
    assume "kf (xs ! i) \<in> kf ` set (drop (Suc i) xs)"
    then obtain y where y: "y \<in> set (drop (Suc i) xs)" "kf y = kf (xs ! i)" by auto
    then obtain m where m: "m < length (drop (Suc i) xs)" "drop (Suc i) xs ! m = y"
      by (auto simp: in_set_conv_nth)
    then have "xs ! (Suc i + m) = y" "Suc i + m < length xs" by auto
    with last y(2) show False
      by (metis less_add_Suc1 add_Suc)
  qed
  with r have "r \<in> set (filter (\<lambda>r. key r \<notin> kf ` set (drop (Suc i) xs)) (proj t2))" by simp
  then have r': "r \<in> set (proj tx')" unfolding fl [symmetric] by simp
  from distinct_key_filter [OF d' r'] r(2,3) d' show ?thesis by auto
qed

lemma map_throwing_upserts:
  assumes "map_throwing (upsert_of_record classId t) records = Inr ops"
  shows "ops = map (\<lambda>record.
                 studentAttendance_upsert (the (r_studentId record)) (to_DATE t)
                   (\<lambda>r. r\<lparr>sa_status := the (map_of validStatuses (the (r_status record))),
                          sa_remarks := remarks_or_null (r_remarks record)\<rparr>)
                   (\<lambda>n. \<lparr>sa_attendance_id = n, sa_student_id = the (r_studentId record),
                          sa_class_id = classId, sa_date = to_DATE t,
                          sa_status = the (map_of validStatuses (the (r_status record))),
                          sa_remarks = remarks_or_null (r_remarks record)\<rparr>))
             records"
  using assms
proof (induction records arbitrary: ops)
  case Nil
  then show ?case by simp
next
  case (Cons x xs)
  from Cons.prems obtain upsert1 rest where
    1: "upsert_of_record classId t x = Inr upsert1"
    and 2: "map_throwing (upsert_of_record classId t) xs = Inr rest"
    and ops: "ops = upsert1 # rest"
    by (auto split: sum.splits)
  from 1 have "upsert1 = studentAttendance_upsert (the (r_studentId x)) (to_DATE t)
                   (\<lambda>r. r\<lparr>sa_status := the (map_of validStatuses (the (r_status x))),
                          sa_remarks := remarks_or_null (r_remarks x)\<rparr>)
                   (\<lambda>n. \<lparr>sa_attendance_id = n, sa_student_id = the (r_studentId x),
                          sa_class_id = classId, sa_date = to_DATE t,
                          sa_status = the (map_of validStatuses (the (r_status x))),
                          sa_remarks = remarks_or_null (r_remarks x)\<rparr>)"
    by (auto simp: upsert_of_record_def split: option.splits if_splits)
  with Cons.IH [OF 2] ops show ?case by simp
qed

lemma batch_success:
  assumes "upsertStudentAttendance new_Date s standard sectionName date (Some records)
             = (Inr n, s')"
  shows "\<exists>classId t ops. new_Date (the date @ ''T00:00:00.000Z'') = Some t
           \<and> map_throwing (upsert_of_record classId t) records = Inr ops
           \<and> n = length ops \<and> run_all ops s = Inr s'"
  using assms
  by (auto simp: upsertStudentAttendance_def transaction_all_def transaction_def
      split: if_splits option.splits sum.splits prod.splits)

text \<open>
  Last write wins within a request and across requests: with the unique key
  (student_id, date), after a successful \<open>upsertStudentAttendance\<close> the key is still
  unique, the request has run one upsert per record, and for every record that no later
  record of the batch overrides (none for the same student) the table holds exactly one
  row for the student and the day, with the status and the remark of that record.
\<close>

theorem upsertStudentAttendance_last_write_wins:
  assumes dist: "distinct (map (\<lambda>r. (sa_student_id r, sa_date r)) (studentAttendance s))"
    and req: "upsertStudentAttendance new_Date s standard sectionName date (Some records)
                = (Inr n, s')"
    and i: "i < length records"
    and last: "\<forall>j. i < j \<and> j < length records
                  \<longrightarrow> r_studentId (records ! j) \<noteq> r_studentId (records ! i)"
  shows "\<exists>t row. new_Date (the date @ ''T00:00:00.000Z'') = Some t
           \<and> n = length records
           \<and> distinct (map (\<lambda>r. (sa_student_id r, sa_date r)) (studentAttendance s'))
           \<and> filter (\<lambda>r. sa_student_id r = the (r_studentId (records ! i))
                          \<and> sa_date r = to_DATE t) (studentAttendance s') = [row]
           \<and> Some (sa_status row) = map_of validStatuses (the (r_status (records ! i)))
           \<and> sa_remarks row = remarks_or_null (r_remarks (records ! i))"
proof -
  let ?key = "\<lambda>r. (sa_student_id r, sa_date r)"
  from batch_success [OF req] obtain classId t ops where
    t: "new_Date (the date @ ''T00:00:00.000Z'') = Some t"
    and mt: "map_throwing (upsert_of_record classId t) records = Inr ops"
    and n: "n = length ops" and run: "run_all ops s = Inr s'"
    by blast
  let ?stat = "\<lambda>record. the (map_of validStatuses (the (r_status record)))"
  let ?f = "\<lambda>record.
                 studentAttendance_upsert (the (r_studentId record)) (to_DATE t)
                   (\<lambda>r. r\<lparr>sa_status := ?stat record,
                          sa_remarks := remarks_or_null (r_remarks record)\<rparr>)
                   (\<lambda>n. \<lparr>sa_attendance_id = n, sa_student_id = the (r_studentId record),
                          sa_class_id = classId, sa_date = to_DATE t,
                          sa_status = ?stat record,
                          sa_remarks = remarks_or_null (r_remarks record)\<rparr>)"
  let ?P = "\<lambda>record r. sa_status r = ?stat record
                \<and> sa_remarks r = remarks_or_null (r_remarks record)"
  let ?kf = "\<lambda>record. (the (r_studentId record), to_DATE t)"
  note ops = map_throwing_upserts [OF mt]
  have valid: "r_studentId rcd \<noteq> None
      \<and> map_of validStatuses (the (r_status rcd)) \<noteq> None"
    if "rcd \<in> set records" for rcd
    using mt that
  proof (induction records arbitrary: ops)
    case Nil
    then show ?case by simp
  next
    case (Cons x xs)
    from Cons.prems(1) obtain upsert1 rest where
      1: "upsert_of_record classId t x = Inr upsert1"
      and 2: "map_throwing (upsert_of_record classId t) xs = Inr rest"
      by (auto split: sum.splits)
    from 1 have "r_studentId x \<noteq> None \<and> map_of validStatuses (the (r_status x)) \<noteq> None"
      by (auto simp: upsert_of_record_def split: option.splits if_splits)
    with Cons.IH [OF 2] Cons.prems(2) show ?case by auto
  qed
  have ups: "\<forall>x\<in>set records. is_upsert studentAttendance ?key (?P x) (?kf x) (?f x)"
  proof
    fix x assume "x \<in> set records"
    show "is_upsert studentAttendance ?key (?P x) (?kf x) (?f x)"
      unfolding is_upsert_def
    proof (intro allI impI)
      fix tx tx' assume "?f x tx = Inr tx'"
      from studentAttendance_upsert_rows [OF this]
      show "\<exists>u new. studentAttendance tx' = upsert_rows (\<lambda>r. ?key r = ?kf x) u new
                                                (studentAttendance tx)
            \<and> (\<forall>r. ?key r = ?kf x \<longrightarrow> ?key (u r) = ?kf x \<and> ?P x (u r))
            \<and> ?key new = ?kf x \<and> ?P x new"
        by (intro exI conjI, assumption) simp_all
    qed
  qed
  have run': "run_all (map ?f records) s = Inr s'"
    using run unfolding ops .
  have last': "\<forall>j. i < j \<and> j < length records \<longrightarrow> ?kf (records ! j) \<noteq> ?kf (records ! i)"
  proof (intro allI impI)
    fix j assume j: "i < j \<and> j < length records"
    with last have ne: "r_studentId (records ! j) \<noteq> r_studentId (records ! i)" by blast
    from j i valid [of "records ! j"] valid [of "records ! i"]
    obtain a b where "r_studentId (records ! j) = Some a" "r_studentId (records ! i) = Some b"
      by auto
    with ne show "?kf (records ! j) \<noteq> ?kf (records ! i)" by simp
  qed
  from run_all_last_wins [OF run' dist ups i last']
  obtain row where d': "distinct (map ?key (studentAttendance s'))"
    and row: "filter (\<lambda>r. ?key r = ?kf (records ! i)) (studentAttendance s') = [row]"
      "?P (records ! i) row"
    by blast
  from row(1) have f: "filter (\<lambda>r. sa_student_id r = the (r_studentId (records ! i))
                          \<and> sa_date r = to_DATE t) (studentAttendance s') = [row]"
    by (simp add: prod_eq_iff)
  from valid [of "records ! i"] i
  obtain stat where "map_of validStatuses (the (r_status (records ! i))) = Some stat" by auto
  with row(2) have st: "Some (sa_status row) = map_of validStatuses (the (r_status (records ! i)))"
    by simp
  have len: "n = length records" using n ops by simp
  from t len d' f st row(2) show ?thesis by blast
qed


theorem upsertStudentAttendance_last_write_wins_witness:
  "upsertStudentAttendance new_Date_example store_attendance (Some ''10'') (Some ''A'')
     (Some ''2025-06-22'')
     (Some [\<lparr>r_studentId = Some 7, r_status = Some ''present'', r_remarks = None\<rparr>,
            \<lparr>r_studentId = Some 7, r_status = Some ''absent'', r_remarks = Some ''Sick''\<rparr>])
     = (Inr 2, store_attendance_2)
   \<and> (\<exists>row. filter (\<lambda>r. sa_student_id r = 7 \<and> sa_date r = 20261)
                (studentAttendance store_attendance_2) = [row]
          \<and> sa_status row = absent \<and> sa_remarks row = Some ''Sick'')"
proof -
  define records where "records =
     [\<lparr>r_studentId = Some 7, r_status = Some ''present'', r_remarks = None\<rparr>,
      \<lparr>r_studentId = Some (7::nat), r_status = Some ''absent'', r_remarks = Some ''Sick''\<rparr>]"
  have e: "upsertStudentAttendance new_Date_example store_attendance (Some ''10'') (Some ''A'')
     (Some ''2025-06-22'') (Some records) = (Inr 2, store_attendance_2)"
    unfolding store_attendance_2_eq records_def by (simp add: attendance_eval)
  have d: "distinct (map (\<lambda>r. (sa_student_id r, sa_date r)) (studentAttendance store_attendance))"
    by (simp add: store_attendance_def empty_store_def)
  have i: "1 < length records" by (simp add: records_def)
  have l: "\<forall>j. 1 < j \<and> j < length records
              \<longrightarrow> r_studentId (records ! j) \<noteq> r_studentId (records ! 1)"
    by (simp add: records_def)
  from upsertStudentAttendance_last_write_wins [OF d e i l]
  obtain t row where "new_Date_example (the (Some ''2025-06-22'') @ ''T00:00:00.000Z'') = Some t"
    "filter (\<lambda>r. sa_student_id r = the (r_studentId (records ! 1)) \<and> sa_date r = to_DATE t)
       (studentAttendance store_attendance_2) = [row]"
    "Some (sa_status row) = map_of validStatuses (the (r_status (records ! 1)))"
    "sa_remarks row = remarks_or_null (r_remarks (records ! 1))"
    by blast
  then have "filter (\<lambda>r. sa_student_id r = 7 \<and> sa_date r = 20261)
                (studentAttendance store_attendance_2) = [row]
          \<and> sa_status row = absent \<and> sa_remarks row = Some ''Sick''"
    by (auto simp: records_def new_Date_example_def to_DATE_def validStatuses_def
        remarks_or_null_def falsy_def)
  with e show ?thesis unfolding records_def by blast
qed

section \<open>Requests in a zone with a fixed offset\<close>

text \<open>
  In a time zone with a fixed offset from UTC the loop over the dates ends, whatever its
  bounds, and the three controllers that run it answer every request.
\<close>

lemma dateRange_fixed_offset_returns:
  "\<exists>dates. dateRange (fixed_offset c) dt endDate = Some dates"
proof (induction "nat (endDate - dt + 1)" arbitrary: dt rule: less_induct)
  case less
  show ?case
  proof (cases "dt \<le> endDate")
    case True
    have step: "setDate_next (fixed_offset c) dt = dt + 86400000"
      by (simp add: setDate_next_def LocalTime_def UTC_def fixed_offset_def)
    from True have "nat (endDate - (dt + 86400000) + 1) < nat (endDate - dt + 1)" by simp
    from less [OF this] obtain dates where
      "dateRange (fixed_offset c) (dt + 86400000) endDate = Some dates" by blast
    with True step show ?thesis
      by (subst dateRange.simps) simp
  next
    case False
    then show ?thesis by (subst dateRange.simps) simp
  qed
qed

lemma requests_return_fixed_offset:
  "\<exists>r. markBulkAttendance (fixed_offset c) new_Date s employeeIds startDate endDate stat
          checkIn checkOut reason = Some r"
  "\<exists>r. updateLeaveStatus (fixed_offset c) s leaveId status comment = Some r"
  "\<exists>r. createLeave (fixed_offset c) new_Date s userId fromDate toDate why = Some r"
proof -
  show "\<exists>r. markBulkAttendance (fixed_offset c) new_Date s employeeIds startDate endDate stat
          checkIn checkOut reason = Some r"
    using dateRange_fixed_offset_returns
      [of c "the (new_Date (the startDate))" "the (new_Date (the endDate))"]
    by (auto simp: markBulkAttendance_def)
  show "\<exists>r. updateLeaveStatus (fixed_offset c) s leaveId status comment = Some r"
  proof (cases "find (\<lambda>l. el_leave_id l = leaveId) (employeeLeaves s)")
    case None
    then show ?thesis by (simp add: updateLeaveStatus_def)
  next
    case (Some old)
    from dateRange_fixed_offset_returns
      [of c "from_DATE (el_start_date old)" "from_DATE (el_end_date old)"]
    obtain dates where "dateRange (fixed_offset c) (from_DATE (el_start_date old))
        (from_DATE (el_end_date old)) = Some dates" by blast
    with Some show ?thesis
      by (auto simp: updateLeaveStatus_def updateLeaveStatus_tx_def transaction_partial_def
          Let_def split: sum.splits)
  qed
  show "\<exists>r. createLeave (fixed_offset c) new_Date s userId fromDate toDate why = Some r"
  proof (cases "new_Date (the fromDate)")
    case None
    then show ?thesis by (simp add: createLeave_def)
  next
    case t1: (Some t1)
    show ?thesis
    proof (cases "new_Date (the toDate)")
      case None
      with t1 show ?thesis by (simp add: createLeave_def)
    next
      case t2: (Some t2)
      from dateRange_fixed_offset_returns [of c t1 t2]
      obtain dates where "dateRange (fixed_offset c) t1 t2 = Some dates" by blast
      with t1 t2 show ?thesis
        by (auto simp: createLeave_def split: option.splits)
    qed
  qed
qed

end
